theory Spec2Isabelle
  imports Complex_Main
begin

section \<open>Strings\<close>

text \<open>
  A JavaScript string is a sequence of UTF-16 code units, and \<open>length\<close>, \<open>indexOf\<close>,
  \<open>substring\<close> and the regular expressions of the source (none has the \<open>u\<close> flag) all
  count code units. A string is therefore a list of code units, each a natural number.
  \<open>js\<close> turns an (8-bit) literal into such a string.
\<close>

type_synonym jstring = "nat list"

definition js :: "string \<Rightarrow> jstring" where
  "js s = map of_char s"

definition isDigit :: "nat \<Rightarrow> bool" where
  "isDigit c = (48 \<le> c \<and> c \<le> 57)"

definition isUpperAZ :: "nat \<Rightarrow> bool" where
  "isUpperAZ c = (65 \<le> c \<and> c \<le> 90)"

definition isLowerAZ :: "nat \<Rightarrow> bool" where
  "isLowerAZ c = (97 \<le> c \<and> c \<le> 122)"

text \<open>
  \<open>String.prototype.toLowerCase\<close>. The model is exact on every code unit whose lower-case
  form contains an ASCII character: \<open>A\<close>-\<open>Z\<close>, U+0130 (which becomes \<open>i\<close> followed by
  U+0307) and U+212A (the Kelvin sign, which becomes \<open>k\<close>). Every other code unit is kept:
  its lower-case form has no ASCII character, and the source only ever looks for ASCII
  words in a lower-cased string.
\<close>

definition lowerUnit :: "nat \<Rightarrow> jstring" where
  "lowerUnit c =
     (if isUpperAZ c then [c + 32]
      else if c = 304 then [105, 775]
      else if c = 8490 then [107]
      else [c])"

definition toLowerCase :: "jstring \<Rightarrow> jstring" where
  "toLowerCase s = concat (map lowerUnit s)"


text \<open>\<open>s.startsWith(t)\<close> and \<open>s.includes(t)\<close>\<close>

definition startsWith :: "jstring \<Rightarrow> jstring \<Rightarrow> bool" where
  "startsWith s t = (take (length t) s = t)"

primrec str_includes :: "jstring \<Rightarrow> jstring \<Rightarrow> bool" where
  "str_includes [] t = (t = [])"
| "str_includes (c # s) t = (startsWith (c # s) t \<or> str_includes s t)"

text \<open>\<open>s.indexOf(t)\<close> and \<open>s.lastIndexOf(t)\<close>: the first and the last position where \<open>t\<close>
  starts, \<open>-1\<close> when there is none.\<close>

primrec indexOfFrom :: "jstring \<Rightarrow> jstring \<Rightarrow> nat \<Rightarrow> int" where
  "indexOfFrom [] t i = (if t = [] then int i else - 1)"
| "indexOfFrom (c # s) t i = (if startsWith (c # s) t then int i else indexOfFrom s t (i + 1))"

definition indexOf :: "jstring \<Rightarrow> jstring \<Rightarrow> int" where
  "indexOf s t = indexOfFrom s t 0"

primrec lastIndexOfFrom :: "jstring \<Rightarrow> jstring \<Rightarrow> nat \<Rightarrow> int \<Rightarrow> int" where
  "lastIndexOfFrom [] t i best = (if t = [] then int i else best)"
| "lastIndexOfFrom (c # s) t i best =
     lastIndexOfFrom s t (i + 1) (if startsWith (c # s) t then int i else best)"

definition lastIndexOf :: "jstring \<Rightarrow> jstring \<Rightarrow> int" where
  "lastIndexOf s t = lastIndexOfFrom s t 0 (- 1)"

text \<open>\<open>s.substring(a, b)\<close>: both ends are clamped to \<open>[0, length]\<close> and swapped when
  \<open>a > b\<close>. \<open>substringFrom\<close> is \<open>s.substring(a)\<close>.\<close>

definition substring :: "jstring \<Rightarrow> int \<Rightarrow> int \<Rightarrow> jstring" where
  "substring s a b =
     (let n = int (length s);
          a' = min (max a 0) n;
          b' = min (max b 0) n;
          lo = min a' b';
          hi = max a' b'
      in take (nat (hi - lo)) (drop (nat lo) s))"

definition substringFrom :: "jstring \<Rightarrow> int \<Rightarrow> jstring" where
  "substringFrom s a = substring s a (int (length s))"

text \<open>White space and line terminators: the characters \<open>trim\<close> removes and \<open>\s\<close> matches.\<close>

definition isSpace :: "nat \<Rightarrow> bool" where
  "isSpace c = ((9 \<le> c \<and> c \<le> 13) \<or> c = 32 \<or> c = 160 \<or> c = 5760 \<or> (8192 \<le> c \<and> c \<le> 8202)
                \<or> c = 8232 \<or> c = 8233 \<or> c = 8239 \<or> c = 8287 \<or> c = 12288 \<or> c = 65279)"

definition trim :: "jstring \<Rightarrow> jstring" where
  "trim s = rev (dropWhile isSpace (rev (dropWhile isSpace s)))"

text \<open>\<open>s.split(c)\<close> for a separator of one character.\<close>

primrec splitChar :: "nat \<Rightarrow> jstring \<Rightarrow> jstring list" where
  "splitChar c [] = [[]]"
| "splitChar c (x # xs) =
     (if x = c then [] # splitChar c xs
      else (case splitChar c xs of [] \<Rightarrow> [[x]] | p # ps \<Rightarrow> (x # p) # ps))"

text \<open>\<open>s.replace(c, r)\<close> for a pattern that is a string of one character: only the first
  occurrence is replaced.\<close>

primrec replaceFirstChar :: "nat \<Rightarrow> jstring \<Rightarrow> jstring \<Rightarrow> jstring" where
  "replaceFirstChar c r [] = []"
| "replaceFirstChar c r (x # xs) = (if x = c then r @ xs else x # replaceFirstChar c r xs)"

section \<open>Regular expressions\<close>

text \<open>
  The regular expressions of the source, as ECMAScript matches them without the \<open>u\<close>
  flag: by backtracking, the leftmost alternative and the longest repetition first.
\<close>

definition isWordChar :: "nat \<Rightarrow> bool" where
  "isWordChar c = (isLowerAZ c \<or> isUpperAZ c \<or> isDigit c \<or> c = 95)"

definition isLineTerminator :: "nat \<Rightarrow> bool" where
  "isLineTerminator c = (c = 10 \<or> c = 13 \<or> c = 8232 \<or> c = 8233)"

text \<open>
  Canonicalize of the \<open>i\<close> flag: the upper-case form of a code unit when that is one code
  unit, except that a non-ASCII unit never becomes ASCII. Exact below U+0100; a unit
  from U+0100 on is kept, which agrees with ECMAScript on every comparison with a
  character of the source's patterns (ASCII, U+00E2, and caseless punctuation).
\<close>

definition canonicalize :: "nat \<Rightarrow> nat" where
  "canonicalize c =
     (if isLowerAZ c then c - 32
      else if 224 \<le> c \<and> c \<le> 254 \<and> c \<noteq> 247 then c - 32
      else if c = 181 then 924
      else if c = 255 then 376
      else c)"

datatype citem = CChar nat | CRange nat nat | CDigit | CWord | CSpace

fun inItem :: "bool \<Rightarrow> citem \<Rightarrow> nat \<Rightarrow> bool" where
  "inItem ci (CChar a) c = (if ci then canonicalize a = canonicalize c else a = c)"
| "inItem ci (CRange a b) c =
     (if ci then list_ex (\<lambda>x. canonicalize x = canonicalize c) [a..<Suc b] else a \<le> c \<and> c \<le> b)"
| "inItem ci CDigit c = isDigit c"
| "inItem ci CWord c = isWordChar c"
| "inItem ci CSpace c = isSpace c"

text \<open>The ranges of the source's patterns (\<open>a-z\<close>, \<open>A-Z\<close>, \<open>0-9\<close>) under the \<open>i\<close> flag.\<close>

lemma canonicalize_upper_range:
  "65 \<le> canonicalize c \<and> canonicalize c \<le> 90 \<longleftrightarrow> isLowerAZ c \<or> isUpperAZ c"
  by (auto simp: canonicalize_def isLowerAZ_def isUpperAZ_def)

lemma inItem_ci_range:
  "inItem True (CRange a b) c \<longleftrightarrow> (\<exists>x. a \<le> x \<and> x \<le> b \<and> canonicalize x = canonicalize c)"
  by (auto simp: list_ex_iff)

lemma inItem_ci_lower: "inItem True (CRange 97 122) c = (isLowerAZ c \<or> isUpperAZ c)"
proof
  assume "inItem True (CRange 97 122) c"
  then obtain x where x: "97 \<le> x" "x \<le> 122" "canonicalize x = canonicalize c"
    unfolding inItem_ci_range by blast
  have "canonicalize x = x - 32" using x by (simp add: canonicalize_def isLowerAZ_def)
  then have "65 \<le> canonicalize c \<and> canonicalize c \<le> 90" using x by auto
  then show "isLowerAZ c \<or> isUpperAZ c" by (simp add: canonicalize_upper_range)
next
  assume c: "isLowerAZ c \<or> isUpperAZ c"
  then show "inItem True (CRange 97 122) c"
  proof
    assume "isLowerAZ c"
    then have "97 \<le> c \<and> c \<le> 122" by (simp add: isLowerAZ_def)
    then show ?thesis unfolding inItem_ci_range by blast
  next
    assume u: "isUpperAZ c"
    then have "97 \<le> c + 32 \<and> c + 32 \<le> 122" by (simp add: isUpperAZ_def)
    moreover have "canonicalize (c + 32) = canonicalize c"
      using u by (simp add: canonicalize_def isLowerAZ_def isUpperAZ_def)
    ultimately show ?thesis unfolding inItem_ci_range by blast
  qed
qed

lemma inItem_ci_upper: "inItem True (CRange 65 90) c = (isLowerAZ c \<or> isUpperAZ c)"
proof
  assume "inItem True (CRange 65 90) c"
  then obtain x where x: "65 \<le> x" "x \<le> 90" "canonicalize x = canonicalize c"
    unfolding inItem_ci_range by blast
  have "canonicalize x = x" using x by (simp add: canonicalize_def isLowerAZ_def)
  then have "65 \<le> canonicalize c \<and> canonicalize c \<le> 90" using x by auto
  then show "isLowerAZ c \<or> isUpperAZ c" by (simp add: canonicalize_upper_range)
next
  assume c: "isLowerAZ c \<or> isUpperAZ c"
  then show "inItem True (CRange 65 90) c"
  proof
    assume l: "isLowerAZ c"
    then have "65 \<le> c - 32 \<and> c - 32 \<le> 90" by (auto simp: isLowerAZ_def)
    moreover have "canonicalize (c - 32) = canonicalize c"
      using l by (auto simp: canonicalize_def isLowerAZ_def isUpperAZ_def)
    ultimately show ?thesis unfolding inItem_ci_range by blast
  next
    assume u: "isUpperAZ c"
    then have "65 \<le> c \<and> c \<le> 90" by (simp add: isUpperAZ_def)
    then show ?thesis unfolding inItem_ci_range by blast
  qed
qed

lemma inItem_ci_digit: "inItem True (CRange 48 57) c = isDigit c"
proof
  assume "inItem True (CRange 48 57) c"
  then obtain x where x: "48 \<le> x" "x \<le> 57" "canonicalize x = canonicalize c"
    unfolding inItem_ci_range by blast
  have "canonicalize x = x" using x by (simp add: canonicalize_def isLowerAZ_def)
  then have "48 \<le> canonicalize c \<and> canonicalize c \<le> 57" using x by auto
  then show "isDigit c" by (auto simp: canonicalize_def isLowerAZ_def isDigit_def split: if_splits)
next
  assume d: "isDigit c"
  then have "48 \<le> c \<and> c \<le> 57" by (simp add: isDigit_def)
  then show "inItem True (CRange 48 57) c" unfolding inItem_ci_range by blast
qed

lemma inItem_cs_range: "inItem False (CRange a b) c = (a \<le> c \<and> c \<le> b)"
  by simp

declare inItem.simps(2) [simp del]

lemmas inItem_ranges = inItem_ci_lower inItem_ci_upper inItem_ci_digit inItem_cs_range


definition inClass :: "bool \<Rightarrow> bool \<Rightarrow> citem list \<Rightarrow> nat \<Rightarrow> bool" where
  "inClass ci neg items c = (list_ex (\<lambda>it. inItem ci it c) items \<noteq> neg)"

datatype re =
    Lit nat | Dot | Cls bool "citem list" | Str jstring | Eps
  | Seq re re | Alt re re | Opt re | Star re | Grp nat re
  | Bol | Eol | WordB | UpTo nat re

record mstate =
  prev :: "nat option"
  rest :: jstring
  caps :: "(nat \<times> jstring) list"

fun groupsOf :: "re \<Rightarrow> nat list" where
  "groupsOf (Seq a b) = groupsOf a @ groupsOf b"
| "groupsOf (Alt a b) = groupsOf a @ groupsOf b"
| "groupsOf (Opt a) = groupsOf a"
| "groupsOf (Star a) = groupsOf a"
| "groupsOf (UpTo n a) = groupsOf a"
| "groupsOf (Grp i a) = i # groupsOf a"
| "groupsOf _ = []"

definition clearCaps :: "re \<Rightarrow> mstate \<Rightarrow> mstate" where
  "clearCaps r s = s\<lparr>caps := filter (\<lambda>(i, w). i \<notin> set (groupsOf r)) (caps s)\<rparr>"

definition step1 :: "(nat \<Rightarrow> bool) \<Rightarrow> mstate \<Rightarrow> mstate list" where
  "step1 ok s =
     (case rest s of
        [] \<Rightarrow> []
      | x # xs \<Rightarrow> if ok x then [s\<lparr>prev := Some x, rest := xs\<rparr>] else [])"

fun matchStr :: "bool \<Rightarrow> jstring \<Rightarrow> mstate \<Rightarrow> mstate list" where
  "matchStr ci [] s = [s]"
| "matchStr ci (c # cs) s = concat (map (matchStr ci cs) (step1 (inItem ci (CChar c)) s))"

definition setCap :: "nat \<Rightarrow> mstate \<Rightarrow> mstate \<Rightarrow> mstate" where
  "setCap i s s' =
     s'\<lparr>caps := (i, take (length (rest s) - length (rest s')) (rest s))
                  # filter (\<lambda>(j, w). j \<noteq> i) (caps s')\<rparr>"

text \<open>The measure of the matcher: \<open>UpTo n a\<close> is \<open>a{0,n}\<close> and counts its bound.\<close>

fun reSize :: "re \<Rightarrow> nat" where
  "reSize (Seq a b) = Suc (reSize a + reSize b)"
| "reSize (Alt a b) = Suc (reSize a + reSize b)"
| "reSize (Opt a) = Suc (reSize a)"
| "reSize (Star a) = Suc (reSize a)"
| "reSize (Grp i a) = Suc (reSize a)"
| "reSize (UpTo n a) = Suc (n + reSize a)"
| "reSize _ = 0"

text \<open>
  The matcher: all the ways an expression matches at the start of the remaining input,
  in the order backtracking tries them; the match ECMAScript reports is the first. A
  state holds the character before the position, the remaining input and the groups
  captured so far. A repetition clears the groups of its body before each round, and a
  round that may be skipped must consume input.
\<close>

function (sequential) rm :: "bool \<Rightarrow> re \<Rightarrow> mstate \<Rightarrow> mstate list" where
  "rm ci (Lit c) s = step1 (inItem ci (CChar c)) s"
| "rm ci Dot s = step1 (\<lambda>x. \<not> isLineTerminator x) s"
| "rm ci (Cls neg items) s = step1 (inClass ci neg items) s"
| "rm ci (Str w) s = matchStr ci w s"
| "rm ci Eps s = [s]"
| "rm ci (Seq a b) s = concat (map (rm ci b) (rm ci a s))"
| "rm ci (Alt a b) s = rm ci a s @ rm ci b s"
| "rm ci (Opt a) s =
     filter (\<lambda>s'. length (rest s') < length (rest s)) (rm ci a (clearCaps a s)) @ [s]"
| "rm ci (Star a) s =
     concat (map (\<lambda>s'. if length (rest s') < length (rest s) then rm ci (Star a) s' else [])
                 (rm ci a (clearCaps a s))) @ [s]"
| "rm ci (Grp i a) s = map (setCap i s) (rm ci a s)"
| "rm ci Bol s = (if prev s = None then [s] else [])"
| "rm ci Eol s = (if rest s = [] then [s] else [])"
| "rm ci WordB s =
     (let a = (case prev s of None \<Rightarrow> False | Some c \<Rightarrow> isWordChar c);
          b = (case rest s of [] \<Rightarrow> False | c # _ \<Rightarrow> isWordChar c)
      in if a \<noteq> b then [s] else [])"
| "rm ci (UpTo n a) s =
     (if n = 0 then [s]
      else concat (map (\<lambda>s'. if length (rest s') < length (rest s)
                                then rm ci (UpTo (n - 1) a) s' else [])
                       (rm ci a (clearCaps a s))) @ [s])"
  by pat_completeness auto
termination
  apply (relation "measures [\<lambda>(ci, r, s). reSize r, \<lambda>(ci, r, s). length (rest s)]")
  apply simp_all
  done

definition Plus :: "re \<Rightarrow> re" where
  "Plus r = Seq r (Star r)"

record MatchResult =
  index :: nat
  matched :: jstring
  groups :: "(nat \<times> jstring) list"

definition matchAt :: "bool \<Rightarrow> re \<Rightarrow> nat option \<Rightarrow> jstring \<Rightarrow> (jstring \<times> (nat \<times> jstring) list) option" where
  "matchAt ci r p s =
     (case rm ci r \<lparr>prev = p, rest = s, caps = []\<rparr> of
        [] \<Rightarrow> None
      | s' # _ \<Rightarrow> Some (take (length s - length (rest s')) s, caps s'))"

fun scanFrom :: "bool \<Rightarrow> re \<Rightarrow> nat option \<Rightarrow> jstring \<Rightarrow> nat \<Rightarrow> MatchResult option" where
  "scanFrom ci r p [] i =
     (case matchAt ci r p [] of
        None \<Rightarrow> None
      | Some (m, g) \<Rightarrow> Some \<lparr>index = i, matched = m, groups = g\<rparr>)"
| "scanFrom ci r p (x # xs) i =
     (case matchAt ci r p (x # xs) of
        None \<Rightarrow> scanFrom ci r (Some x) xs (i + 1)
      | Some (m, g) \<Rightarrow> Some \<lparr>index = i, matched = m, groups = g\<rparr>)"

definition exec :: "bool \<Rightarrow> re \<Rightarrow> jstring \<Rightarrow> MatchResult option" where
  "exec ci r s = scanFrom ci r None s 0"

definition test :: "bool \<Rightarrow> re \<Rightarrow> jstring \<Rightarrow> bool" where
  "test ci r s = (exec ci r s \<noteq> None)"

definition group :: "MatchResult \<Rightarrow> nat \<Rightarrow> jstring option" where
  "group m i = map_of (groups m) i"

lemmas engine_defs = exec_def test_def group_def matchAt_def Plus_def step1_def setCap_def clearCaps_def js_def
  inClass_def isSpace_def isDigit_def canonicalize_def isLowerAZ_def isUpperAZ_def isWordChar_def isLineTerminator_def


subsection \<open>Facts about matching\<close>

declare rm.simps [simp del]

lemmas rm_atoms = rm.simps(1-5) rm.simps(11-13)

lemma rm_Seq_iff:
  "s' \<in> set (rm ci (Seq a b) s) \<longleftrightarrow> (\<exists>s1 \<in> set (rm ci a s). s' \<in> set (rm ci b s1))"
  by (subst rm.simps) auto

lemma rm_Alt_iff:
  "s' \<in> set (rm ci (Alt a b) s) \<longleftrightarrow> s' \<in> set (rm ci a s) \<or> s' \<in> set (rm ci b s)"
  by (subst rm.simps) auto

lemma rm_Opt_iff:
  "s' \<in> set (rm ci (Opt a) s) \<longleftrightarrow>
     s' = s \<or> (s' \<in> set (rm ci a (clearCaps a s)) \<and> length (rest s') < length (rest s))"
  by (subst rm.simps) auto

lemma rm_Star_iff:
  "s' \<in> set (rm ci (Star a) s) \<longleftrightarrow>
     s' = s \<or> (\<exists>s1 \<in> set (rm ci a (clearCaps a s)).
                 length (rest s1) < length (rest s) \<and> s' \<in> set (rm ci (Star a) s1))"
  by (subst rm.simps) (auto split: if_splits)

lemma rm_UpTo_iff:
  "s' \<in> set (rm ci (UpTo n a) s) \<longleftrightarrow>
     s' = s \<or> (n \<noteq> 0 \<and> (\<exists>s1 \<in> set (rm ci a (clearCaps a s)).
                 length (rest s1) < length (rest s) \<and> s' \<in> set (rm ci (UpTo (n - 1) a) s1)))"
  by (subst rm.simps) (auto split: if_splits)

lemma rm_Grp_iff:
  "s' \<in> set (rm ci (Grp i a) s) \<longleftrightarrow> (\<exists>s1 \<in> set (rm ci a s). s' = setCap i s s1)"
  by (subst rm.simps) auto

lemma rest_clearCaps [simp]: "rest (clearCaps a s) = rest s"
  by (simp add: clearCaps_def)

lemma rest_setCap [simp]: "rest (setCap i s s1) = rest s1"
  by (simp add: setCap_def)

definition consumed :: "mstate \<Rightarrow> mstate \<Rightarrow> jstring" where
  "consumed s s' = take (length (rest s) - length (rest s')) (rest s)"

text \<open>A match consumes a prefix of the remaining input.\<close>

lemma step1_rest:
  "s' \<in> set (step1 ok s) \<Longrightarrow> \<exists>x. rest s = x # rest s' \<and> ok x \<and> caps s' = caps s"
  by (cases "rest s") (auto simp: step1_def split: if_splits)

lemma matchStr_rest:
  "s' \<in> set (matchStr ci w s) \<Longrightarrow> \<exists>v. rest s = v @ rest s' \<and> length v = length w \<and> caps s' = caps s"
proof (induction w arbitrary: s)
  case Nil
  then show ?case by simp
next
  case (Cons c w)
  from Cons.prems obtain s1 where s1: "s1 \<in> set (step1 (inItem ci (CChar c)) s)"
    and s': "s' \<in> set (matchStr ci w s1)" by auto
  from step1_rest [OF s1] obtain x where x: "rest s = x # rest s1" "caps s1 = caps s" by blast
  from Cons.IH [OF s'] obtain v where v: "rest s1 = v @ rest s'" "length v = length w" "caps s' = caps s1"
    by blast
  show ?case using x v by (intro exI [of _ "x # v"]) simp
qed

lemma step1_rest_ex: "s' \<in> set (step1 ok s) \<Longrightarrow> \<exists>w. rest s = w @ rest s'"
proof -
  assume "s' \<in> set (step1 ok s)"
  from step1_rest [OF this] obtain x where "rest s = x # rest s'" by blast
  then have "rest s = [x] @ rest s'" by simp
  then show ?thesis by blast
qed

lemma rm_rest: "s' \<in> set (rm ci r s) \<Longrightarrow> \<exists>w. rest s = w @ rest s'"
proof (induction ci r s arbitrary: s' rule: rm.induct)
  case (1 ci c s)
  then show ?case by (simp add: rm_atoms step1_rest_ex)
next
  case (2 ci s)
  then show ?case by (simp add: rm_atoms step1_rest_ex)
next
  case (3 ci neg items s)
  then show ?case by (simp add: rm_atoms step1_rest_ex)
next
  case (4 ci w s)
  then have "s' \<in> set (matchStr ci w s)" by (simp add: rm_atoms)
  from matchStr_rest [OF this] show ?case by blast
next
  case (5 ci s)
  then show ?case by (simp add: rm_atoms)
next
  case (6 ci a b s)
  from "6.prems" obtain s1 where s1: "s1 \<in> set (rm ci a s)" and s': "s' \<in> set (rm ci b s1)"
    unfolding rm_Seq_iff by blast
  from "6.IH"(1) [OF s1] obtain w1 where "rest s = w1 @ rest s1" by blast
  moreover from "6.IH"(2) [OF s1 s'] obtain w2 where "rest s1 = w2 @ rest s'" by blast
  ultimately have "rest s = (w1 @ w2) @ rest s'" by simp
  then show ?case by blast
next
  case (7 ci a b s)
  from "7.prems" have "s' \<in> set (rm ci a s) \<or> s' \<in> set (rm ci b s)"
    unfolding rm_Alt_iff .
  then show ?case using "7.IH" by blast
next
  case (8 ci a s)
  from "8.prems" have "s' = s \<or> s' \<in> set (rm ci a (clearCaps a s))"
    unfolding rm_Opt_iff by blast
  then show ?case
  proof
    assume "s' = s"
    then have "rest s = [] @ rest s'" by simp
    then show ?thesis by blast
  next
    assume "s' \<in> set (rm ci a (clearCaps a s))"
    from "8.IH" [OF this] show ?thesis by simp
  qed
next
  case (9 ci a s)
  from "9.prems" have "s' = s \<or> (\<exists>s1 \<in> set (rm ci a (clearCaps a s)).
                 length (rest s1) < length (rest s) \<and> s' \<in> set (rm ci (Star a) s1))"
    by (subst (asm) rm_Star_iff)
  then show ?case
  proof
    assume "s' = s"
    then have "rest s = [] @ rest s'" by simp
    then show ?thesis by blast
  next
    assume "\<exists>s1 \<in> set (rm ci a (clearCaps a s)).
                 length (rest s1) < length (rest s) \<and> s' \<in> set (rm ci (Star a) s1)"
    then obtain s1 where 2: "s1 \<in> set (rm ci a (clearCaps a s))" "length (rest s1) < length (rest s)"
        "s' \<in> set (rm ci (Star a) s1)" by blast
    from "9.IH"(1) [OF 2(1)] obtain w1 where "rest s = w1 @ rest s1" by auto
    moreover from "9.IH"(2) [OF 2(1) 2(2) 2(3)] obtain w2 where "rest s1 = w2 @ rest s'" by blast
    ultimately have "rest s = (w1 @ w2) @ rest s'" by simp
    then show ?thesis by blast
  qed
next
  case (10 ci i a s)
  from "10.prems" obtain s1 where s1: "s1 \<in> set (rm ci a s)" and e: "s' = setCap i s s1"
    unfolding rm_Grp_iff by blast
  from "10.IH" [OF s1] e show ?case by simp
next
  case (11 ci s)
  then have "s' = s" by (simp add: rm_atoms split: if_splits)
  then have "rest s = [] @ rest s'" by simp
  then show ?case by blast
next
  case (12 ci s)
  then have "s' = s" by (simp add: rm_atoms split: if_splits)
  then have "rest s = [] @ rest s'" by simp
  then show ?case by blast
next
  case (13 ci s)
  then have "s' = s" by (simp add: rm_atoms Let_def split: if_splits)
  then have "rest s = [] @ rest s'" by simp
  then show ?case by blast
next
  case (14 ci n a s)
  from "14.prems" have "s' = s \<or> (n \<noteq> 0 \<and> (\<exists>s1 \<in> set (rm ci a (clearCaps a s)).
                 length (rest s1) < length (rest s) \<and> s' \<in> set (rm ci (UpTo (n - 1) a) s1)))"
    by (subst (asm) rm_UpTo_iff)
  then show ?case
  proof
    assume "s' = s"
    then have "rest s = [] @ rest s'" by simp
    then show ?thesis by blast
  next
    assume "n \<noteq> 0 \<and> (\<exists>s1 \<in> set (rm ci a (clearCaps a s)).
                 length (rest s1) < length (rest s) \<and> s' \<in> set (rm ci (UpTo (n - 1) a) s1))"
    then obtain s1 where 2: "n \<noteq> 0" "s1 \<in> set (rm ci a (clearCaps a s))"
        "length (rest s1) < length (rest s)" "s' \<in> set (rm ci (UpTo (n - 1) a) s1)" by blast
    from "14.IH"(1) [OF 2(1) 2(2)] obtain w1 where "rest s = w1 @ rest s1" by auto
    moreover from "14.IH"(2) [OF 2(1) 2(2) 2(3) 2(4)] obtain w2 where "rest s1 = w2 @ rest s'"
      by blast
    ultimately have "rest s = (w1 @ w2) @ rest s'" by simp
    then show ?thesis by blast
  qed
qed

lemma rm_consumed: "s' \<in> set (rm ci r s) \<Longrightarrow> rest s = consumed s s' @ rest s'"
  using rm_rest [of s' ci r s] by (auto simp: consumed_def)

text \<open>The characters a match consumes, when every atom of the expression accepts only
  characters with a property.\<close>

fun onlyChars :: "bool \<Rightarrow> (nat \<Rightarrow> bool) \<Rightarrow> re \<Rightarrow> bool" where
  "onlyChars ci P (Lit c) = (\<forall>x. inItem ci (CChar c) x \<longrightarrow> P x)"
| "onlyChars ci P Dot = (\<forall>x. \<not> isLineTerminator x \<longrightarrow> P x)"
| "onlyChars ci P (Cls neg items) = (\<forall>x. inClass ci neg items x \<longrightarrow> P x)"
| "onlyChars ci P (Str w) = (\<forall>c \<in> set w. \<forall>x. inItem ci (CChar c) x \<longrightarrow> P x)"
| "onlyChars ci P (Seq a b) = (onlyChars ci P a \<and> onlyChars ci P b)"
| "onlyChars ci P (Alt a b) = (onlyChars ci P a \<and> onlyChars ci P b)"
| "onlyChars ci P (Opt a) = onlyChars ci P a"
| "onlyChars ci P (Star a) = onlyChars ci P a"
| "onlyChars ci P (UpTo n a) = onlyChars ci P a"
| "onlyChars ci P (Grp i a) = onlyChars ci P a"
| "onlyChars ci P _ = True"

lemma matchStr_chars:
  "s' \<in> set (matchStr ci w s) \<Longrightarrow> \<forall>c \<in> set w. \<forall>x. inItem ci (CChar c) x \<longrightarrow> P x
    \<Longrightarrow> rest s = v @ rest s' \<Longrightarrow> \<forall>x \<in> set v. P x"
proof (induction w arbitrary: s v)
  case Nil
  then show ?case by simp
next
  case (Cons c w)
  from Cons.prems(1) obtain s1 where s1: "s1 \<in> set (step1 (inItem ci (CChar c)) s)"
    and s': "s' \<in> set (matchStr ci w s1)" by auto
  from step1_rest [OF s1] obtain x where x: "rest s = x # rest s1" "inItem ci (CChar c) x" by blast
  from matchStr_rest [OF s'] obtain v1 where v1: "rest s1 = v1 @ rest s'" by blast
  have "\<forall>x \<in> set v1. P x" using Cons.IH [OF s' _ v1] Cons.prems(2) by simp
  moreover have "P x" using x(2) Cons.prems(2) by simp
  moreover have "v = x # v1" using x(1) v1 Cons.prems(3) by simp
  ultimately show ?case by simp
qed

lemma rm_chars:
  "s' \<in> set (rm ci r s) \<Longrightarrow> onlyChars ci P r \<Longrightarrow> rest s = w @ rest s' \<Longrightarrow> \<forall>x \<in> set w. P x"
proof (induction ci r s arbitrary: s' w rule: rm.induct)
  case (1 ci c s)
  then show ?case using step1_rest [of s' "inItem ci (CChar c)" s] by (auto simp: rm_atoms)
next
  case (2 ci s)
  then show ?case using step1_rest [of s' "\<lambda>x. \<not> isLineTerminator x" s] by (auto simp: rm_atoms)
next
  case (3 ci neg items s)
  then show ?case using step1_rest [of s' "inClass ci neg items" s] by (auto simp: rm_atoms)
next
  case (4 ci w' s)
  then show ?case using matchStr_chars [of s' ci w' s P w] by (simp add: rm_atoms)
next
  case (5 ci s)
  then show ?case by (simp add: rm_atoms)
next
  case (6 ci a b s)
  from "6.prems"(1) obtain s1 where s1: "s1 \<in> set (rm ci a s)" and s': "s' \<in> set (rm ci b s1)"
    unfolding rm_Seq_iff by blast
  from rm_rest [OF s1] obtain w1 where w1: "rest s = w1 @ rest s1" by blast
  from rm_rest [OF s'] obtain w2 where w2: "rest s1 = w2 @ rest s'" by blast
  have "\<forall>x \<in> set w1. P x" using "6.IH"(1) [OF s1 _ w1] "6.prems"(2) by simp
  moreover have "\<forall>x \<in> set w2. P x" using "6.IH"(2) [OF s1 s' _ w2] "6.prems"(2) by simp
  moreover have "w = w1 @ w2" using w1 w2 "6.prems"(3) by simp
  ultimately show ?case by auto
next
  case (7 ci a b s)
  from "7.prems"(1) have "s' \<in> set (rm ci a s) \<or> s' \<in> set (rm ci b s)"
    unfolding rm_Alt_iff .
  then show ?case using "7.IH" "7.prems"(2,3) by auto
next
  case (8 ci a s)
  from "8.prems"(1) consider "s' = s" | "s' \<in> set (rm ci a (clearCaps a s))"
    unfolding rm_Opt_iff by blast
  then show ?case
  proof cases
    case 1
    then show ?thesis using "8.prems"(3) by simp
  next
    case 2
    show ?thesis using "8.IH" [OF 2, of w] "8.prems"(2,3) by simp
  qed
next
  case (9 ci a s)
  from "9.prems"(1) have "s' = s \<or> (\<exists>s1 \<in> set (rm ci a (clearCaps a s)).
                 length (rest s1) < length (rest s) \<and> s' \<in> set (rm ci (Star a) s1))"
    by (subst (asm) rm_Star_iff)
  then consider "s' = s"
    | s1 where "s1 \<in> set (rm ci a (clearCaps a s))" "length (rest s1) < length (rest s)"
        "s' \<in> set (rm ci (Star a) s1)"
    by blast
  then show ?case
  proof cases
    case 1
    then show ?thesis using "9.prems"(3) by simp
  next
    case 2
    from rm_rest [OF 2(1)] obtain w1 where w1: "rest s = w1 @ rest s1" by auto
    from rm_rest [OF 2(3)] obtain w2 where w2: "rest s1 = w2 @ rest s'" by blast
    have "\<forall>x \<in> set w1. P x"
      using "9.IH"(1) [OF 2(1), of w1] w1 "9.prems"(2) by simp
    moreover have "\<forall>x \<in> set w2. P x"
      using "9.IH"(2) [OF 2(1) 2(2) 2(3) _ w2] "9.prems"(2) by simp
    moreover have "w = w1 @ w2" using w1 w2 "9.prems"(3) by simp
    ultimately show ?thesis by auto
  qed
next
  case (10 ci i a s)
  from "10.prems"(1) obtain s1 where s1: "s1 \<in> set (rm ci a s)" and e: "s' = setCap i s s1"
    unfolding rm_Grp_iff by blast
  show ?case using "10.IH" [OF s1, of w] "10.prems"(2,3) e by simp
next
  case (11 ci s)
  then show ?case by (auto simp: rm_atoms split: if_splits)
next
  case (12 ci s)
  then show ?case by (auto simp: rm_atoms split: if_splits)
next
  case (13 ci s)
  then show ?case by (auto simp: rm_atoms Let_def split: if_splits)
next
  case (14 ci n a s)
  from "14.prems"(1) have "s' = s \<or> (n \<noteq> 0 \<and> (\<exists>s1 \<in> set (rm ci a (clearCaps a s)).
                 length (rest s1) < length (rest s) \<and> s' \<in> set (rm ci (UpTo (n - 1) a) s1)))"
    by (subst (asm) rm_UpTo_iff)
  then consider "s' = s"
    | s1 where "n \<noteq> 0" "s1 \<in> set (rm ci a (clearCaps a s))" "length (rest s1) < length (rest s)"
        "s' \<in> set (rm ci (UpTo (n - 1) a) s1)"
    by blast
  then show ?case
  proof cases
    case 1
    then show ?thesis using "14.prems"(3) by simp
  next
    case 2
    from rm_rest [OF 2(2)] obtain w1 where w1: "rest s = w1 @ rest s1" by auto
    from rm_rest [OF 2(4)] obtain w2 where w2: "rest s1 = w2 @ rest s'" by blast
    have "\<forall>x \<in> set w1. P x"
      using "14.IH"(1) [OF 2(1) 2(2), of w1] w1 "14.prems"(2) by simp
    moreover have "\<forall>x \<in> set w2. P x"
      using "14.IH"(2) [OF 2(1) 2(2) 2(3) 2(4) _ w2] "14.prems"(2) by simp
    moreover have "w = w1 @ w2" using w1 w2 "14.prems"(3) by simp
    ultimately show ?thesis by auto
  qed
qed


subsection \<open>The methods of String and RegExp that take a regular expression\<close>

text \<open>
  Matching with the \<open>g\<close> flag (\<open>s.match(re)\<close>, which yields the matched strings, and the
  loop \<open>while ((m = re.exec(s)) !== null)\<close>): the matches from left to right, each search
  starting where the previous match ended, one character further after an empty match.
  \<open>skip\<close> is the number of characters still inside the previous match.
\<close>

primrec globalFrom :: "bool \<Rightarrow> re \<Rightarrow> nat option \<Rightarrow> jstring \<Rightarrow> nat \<Rightarrow> nat \<Rightarrow> MatchResult list" where
  "globalFrom ci r p [] i skip =
     (if skip > 0 then []
      else (case matchAt ci r p [] of
              None \<Rightarrow> []
            | Some (m, g) \<Rightarrow> [\<lparr>index = i, matched = m, groups = g\<rparr>]))"
| "globalFrom ci r p (x # xs) i skip =
     (if skip > 0 then globalFrom ci r (Some x) xs (i + 1) (skip - 1)
      else (case matchAt ci r p (x # xs) of
              None \<Rightarrow> globalFrom ci r (Some x) xs (i + 1) 0
            | Some (m, g) \<Rightarrow>
                \<lparr>index = i, matched = m, groups = g\<rparr>
                  # globalFrom ci r (Some x) xs (i + 1) (length m - 1)))"

definition matchAll :: "bool \<Rightarrow> re \<Rightarrow> jstring \<Rightarrow> MatchResult list" where
  "matchAll ci r s = globalFrom ci r None s 0 0"

text \<open>
  \<open>s.split(re)\<close> for an expression without capturing groups (none of the source's
  separators has one). \<open>acc\<close> holds, reversed, the characters of the piece being read.
\<close>

primrec splitFrom :: "bool \<Rightarrow> re \<Rightarrow> jstring \<Rightarrow> nat option \<Rightarrow> jstring \<Rightarrow> nat \<Rightarrow> jstring list" where
  "splitFrom ci r acc p [] skip = [rev acc]"
| "splitFrom ci r acc p (x # xs) skip =
     (if skip > 0 then splitFrom ci r acc (Some x) xs (skip - 1)
      else (case matchAt ci r p (x # xs) of
              None \<Rightarrow> splitFrom ci r (x # acc) (Some x) xs 0
            | Some (m, g) \<Rightarrow>
                if m = [] then
                  (if acc = [] then splitFrom ci r [x] (Some x) xs 0
                   else rev acc # splitFrom ci r [x] (Some x) xs 0)
                else rev acc # splitFrom ci r [] (Some x) xs (length m - 1)))"

definition splitRe :: "bool \<Rightarrow> re \<Rightarrow> jstring \<Rightarrow> jstring list" where
  "splitRe ci r s =
     (if s = [] then (if matchAt ci r None [] = None then [[]] else [])
      else splitFrom ci r [] None s 0)"

text \<open>\<open>s.replace(re, repl)\<close> without and with the \<open>g\<close> flag, for a replacement text without
  \<open>$\<close> patterns.\<close>

definition replaceRe :: "bool \<Rightarrow> re \<Rightarrow> jstring \<Rightarrow> jstring \<Rightarrow> jstring" where
  "replaceRe ci r repl s =
     (case exec ci r s of
        None \<Rightarrow> s
      | Some m \<Rightarrow> take (index m) s @ repl @ drop (index m + length (matched m)) s)"

primrec replaceAllFrom :: "bool \<Rightarrow> re \<Rightarrow> jstring \<Rightarrow> nat option \<Rightarrow> jstring \<Rightarrow> nat \<Rightarrow> jstring" where
  "replaceAllFrom ci r repl p [] skip =
     (if skip > 0 then []
      else (case matchAt ci r p [] of None \<Rightarrow> [] | Some (m, g) \<Rightarrow> repl))"
| "replaceAllFrom ci r repl p (x # xs) skip =
     (if skip > 0 then replaceAllFrom ci r repl (Some x) xs (skip - 1)
      else (case matchAt ci r p (x # xs) of
              None \<Rightarrow> x # replaceAllFrom ci r repl (Some x) xs 0
            | Some (m, g) \<Rightarrow>
                if m = [] then repl @ x # replaceAllFrom ci r repl (Some x) xs 0
                else repl @ replaceAllFrom ci r repl (Some x) xs (length m - 1)))"

definition replaceAllRe :: "bool \<Rightarrow> re \<Rightarrow> jstring \<Rightarrow> jstring \<Rightarrow> jstring" where
  "replaceAllRe ci r repl s = replaceAllFrom ci r repl None s 0"

lemmas api_defs = matchAll_def splitRe_def replaceRe_def replaceAllRe_def

subsection \<open>Captured groups\<close>

definition capsOK :: "(nat \<Rightarrow> jstring \<Rightarrow> bool) \<Rightarrow> (nat \<times> jstring) list \<Rightarrow> bool" where
  "capsOK Q cs = (\<forall>(i, w) \<in> set cs. Q i w)"

fun grpOK :: "bool \<Rightarrow> (nat \<Rightarrow> jstring \<Rightarrow> bool) \<Rightarrow> re \<Rightarrow> bool" where
  "grpOK ci Q (Grp i a) = ((\<forall>s s'. s' \<in> set (rm ci a s) \<longrightarrow> Q i (consumed s s')) \<and> grpOK ci Q a)"
| "grpOK ci Q (Seq a b) = (grpOK ci Q a \<and> grpOK ci Q b)"
| "grpOK ci Q (Alt a b) = (grpOK ci Q a \<and> grpOK ci Q b)"
| "grpOK ci Q (Opt a) = grpOK ci Q a"
| "grpOK ci Q (Star a) = grpOK ci Q a"
| "grpOK ci Q (UpTo n a) = grpOK ci Q a"
| "grpOK ci Q _ = True"

lemma capsOK_clearCaps: "capsOK Q (caps s) \<Longrightarrow> capsOK Q (caps (clearCaps a s))"
  by (auto simp: capsOK_def clearCaps_def)

lemma step1_caps: "s' \<in> set (step1 ok s) \<Longrightarrow> caps s' = caps s"
  using step1_rest by blast

lemma rm_caps:
  "s' \<in> set (rm ci r s) \<Longrightarrow> grpOK ci Q r \<Longrightarrow> capsOK Q (caps s) \<Longrightarrow> capsOK Q (caps s')"
proof (induction ci r s arbitrary: s' rule: rm.induct)
  case (1 ci c s)
  then show ?case by (simp add: rm_atoms step1_caps)
next
  case (2 ci s)
  then show ?case by (simp add: rm_atoms step1_caps)
next
  case (3 ci neg items s)
  then show ?case by (simp add: rm_atoms step1_caps)
next
  case (4 ci w s)
  then have "s' \<in> set (matchStr ci w s)" by (simp add: rm_atoms)
  from matchStr_rest [OF this] have "caps s' = caps s" by blast
  then show ?case using "4.prems" by simp
next
  case (5 ci s)
  then show ?case by (simp add: rm_atoms)
next
  case (6 ci a b s)
  from "6.prems"(1) obtain s1 where s1: "s1 \<in> set (rm ci a s)" and s': "s' \<in> set (rm ci b s1)"
    unfolding rm_Seq_iff by blast
  have "capsOK Q (caps s1)" using "6.IH"(1) [OF s1] "6.prems"(2,3) by simp
  then show ?case using "6.IH"(2) [OF s1 s'] "6.prems"(2) by simp
next
  case (7 ci a b s)
  from "7.prems"(1) have "s' \<in> set (rm ci a s) \<or> s' \<in> set (rm ci b s)"
    unfolding rm_Alt_iff .
  then show ?case using "7.IH" "7.prems"(2,3) by auto
next
  case (8 ci a s)
  from "8.prems"(1) have "s' = s \<or> s' \<in> set (rm ci a (clearCaps a s))"
    unfolding rm_Opt_iff by blast
  then show ?case
  proof
    assume "s' = s"
    then show ?thesis using "8.prems"(3) by simp
  next
    assume "s' \<in> set (rm ci a (clearCaps a s))"
    from "8.IH" [OF this] show ?thesis
      using "8.prems"(2,3) by (simp add: capsOK_clearCaps)
  qed
next
  case (9 ci a s)
  from "9.prems"(1) have "s' = s \<or> (\<exists>s1 \<in> set (rm ci a (clearCaps a s)).
                 length (rest s1) < length (rest s) \<and> s' \<in> set (rm ci (Star a) s1))"
    by (subst (asm) rm_Star_iff)
  then show ?case
  proof
    assume "s' = s"
    then show ?thesis using "9.prems"(3) by simp
  next
    assume "\<exists>s1 \<in> set (rm ci a (clearCaps a s)).
                 length (rest s1) < length (rest s) \<and> s' \<in> set (rm ci (Star a) s1)"
    then obtain s1 where 2: "s1 \<in> set (rm ci a (clearCaps a s))" "length (rest s1) < length (rest s)"
        "s' \<in> set (rm ci (Star a) s1)" by blast
    have "capsOK Q (caps s1)"
      using "9.IH"(1) [OF 2(1)] "9.prems"(2,3) by (simp add: capsOK_clearCaps)
    then show ?thesis using "9.IH"(2) [OF 2(1) 2(2) 2(3)] "9.prems"(2) by simp
  qed
next
  case (10 ci i a s)
  from "10.prems"(1) obtain s1 where s1: "s1 \<in> set (rm ci a s)" and e: "s' = setCap i s s1"
    unfolding rm_Grp_iff by blast
  have ok1: "capsOK Q (caps s1)" using "10.IH" [OF s1] "10.prems"(2,3) by simp
  have "Q i (consumed s s1)" using "10.prems"(2) s1 by simp
  then show ?case using ok1 e by (auto simp: capsOK_def setCap_def consumed_def)
next
  case (11 ci s)
  then show ?case by (auto simp: rm_atoms split: if_splits)
next
  case (12 ci s)
  then show ?case by (auto simp: rm_atoms split: if_splits)
next
  case (13 ci s)
  then show ?case by (auto simp: rm_atoms Let_def split: if_splits)
next
  case (14 ci n a s)
  from "14.prems"(1) have "s' = s \<or> (n \<noteq> 0 \<and> (\<exists>s1 \<in> set (rm ci a (clearCaps a s)).
                 length (rest s1) < length (rest s) \<and> s' \<in> set (rm ci (UpTo (n - 1) a) s1)))"
    by (subst (asm) rm_UpTo_iff)
  then show ?case
  proof
    assume "s' = s"
    then show ?thesis using "14.prems"(3) by simp
  next
    assume "n \<noteq> 0 \<and> (\<exists>s1 \<in> set (rm ci a (clearCaps a s)).
                 length (rest s1) < length (rest s) \<and> s' \<in> set (rm ci (UpTo (n - 1) a) s1))"
    then obtain s1 where 2: "n \<noteq> 0" "s1 \<in> set (rm ci a (clearCaps a s))"
        "length (rest s1) < length (rest s)" "s' \<in> set (rm ci (UpTo (n - 1) a) s1)" by blast
    have "capsOK Q (caps s1)"
      using "14.IH"(1) [OF 2(1) 2(2)] "14.prems"(2,3) by (simp add: capsOK_clearCaps)
    then show ?thesis using "14.IH"(2) [OF 2(1) 2(2) 2(3) 2(4)] "14.prems"(2) by simp
  qed
qed

lemma matchAt_caps:
  "matchAt ci r p s = Some (m, g) \<Longrightarrow> grpOK ci Q r \<Longrightarrow> capsOK Q g"
proof -
  assume m: "matchAt ci r p s = Some (m, g)" and ok: "grpOK ci Q r"
  from m obtain s' ss where rs: "rm ci r \<lparr>prev = p, rest = s, caps = []\<rparr> = s' # ss" and g: "g = caps s'"
    by (auto simp: matchAt_def split: list.splits)
  have "s' \<in> set (rm ci r \<lparr>prev = p, rest = s, caps = []\<rparr>)" using rs by simp
  from rm_caps [OF this ok] show ?thesis using g by (simp add: capsOK_def)
qed

lemma scanFrom_caps:
  "scanFrom ci r p s i = Some m \<Longrightarrow> grpOK ci Q r \<Longrightarrow> capsOK Q (groups m)"
proof (induction s arbitrary: p i)
  case Nil
  then show ?case by (auto split: option.splits dest: matchAt_caps)
next
  case (Cons x xs)
  show ?case
  proof (cases "matchAt ci r p (x # xs)")
    case None
    then show ?thesis using Cons by simp
  next
    case (Some mg)
    then show ?thesis using Cons.prems by (cases mg) (auto dest: matchAt_caps)
  qed
qed

lemma exec_group:
  "exec ci r s = Some m \<Longrightarrow> grpOK ci Q r \<Longrightarrow> group m i = Some w \<Longrightarrow> Q i w"
proof -
  assume "exec ci r s = Some m" and ok: "grpOK ci Q r" and g: "group m i = Some w"
  then have "capsOK Q (groups m)" using scanFrom_caps [of ci r None s 0 m Q] by (simp add: exec_def)
  moreover have "(i, w) \<in> set (groups m)" using g by (simp add: group_def map_of_SomeD)
  ultimately show ?thesis by (auto simp: capsOK_def)
qed


text \<open>The consumed text of a class repeated at least once.\<close>

lemma rm_Plus_Cls:
  assumes "s' \<in> set (rm ci (Plus (Cls neg items)) s)"
  shows "consumed s s' \<noteq> [] \<and> (\<forall>x \<in> set (consumed s s'). inClass ci neg items x)"
proof -
  from assms obtain s1 where s1: "s1 \<in> set (rm ci (Cls neg items) s)"
    and s': "s' \<in> set (rm ci (Star (Cls neg items)) s1)"
    unfolding Plus_def rm_Seq_iff by blast
  from s1 have "s1 \<in> set (step1 (inClass ci neg items) s)" by (simp add: rm_atoms)
  from step1_rest [OF this] obtain x where x: "rest s = x # rest s1" by blast
  from rm_rest [OF s'] obtain w where w: "rest s1 = w @ rest s'" by blast
  have c: "rest s = consumed s s' @ rest s'" using rm_consumed [OF assms] .
  have "consumed s s' = x # w" using x w c by simp
  moreover have "\<forall>x \<in> set (consumed s s'). inClass ci neg items x"
    using rm_chars [OF assms, of "inClass ci neg items" "consumed s s'"] c by (simp add: Plus_def)
  ultimately show ?thesis by simp
qed


section \<open>Checkpoint manager (checkpointSystem.ts)\<close>

record ErrorEntry =
  batch :: int
  message :: jstring
  time :: jstring

record CheckpointData =
  channel :: jstring
  totalProcessed :: int
  lastBatchIndex :: int
  lastProcessedTime :: jstring
  batchSize :: int
  errors :: "ErrorEntry list"

text \<open>
  The manager object holds the path of its checkpoint file and the state. The directory
  of checkpoint files is a map from paths to file contents. A file is written with
  \<open>JSON.stringify\<close> and read back with \<open>JSON.parse\<close>; on a \<open>CheckpointData\<close> of strings,
  integers and a list of such entries the two are inverse, so the content of a file is
  modelled as the \<open>CheckpointData\<close> it encodes.
\<close>

record CheckpointManager =
  checkpointPath :: jstring
  data :: CheckpointData

type_synonym checkpointFiles = "jstring \<rightharpoonup> CheckpointData"

text \<open>\<open>channel.replace(/[^a-z0-9]/gi, '_').toLowerCase()\<close>\<close>

definition safeChannel :: "jstring \<Rightarrow> jstring" where
  "safeChannel ch =
     toLowerCase (map (\<lambda>c. if isLowerAZ c \<or> isUpperAZ c \<or> isDigit c then c else 95) ch)"

text \<open>\<open>path.join('./checkpoints', `${safeChannel}_checkpoint.json`)\<close>\<close>

definition checkpointPathOf :: "jstring \<Rightarrow> jstring" where
  "checkpointPathOf ch = js ''checkpoints/'' @ safeChannel ch @ js ''_checkpoint.json''"

definition saveCheckpoint :: "CheckpointManager \<Rightarrow> checkpointFiles \<Rightarrow> checkpointFiles" where
  "saveCheckpoint m files = files(checkpointPath m \<mapsto> data m)"

text \<open>
  The constructor. \<open>now\<close> is the value of \<open>new Date().toISOString()\<close>. The result is the
  new manager and the files after the call.
\<close>

definition newCheckpointManager ::
    "checkpointFiles \<Rightarrow> jstring \<Rightarrow> int \<Rightarrow> jstring \<Rightarrow> CheckpointManager \<times> checkpointFiles" where
  "newCheckpointManager files ch bsize now =
     (let p = checkpointPathOf ch in
      case files p of
        Some d \<Rightarrow> (\<lparr>checkpointPath = p, data = d\<rparr>, files)
      | None \<Rightarrow>
          (let m = \<lparr>checkpointPath = p,
                    data = \<lparr>channel = ch, totalProcessed = 0, lastBatchIndex = - 1,
                            lastProcessedTime = now, batchSize = bsize, errors = []\<rparr>\<rparr>
           in (m, saveCheckpoint m files)))"

definition getNextBatchIndex :: "CheckpointManager \<Rightarrow> int" where
  "getNextBatchIndex m = lastBatchIndex (data m) + 1"

definition getTotalProcessed :: "CheckpointManager \<Rightarrow> int" where
  "getTotalProcessed m = totalProcessed (data m)"

definition updateCheckpoint ::
    "CheckpointManager \<Rightarrow> checkpointFiles \<Rightarrow> int \<Rightarrow> int \<Rightarrow> jstring
      \<Rightarrow> CheckpointManager \<times> checkpointFiles" where
  "updateCheckpoint m files batchIndex messagesProcessed now =
     (let m' = m\<lparr>data := (data m)\<lparr>lastBatchIndex := batchIndex,
                                    totalProcessed := totalProcessed (data m) + messagesProcessed,
                                    lastProcessedTime := now\<rparr>\<rparr>
      in (m', saveCheckpoint m' files))"


text \<open>What a call can raise; \<open>Thrown\<close> is a value thrown by code of the caller.\<close>

datatype jsError = TypeError | SyntaxError | Rejected | Thrown


definition reset ::
    "CheckpointManager \<Rightarrow> checkpointFiles \<Rightarrow> jstring \<Rightarrow> CheckpointManager \<times> checkpointFiles" where
  "reset m files now =
     (let m' = m\<lparr>data := (data m)\<lparr>totalProcessed := 0, lastBatchIndex := - 1,
                                    lastProcessedTime := now, errors := []\<rparr>\<rparr>
      in (m', saveCheckpoint m' files))"

subsection \<open>Resume after a restart\<close>

text \<open>
  C6. After \<open>updateCheckpoint(k, n)\<close> by a manager of a channel, a manager constructed for
  the same channel over the files the update left reads the state back:
  \<open>getNextBatchIndex()\<close> is \<open>k + 1\<close> and \<open>getTotalProcessed()\<close> is the total the first manager
  held after the update. With no file for the channel, the constructor starts at
  \<open>lastBatchIndex = -1\<close> (next batch 0), \<open>totalProcessed = 0\<close> and an empty error log, and
  writes that state to the channel's file at once.
\<close>

theorem checkpoint_resume:
  "checkpointPath m = checkpointPathOf ch \<Longrightarrow>
     (let (m1, files1) = updateCheckpoint m files k n now;
          (m2, files2) = newCheckpointManager files1 ch bsize2 now2
      in getNextBatchIndex m2 = k + 1
         \<and> getTotalProcessed m2 = getTotalProcessed m1
         \<and> getTotalProcessed m1 = getTotalProcessed m + n
         \<and> files2 = files1)
     \<and> (let (m0, files0) = newCheckpointManager (files0'(checkpointPathOf ch := None)) ch bsize now0
        in lastBatchIndex (data m0) = - 1
           \<and> getNextBatchIndex m0 = 0
           \<and> totalProcessed (data m0) = 0
           \<and> errors (data m0) = []
           \<and> files0 (checkpointPathOf ch) = Some (data m0))"
  by (simp add: updateCheckpoint_def newCheckpointManager_def saveCheckpoint_def
      getNextBatchIndex_def getTotalProcessed_def Let_def)

theorem checkpoint_resume_witness:
  "(let m = fst (newCheckpointManager Map.empty (js ''t.me/x'') 25 (js ''t0''));
        files = snd (newCheckpointManager Map.empty (js ''t.me/x'') 25 (js ''t0''));
        (m1, files1) = updateCheckpoint m files 3 25 (js ''t1'');
        (m2, files2) = newCheckpointManager files1 (js ''t.me/x'') 25 (js ''t2'')
    in checkpointPath m = checkpointPathOf (js ''t.me/x'')
       \<and> getNextBatchIndex m2 = 4 \<and> getTotalProcessed m2 = 25 \<and> files2 = files1)"
  using checkpoint_resume [of "fst (newCheckpointManager Map.empty (js ''t.me/x'') 25 (js ''t0''))"
      "js ''t.me/x''" "snd (newCheckpointManager Map.empty (js ''t.me/x'') 25 (js ''t0''))"
      3 25 "js ''t1''" 25 "js ''t2''"]
  by (simp add: updateCheckpoint_def newCheckpointManager_def saveCheckpoint_def
      getNextBatchIndex_def getTotalProcessed_def Let_def)

subsection \<open>Recording an error\<close>



section \<open>Token rate limiter (tokenManager.ts)\<close>

text \<open>
  Token counts and millisecond clock readings are integers. \<open>Math.floor(a / b)\<close> on
  integers with \<open>b > 0\<close> is \<open>a div b\<close>, and \<open>Math.ceil(a / b)\<close> is \<open>- ((- a) div b)\<close>.
\<close>

record TokenRateLimiter =
  tokensPerMinute :: int
  tokenBudget :: int
  lastRefillTime :: int

text \<open>The constructor; \<open>now\<close> is the \<open>Date.now()\<close> of the field initialiser.\<close>

definition newTokenRateLimiter :: "int \<Rightarrow> int \<Rightarrow> TokenRateLimiter" where
  "newTokenRateLimiter perMinute now =
     \<lparr>tokensPerMinute = perMinute, tokenBudget = perMinute, lastRefillTime = now\<rparr>"

definition refillTokens :: "TokenRateLimiter \<Rightarrow> int \<Rightarrow> TokenRateLimiter" where
  "refillTokens l now =
     (let elapsedMs = now - lastRefillTime l;
          tokensToAdd = (elapsedMs * tokensPerMinute l) div 60000
      in if tokensToAdd > 0
         then l\<lparr>tokenBudget := min (tokenBudget l + tokensToAdd) (tokensPerMinute l),
                lastRefillTime := now\<rparr>
         else l)"

text \<open>The time \<open>consumeTokens\<close> asks the timer for, from the state after the first refill.\<close>

definition timeToWait :: "TokenRateLimiter \<Rightarrow> int \<Rightarrow> int" where
  "timeToWait l tokens = - ((- ((tokens - tokenBudget l) * 60000)) div tokensPerMinute l)"

text \<open>
  \<open>consumeTokens(tokens)\<close>. \<open>now1\<close> is the clock at the first refill and \<open>now2\<close> the clock
  at the refill after the wait (read only when the call waits); a timer that keeps its
  promise gives \<open>now1 + timeToWait \<le> now2\<close>.
\<close>

definition consumeTokens :: "TokenRateLimiter \<Rightarrow> int \<Rightarrow> int \<Rightarrow> int \<Rightarrow> TokenRateLimiter" where
  "consumeTokens l tokens now1 now2 =
     (let l1 = refillTokens l now1;
          l2 = (if tokens > tokenBudget l1 then refillTokens l1 now2 else l1)
      in l2\<lparr>tokenBudget := tokenBudget l2 - tokens\<rparr>)"

lemma refillTokens_capacity: "tokensPerMinute (refillTokens l now) = tokensPerMinute l"
  by (simp add: refillTokens_def Let_def)

lemma refillTokens_le_capacity:
  "tokenBudget l \<le> tokensPerMinute l
    \<Longrightarrow> tokenBudget (refillTokens l now) \<le> tokensPerMinute l"
  by (simp add: refillTokens_def Let_def)

lemma refillTokens_last_le:
  "lastRefillTime l \<le> now \<Longrightarrow> lastRefillTime (refillTokens l now) \<le> now"
  by (simp add: refillTokens_def Let_def)

lemma ceil_floor_covers:
  assumes c: "0 < (c::int)" and w: "- ((- (x * 60000)) div c) \<le> e"
  shows "x \<le> (e * c) div 60000"
proof -
  have "x * 60000 \<le> (- ((- (x * 60000)) div c)) * c"
  proof -
    have "((- (x * 60000)) div c) * c \<le> - (x * 60000)"
      using c by (metis mult.commute pos_mod_sign cancel_div_mod_rules(2) add.commute
          le_add_same_cancel1 mult_div_mod_eq)
    then show ?thesis by simp
  qed
  also have "\<dots> \<le> e * c"
    using mult_right_mono [OF w, of c] c by simp
  finally have "x * 60000 \<le> e * c" .
  then have "(x * 60000) div 60000 \<le> (e * c) div 60000"
    by (rule zdiv_mono1) simp
  then show ?thesis by simp
qed

text \<open>
  A request of at most the capacity keeps the budget in \<open>[0, capacity]\<close>, when the clock
  does not run backwards and the timer waits at least the time it was asked for.
\<close>

lemma consumeTokens_within_capacity:
  assumes cap: "0 < tokensPerMinute l"
    and inv: "0 \<le> tokenBudget l" "tokenBudget l \<le> tokensPerMinute l"
    and req: "0 < tokens" "tokens \<le> tokensPerMinute l"
    and clock: "lastRefillTime l \<le> now1"
    and timer: "now1 + timeToWait (refillTokens l now1) tokens \<le> now2"
  shows "0 \<le> tokenBudget (consumeTokens l tokens now1 now2)
     \<and> tokenBudget (consumeTokens l tokens now1 now2) \<le> tokensPerMinute l
     \<and> tokensPerMinute (consumeTokens l tokens now1 now2) = tokensPerMinute l"
proof -
  define l1 where "l1 = refillTokens l now1"
  have cap1: "tokensPerMinute l1 = tokensPerMinute l"
    by (simp add: l1_def refillTokens_capacity)
  have le1: "tokenBudget l1 \<le> tokensPerMinute l"
    using inv by (simp add: l1_def refillTokens_le_capacity)
  have last1: "lastRefillTime l1 \<le> now1"
    using clock by (simp add: l1_def refillTokens_last_le)
  show ?thesis
  proof (cases "tokens > tokenBudget l1")
    case False
    then show ?thesis
      using le1 req cap1 by (simp add: consumeTokens_def Let_def l1_def [symmetric])
  next
    case True
    define add where "add = ((now2 - lastRefillTime l1) * tokensPerMinute l1) div 60000"
    have "- ((- ((tokens - tokenBudget l1) * 60000)) div tokensPerMinute l)
            \<le> now2 - lastRefillTime l1"
      using timer last1 by (simp add: timeToWait_def l1_def [symmetric] cap1)
    then have "tokens - tokenBudget l1 \<le> ((now2 - lastRefillTime l1) * tokensPerMinute l) div 60000"
      using cap by (rule ceil_floor_covers [rotated])
    then have add_ge: "tokens - tokenBudget l1 \<le> add"
      by (simp add: add_def cap1)
    then have add_pos: "0 < add" using True by simp
    have b2: "tokenBudget (refillTokens l1 now2) = min (tokenBudget l1 + add) (tokensPerMinute l)"
      using add_pos by (simp add: refillTokens_def Let_def add_def cap1)
    have "tokens \<le> tokenBudget (refillTokens l1 now2)"
      using add_ge req by (simp add: b2)
    moreover have "tokenBudget (refillTokens l1 now2) \<le> tokensPerMinute l"
      by (simp add: b2)
    ultimately show ?thesis
      using True req cap1
      by (simp add: consumeTokens_def Let_def l1_def [symmetric] refillTokens_capacity)
  qed
qed

text \<open>
  C5 at a request above the capacity: a limiter of capacity 10, created full at time 0,
  is asked for 11 tokens at time 0. Whatever the clock reads after the wait, the refill
  is capped at 10 and the budget ends negative; after the wait the call asks for
  (6000 ms) it ends at \<open>-1\<close>.
\<close>

theorem consumeTokens_over_capacity_negative:
  "timeToWait (refillTokens (newTokenRateLimiter 10 0) 0) 11 = 6000
   \<and> tokenBudget (consumeTokens (newTokenRateLimiter 10 0) 11 0 6000) = - 1
   \<and> (\<forall>now2. tokenBudget (consumeTokens (newTokenRateLimiter 10 0) 11 0 now2) < 0)"
  by (simp add: consumeTokens_def refillTokens_def newTokenRateLimiter_def timeToWait_def Let_def)

section \<open>Retry controller (retry in genAI.ts)\<close>

text \<open>
  What the operation throws. The controller only reads \<open>error?.message?.includes(...)\<close>:
  an Error with a string message (\<open>WithMessage\<close>); \<open>null\<close>, \<open>undefined\<close> or a value whose
  \<open>message\<close> is \<open>null\<close> or \<open>undefined\<close> (\<open>WithoutMessage\<close>: the optional chain yields
  \<open>undefined\<close>, which is falsy); or a value whose \<open>message\<close> has no \<open>includes\<close> method, say a
  number (\<open>OddMessage\<close>: the call raises a TypeError inside the handler).
\<close>

datatype thrown = WithMessage jstring | WithoutMessage | OddMessage

datatype retryError = Rethrown thrown | IncludesTypeError

definition isRetryable :: "thrown \<Rightarrow> bool option" where
  "isRetryable e =
     (case e of
        WithMessage m \<Rightarrow>
          Some (str_includes m (js ''503'') \<or> str_includes m (js ''overloaded'') \<or> str_includes m (js ''UNAVAILABLE''))
      | WithoutMessage \<Rightarrow> Some False
      | OddMessage \<Rightarrow> None)"

text \<open>\<open>Math.random() * 0.3 + 0.85\<close> and \<open>Math.min(delay * 1.5 * jitter, maxDelay)\<close>\<close>

definition jitterOf :: "real \<Rightarrow> real" where
  "jitterOf u = u * 0.3 + 0.85"

definition nextDelay :: "real \<Rightarrow> real \<Rightarrow> real \<Rightarrow> real" where
  "nextDelay delay jitter maxDelay = min (delay * 1.5 * jitter) maxDelay"

text \<open>
  The loop of \<open>retry\<close>. The operation is an effect, so its outcomes are an input: \<open>fn i\<close>
  is the outcome of the call number \<open>i\<close> (from 0) and \<open>random i\<close> the value \<open>Math.random()\<close>
  returns after the failure of that call. \<open>retries\<close> counts the failures so far and is
  also the number of the next call. The result is the outcome of \<open>retry\<close>, the number of
  calls of the operation, and the delays waited, in order. Delays are real numbers (the
  source computes them in double precision).
\<close>

function retry_loop ::
    "(nat \<Rightarrow> thrown + 'a) \<Rightarrow> (nat \<Rightarrow> real) \<Rightarrow> nat \<Rightarrow> real \<Rightarrow> nat \<Rightarrow> real
      \<Rightarrow> (retryError + 'a) \<times> nat \<times> real list" where
  "retry_loop fn random maxRetries maxDelay retries delay =
     (case fn retries of
        Inr v \<Rightarrow> (Inr v, retries + 1, [])
      | Inl e \<Rightarrow>
          (case isRetryable e of
             None \<Rightarrow> (Inl IncludesTypeError, retries + 1, [])
           | Some r \<Rightarrow>
               if retries + 1 > maxRetries \<or> \<not> r then (Inl (Rethrown e), retries + 1, [])
               else
                 (let jitter = jitterOf (random retries);
                      delay' = nextDelay delay jitter maxDelay;
                      (res, n, ws) = retry_loop fn random maxRetries maxDelay (retries + 1) delay'
                  in (res, n, delay' # ws))))"
  by pat_completeness auto
termination
  by (relation "measure (\<lambda>(fn, random, maxRetries, maxDelay, retries, delay). maxRetries + 1 - retries)") auto

declare retry_loop.simps [simp del]

definition retry :: "(nat \<Rightarrow> thrown + 'a) \<Rightarrow> (nat \<Rightarrow> real) \<Rightarrow> nat \<Rightarrow> real \<Rightarrow> real
      \<Rightarrow> (retryError + 'a) \<times> nat \<times> real list" where
  "retry fn random maxRetries initialDelay maxDelay =
     retry_loop fn random maxRetries maxDelay 0 initialDelay"

definition retryWithDefaults :: "(nat \<Rightarrow> thrown + 'a) \<Rightarrow> (nat \<Rightarrow> real)
      \<Rightarrow> (retryError + 'a) \<times> nat \<times> real list" where
  "retryWithDefaults fn random = retry fn random 5 2000 60000"

text \<open>
  The delays in the words of the specification: the delay before retry \<open>i + 1\<close> is
  \<open>min(previous delay * 1.5 * jitter, maxDelay)\<close>, the first previous delay being the
  initial delay; \<open>specWaits ... k\<close> are the first \<open>k\<close> of them. The offset \<open>r\<close> is the number
  of the call whose failure draws the first jitter.
\<close>

primrec specDelay :: "(nat \<Rightarrow> real) \<Rightarrow> real \<Rightarrow> nat \<Rightarrow> real \<Rightarrow> nat \<Rightarrow> real" where
  "specDelay random maxDelay r d 0 = d"
| "specDelay random maxDelay r d (Suc i) =
     nextDelay (specDelay random maxDelay r d i) (jitterOf (random (r + i))) maxDelay"

definition specWaits :: "(nat \<Rightarrow> real) \<Rightarrow> real \<Rightarrow> nat \<Rightarrow> real \<Rightarrow> nat \<Rightarrow> real list" where
  "specWaits random maxDelay r d k = map (\<lambda>i. specDelay random maxDelay r d (Suc i)) [0..<k]"

definition retryableFailure :: "thrown + 'a \<Rightarrow> bool" where
  "retryableFailure x = (case x of Inl e \<Rightarrow> isRetryable e = Some True | Inr v \<Rightarrow> False)"

lemma retry_loop_success:
  "fn r = Inr v \<Longrightarrow> retry_loop fn rnd mx md r d = (Inr v, r + 1, [])"
  by (simp add: retry_loop.simps)

lemma retry_loop_fatal:
  "fn r = Inl e \<Longrightarrow> isRetryable e = Some False
    \<Longrightarrow> retry_loop fn rnd mx md r d = (Inl (Rethrown e), r + 1, [])"
  by (simp add: retry_loop.simps)

lemma retry_loop_exhausted:
  "fn r = Inl e \<Longrightarrow> isRetryable e = Some True \<Longrightarrow> mx \<le> r
    \<Longrightarrow> retry_loop fn rnd mx md r d = (Inl (Rethrown e), r + 1, [])"
  by (simp add: retry_loop.simps)

lemma retry_loop_again:
  "retryableFailure (fn r) \<Longrightarrow> r < mx
    \<Longrightarrow> retry_loop fn rnd mx md r d =
        (let d' = nextDelay d (jitterOf (rnd r)) md;
             (res, n, ws) = retry_loop fn rnd mx md (r + 1) d'
         in (res, n, d' # ws))"
  by (subst retry_loop.simps)
     (auto simp: retryableFailure_def Let_def split: sum.splits)

lemma specDelay_shift:
  "specDelay rnd md (Suc r) (nextDelay d (jitterOf (rnd r)) md) i = specDelay rnd md r d (Suc i)"
  by (induction i) simp_all

lemma specWaits_Suc:
  "specWaits rnd md r d (Suc k) =
     nextDelay d (jitterOf (rnd r)) md # specWaits rnd md (Suc r) (nextDelay d (jitterOf (rnd r)) md) k"
proof -
  have upt: "[0..<Suc k] = 0 # map Suc [0..<k]"
    by (simp add: upt_conv_Cons map_Suc_upt del: upt_Suc)
  have "specWaits rnd md r d (Suc k)
      = specDelay rnd md r d (Suc 0) # map (\<lambda>i. specDelay rnd md r d (Suc (Suc i))) [0..<k]"
    unfolding specWaits_def upt by (simp add: comp_def del: specDelay.simps(2) upt_Suc)
  also have "specDelay rnd md r d (Suc 0) = nextDelay d (jitterOf (rnd r)) md"
    by simp
  also have "map (\<lambda>i. specDelay rnd md r d (Suc (Suc i))) [0..<k]
      = specWaits rnd md (Suc r) (nextDelay d (jitterOf (rnd r)) md) k"
    unfolding specWaits_def by (simp only: specDelay_shift)
  finally show ?thesis .
qed

lemma retry_loop_prefix:
  "\<forall>i<k. retryableFailure (fn (r + i)) \<Longrightarrow> r + k \<le> mx
    \<Longrightarrow> retry_loop fn rnd mx md r d =
        (let (res, n, ws) = retry_loop fn rnd mx md (r + k) (specDelay rnd md r d k)
         in (res, n, specWaits rnd md r d k @ ws))"
proof (induction k arbitrary: r d)
  case 0
  then show ?case by (simp add: specWaits_def)
next
  case (Suc k)
  have first: "retryableFailure (fn r)" using Suc.prems(1) by force
  have rest: "\<forall>i<k. retryableFailure (fn (Suc r + i))" using Suc.prems(1) by force
  have le: "Suc r + k \<le> mx" using Suc.prems(2) by simp
  have lt: "r < mx" using Suc.prems(2) by simp
  show ?case
    using Suc.IH [OF rest le, of "nextDelay d (jitterOf (rnd r)) md"]
    by (simp add: retry_loop_again [where fn = fn and r = r and mx = mx, OF first lt]
        specWaits_Suc specDelay_shift Let_def
        split: prod.splits del: specDelay.simps(2))
qed

lemma jitterOf_range: "0 \<le> u \<Longrightarrow> u < 1 \<Longrightarrow> 0.85 \<le> jitterOf u \<and> jitterOf u \<le> 1.15"
  by (simp add: jitterOf_def)

lemma retry_loop_attempts:
  "r \<le> mx \<Longrightarrow> fst (snd (retry_loop fn rnd mx md r d)) \<le> mx + 1"
proof (induction "mx - r" arbitrary: r d)
  case 0
  then have "r = mx" by simp
  then show ?case
    by (subst retry_loop.simps) (simp split: sum.splits option.splits)
next
  case (Suc n)
  then have lt: "r < mx" by simp
  have ih: "fst (snd (retry_loop fn rnd mx md (r + 1) (nextDelay d (jitterOf (rnd r)) md))) \<le> mx + 1"
    using Suc(1) [of "r + 1"] Suc(2) lt by simp
  show ?case
    using lt ih
    by (subst retry_loop.simps) (auto simp: Let_def split: sum.splits option.splits prod.splits)
qed


text \<open>
  C7. With \<open>Math.random()\<close> in \<open>[0, 1)\<close>: the controller returns the operation's result at
  its first success (after \<open>k \<le> maxRetries\<close> retryable failures, having waited the \<open>k\<close>
  delays before it); an error that is not retryable (its message contains none of
  \<open>503\<close>, \<open>overloaded\<close>, \<open>UNAVAILABLE\<close>, or it has no message) is thrown again at once:
  the failing call is the last one and no delay follows it; when the first call and all
  \<open>maxRetries\<close> retries fail with retryable errors, the last error is thrown again after
  \<open>maxRetries + 1\<close> calls; the operation is never called more than \<open>maxRetries + 1\<close> times;
  each delay is \<open>min(previous delay * 1.5 * jitter, maxDelay)\<close> with the jitter in
  \<open>[0.85, 1.15]\<close>, starting from the initial delay; the defaults are 5, 2000 and 60000.
\<close>

theorem retry_controller:
  assumes rnd: "\<forall>i. 0 \<le> random i \<and> random i < 1"
  shows "(\<forall>k v. k \<le> maxRetries \<longrightarrow> (\<forall>i<k. retryableFailure (fn i)) \<longrightarrow> fn k = Inr v \<longrightarrow>
            retry fn random maxRetries initialDelay maxDelay
              = (Inr v, k + 1, specWaits random maxDelay 0 initialDelay k))
       \<and> (\<forall>k e. k \<le> maxRetries \<longrightarrow> (\<forall>i<k. retryableFailure (fn i)) \<longrightarrow> fn k = Inl e \<longrightarrow>
            isRetryable e = Some False \<longrightarrow>
            retry fn random maxRetries initialDelay maxDelay
              = (Inl (Rethrown e), k + 1, specWaits random maxDelay 0 initialDelay k))
       \<and> (\<forall>e. (\<forall>i<maxRetries. retryableFailure (fn i)) \<longrightarrow> fn maxRetries = Inl e \<longrightarrow>
            isRetryable e = Some True \<longrightarrow>
            retry fn random maxRetries initialDelay maxDelay
              = (Inl (Rethrown e), maxRetries + 1, specWaits random maxDelay 0 initialDelay maxRetries))
       \<and> fst (snd (retry fn random maxRetries initialDelay maxDelay)) \<le> maxRetries + 1
       \<and> (\<forall>k. length (specWaits random maxDelay 0 initialDelay k) = k)
       \<and> (\<forall>k i. i < k \<longrightarrow>
            specWaits random maxDelay 0 initialDelay k ! i
              = min ((if i = 0 then initialDelay else specWaits random maxDelay 0 initialDelay k ! (i - 1))
                       * 1.5 * jitterOf (random i)) maxDelay
            \<and> 0.85 \<le> jitterOf (random i) \<and> jitterOf (random i) \<le> 1.15)
       \<and> (\<forall>m. isRetryable (WithMessage m)
              = Some (str_includes m (js ''503'') \<or> str_includes m (js ''overloaded'')
                      \<or> str_includes m (js ''UNAVAILABLE'')))
       \<and> isRetryable WithoutMessage = Some False
       \<and> retryWithDefaults fn random = retry fn random 5 2000 60000"
proof -
  let ?run = "retry fn random maxRetries initialDelay maxDelay"
  let ?waits = "specWaits random maxDelay 0 initialDelay"
  have prefix: "?run = (let (res, n, ws) = retry_loop fn random maxRetries maxDelay k
                                   (specDelay random maxDelay 0 initialDelay k)
                        in (res, n, ?waits k @ ws))"
    if "k \<le> maxRetries" "\<forall>i<k. retryableFailure (fn i)" for k
    using retry_loop_prefix [of k fn 0 maxRetries random maxDelay initialDelay] that
    by (simp add: retry_def)
  have A: "?run = (Inr v, k + 1, ?waits k)"
    if "k \<le> maxRetries" "\<forall>i<k. retryableFailure (fn i)" "fn k = Inr v" for k v
    using prefix [OF that(1,2)] by (simp add: retry_loop_success [where fn = fn and r = k and v = v, OF that(3)])
  have B: "?run = (Inl (Rethrown e), k + 1, ?waits k)"
    if "k \<le> maxRetries" "\<forall>i<k. retryableFailure (fn i)" "fn k = Inl e" "isRetryable e = Some False"
    for k e
    using prefix [OF that(1,2)] by (simp add: retry_loop_fatal [where fn = fn and r = k and e = e, OF that(3,4)])
  have C: "?run = (Inl (Rethrown e), maxRetries + 1, ?waits maxRetries)"
    if "\<forall>i<maxRetries. retryableFailure (fn i)" "fn maxRetries = Inl e" "isRetryable e = Some True"
    for e
    using prefix [OF order_refl that(1)] by (simp add: retry_loop_exhausted [where fn = fn and r = maxRetries and e = e, OF that(2,3)])
  have D: "fst (snd ?run) \<le> maxRetries + 1"
    using retry_loop_attempts [of 0 maxRetries fn random maxDelay initialDelay]
    by (simp add: retry_def)
  have E: "length (?waits k) = k" for k
    by (simp add: specWaits_def)
  have F: "?waits k ! i
              = min ((if i = 0 then initialDelay else ?waits k ! (i - 1))
                       * 1.5 * jitterOf (random i)) maxDelay"
    if "i < k" for k i
  proof (cases i)
    case 0
    then show ?thesis using that by (simp add: specWaits_def nextDelay_def)
  next
    case (Suc j)
    then show ?thesis using that by (simp add: specWaits_def nextDelay_def)
  qed
  have G: "0.85 \<le> jitterOf (random i) \<and> jitterOf (random i) \<le> 1.15" for i
    using rnd jitterOf_range [of "random i"] by simp
  have H: "isRetryable (WithMessage m)
              = Some (str_includes m (js ''503'') \<or> str_includes m (js ''overloaded'')
                      \<or> str_includes m (js ''UNAVAILABLE''))" for m
    by (simp add: isRetryable_def)
  have I: "isRetryable WithoutMessage = Some False"
    by (simp add: isRetryable_def)
  show ?thesis
    using A B C D E F G H I by (simp only: retryWithDefaults_def) blast
qed

theorem retry_controller_witness:
  "(\<forall>i::nat. (0::real) \<le> 1 / 2 \<and> (1 / 2 :: real) < 1)
   \<and> retry (\<lambda>i. if i = 0 then Inl (WithMessage (js ''503 Service Unavailable'')) else Inr (42::nat))
        (\<lambda>i. 1 / 2) 5 2000 60000 = (Inr 42, 2, [3000])"
proof -
  let ?fn = "\<lambda>i::nat. if i = 0 then Inl (WithMessage (js ''503 Service Unavailable'')) else Inr (42::nat)"
  have rnd: "\<forall>i::nat. (0::real) \<le> (\<lambda>i. 1 / 2) i \<and> (\<lambda>i. 1 / 2) i < (1::real)" by simp
  have r0: "retryableFailure (?fn 0)"
    by (simp add: retryableFailure_def isRetryable_def js_def startsWith_def)
  have "retry ?fn (\<lambda>i. 1 / 2) 5 2000 60000 = (Inr 42, 1 + 1, specWaits (\<lambda>i. 1 / 2) 60000 0 2000 1)"
    using retry_controller [OF rnd, of 5 ?fn 2000 60000] r0 by simp
  moreover have "specWaits (\<lambda>i. 1 / 2) 60000 0 2000 1 = [3000]"
    by (simp add: specWaits_def nextDelay_def jitterOf_def)
  ultimately show ?thesis by simp
qed


section \<open>Records of both engines\<close>

text \<open>
  The values of \<open>JSON.parse\<close>. An object is the list of its own properties; \<open>getProp\<close> reads
  one (\<open>None\<close> is \<open>undefined\<close>). Reading a property of \<open>null\<close> raises a TypeError, which
  the callers below check before they read.
\<close>

datatype json =
    JNull | JBool bool | JNum real | JStr jstring | JArr "json list"
  | JObj "(jstring \<times> json) list"

definition getProp :: "json \<Rightarrow> jstring \<Rightarrow> json option" where
  "getProp v k = (case v of JObj kvs \<Rightarrow> map_of kvs k | _ \<Rightarrow> None)"

text \<open>Truthiness: \<open>undefined\<close>, \<open>null\<close>, \<open>false\<close>, \<open>0\<close> and the empty string are falsy.\<close>

definition truthy :: "json option \<Rightarrow> bool" where
  "truthy v =
     (case v of
        None \<Rightarrow> False
      | Some JNull \<Rightarrow> False
      | Some (JBool b) \<Rightarrow> b
      | Some (JNum n) \<Rightarrow> n \<noteq> 0
      | Some (JStr s) \<Rightarrow> s \<noteq> []
      | Some (JArr xs) \<Rightarrow> True
      | Some (JObj kvs) \<Rightarrow> True)"

datatype recordType = Investment | Acquisition | Roundup

text \<open>
  An entry of \<open>acquisitions\<close> (rule-based engine) or \<open>acquisitionsInRoundup\<close> (AI engine):
  \<open>{company, acquirer, amount?}\<close>.
\<close>

record AcquisitionEntry =
  acqCompany :: "json option"
  acqAcquirer :: "json option"
  acqAmount :: "json option"

text \<open>
  The record both engines emit. The two engines declare the interface \<open>InvestmentData\<close>
  separately (investmentParser.ts and types/index.ts) and build plain objects, so one
  record with every property of either declaration models both; an absent property is
  \<open>None\<close>. The AI engine copies what the model answered, of whatever type, so the
  properties hold JSON values.
\<close>

record InvestmentData =
  company :: json
  amount :: "json option"
  round :: "json option"
  investors :: "json option"
  investorDetails :: "(jstring \<times> jstring) list option"
  type :: recordType
  date :: jstring
  valuation :: "json option"
  links :: "jstring list option"
  rawText :: jstring
  isPartOfRoundup :: "bool option"
  acquisitions :: "AcquisitionEntry list option"
  acquirer :: "json option"
  about :: "json option"
  acquisitionsInRoundup :: "AcquisitionEntry list option"

text \<open>A message; the optional \<open>entities\<close> of the keyword tagger are not read by the engines.\<close>

record TelegramMessage =
  msgId :: jstring
  msgDate :: jstring
  senderId :: jstring
  senderName :: jstring
  msgText :: jstring

section \<open>AI extraction engine (genAI.ts)\<close>

definition numChars :: re where
  "numChars = Cls False [CDigit, CChar 46]"

text \<open>\<open>/^[\d\.]+M?B?$/\<close> and \<open>/^[A-Za-z0-9\.-]+$/\<close>\<close>

definition bareAmountRe :: re where
  "bareAmountRe = Seq Bol (Seq (Plus numChars) (Seq (Opt (Lit 77)) (Seq (Opt (Lit 66)) Eol)))"

definition bareNameRe :: re where
  "bareNameRe =
     Seq Bol (Seq (Plus (Cls False [CRange 65 90, CRange 97 122, CRange 48 57, CChar 46, CChar 45])) Eol)"

definition genAI_keepLink :: "json \<Rightarrow> bool" where
  "genAI_keepLink l =
     (case l of
        JStr s \<Rightarrow>
          s \<noteq> []
          \<and> (startsWith s (js ''http'') \<or> str_includes s (js ''.com'') \<or> str_includes s (js ''.io'')
               \<or> str_includes s (js ''.org'') \<or> str_includes s (js ''.net''))
          \<and> \<not> test False bareAmountRe s
          \<and> \<not> (test False bareNameRe s \<and> \<not> str_includes s (js ''.''))
      | _ \<Rightarrow> False)"

definition addHttps :: "jstring \<Rightarrow> jstring" where
  "addHttps l = (if startsWith l (js ''http'') then l else js ''https://'' @ l)"

definition genAI_cleanLinks :: "json list \<Rightarrow> jstring list" where
  "genAI_cleanLinks ls =
     map addHttps (concat (map (\<lambda>l. case l of JStr s \<Rightarrow> [s] | _ \<Rightarrow> []) (filter genAI_keepLink ls)))"

text \<open>\<open>s.replace('$', '')\<close>\<close>

definition stripDollar :: "jstring \<Rightarrow> jstring" where
  "stripDollar s = replaceFirstChar 36 [] s"

text \<open>An item of the roundup's \<open>amount\<close> array: a string is trimmed and loses its first
  \<open>$\<close>, anything else is kept.\<close>

definition standardizeAmountItem :: "json \<Rightarrow> json" where
  "standardizeAmountItem a = (case a of JStr s \<Rightarrow> JStr (stripDollar (trim s)) | _ \<Rightarrow> a)"

text \<open>\<open>x.amount ? x.amount.replace('$', '') : undefined\<close>: a truthy value that is not a
  string has no \<open>replace\<close>, and the call raises a TypeError.\<close>

definition replaceDollarOf :: "json option \<Rightarrow> jsError + json option" where
  "replaceDollarOf v =
     (if truthy v then (case v of Some (JStr s) \<Rightarrow> Inr (Some (JStr (stripDollar s))) | _ \<Rightarrow> Inl TypeError)
      else Inr None)"

text \<open>\<open>typeof x === 'string' ? x.replace('$', '') : x\<close>, for a truthy \<open>x\<close>.\<close>

definition stripIfString :: "json option \<Rightarrow> json option" where
  "stripIfString v = (case v of Some (JStr s) \<Rightarrow> Some (JStr (stripDollar s)) | _ \<Rightarrow> v)"

text \<open>\<open>x || ""\<close>\<close>

definition orEmpty :: "json option \<Rightarrow> json" where
  "orEmpty v = (case v of Some x \<Rightarrow> if truthy v then x else JStr [] | None \<Rightarrow> JStr [])"

primrec mapE :: "('a \<Rightarrow> 'e + 'b) \<Rightarrow> 'a list \<Rightarrow> 'e + 'b list" where
  "mapE f [] = Inr []"
| "mapE f (x # xs) =
     (case f x of
        Inl e \<Rightarrow> Inl e
      | Inr y \<Rightarrow> (case mapE f xs of Inl e \<Rightarrow> Inl e | Inr ys \<Rightarrow> Inr (y # ys)))"

definition roundupAcquisition :: "json \<Rightarrow> jsError + AcquisitionEntry" where
  "roundupAcquisition acq =
     (case acq of
        JNull \<Rightarrow> Inl TypeError
      | _ \<Rightarrow>
          (case replaceDollarOf (getProp acq (js ''amount'')) of
             Inl e \<Rightarrow> Inl e
           | Inr a \<Rightarrow> Inr \<lparr>acqCompany = getProp acq (js ''company''),
                           acqAcquirer = getProp acq (js ''acquirer''),
                           acqAmount = a\<rparr>))"

definition standardizeRoundup :: "json \<Rightarrow> InvestmentData \<Rightarrow> jsError + InvestmentData" where
  "standardizeRoundup d base =
     (let r1 =
        (case getProp d (js ''company'') of
           Some (JArr cs) \<Rightarrow>
             if cs \<noteq> [] then
               base\<lparr>company := JArr cs,
                     amount :=
                       (case getProp d (js ''amount'') of
                          Some (JArr ams) \<Rightarrow>
                            if ams \<noteq> [] then Some (JArr (map standardizeAmountItem ams)) else None
                        | _ \<Rightarrow> None)\<rparr>
             else base\<lparr>company := JStr (js ''Weekly Investment Roundup'')\<rparr>
         | _ \<Rightarrow> base\<lparr>company := JStr (js ''Weekly Investment Roundup'')\<rparr>)
      in case (case getProp d (js ''acquisitions'') of
                 Some (JArr acqs) \<Rightarrow>
                   if acqs \<noteq> [] then
                     (case mapE roundupAcquisition acqs of Inl e \<Rightarrow> Inl e | Inr es \<Rightarrow> Inr (Some es))
                   else Inr None
               | _ \<Rightarrow> Inr None) of
           Inl e \<Rightarrow> Inl e
         | Inr aq \<Rightarrow> Inr (r1\<lparr>acquisitionsInRoundup := aq, isPartOfRoundup := Some True\<rparr>))"

text \<open>The acquirer and amount of an acquisition, from \<open>acquisitions[0]\<close> or from the object
  \<open>acquisitions\<close>.\<close>

definition fromAcquisition :: "json \<Rightarrow> InvestmentData \<Rightarrow> jsError + InvestmentData" where
  "fromAcquisition a r =
     (case a of
        JNull \<Rightarrow> Inl TypeError
      | _ \<Rightarrow>
          (case replaceDollarOf (getProp a (js ''amount'')) of
             Inl e \<Rightarrow> Inl e
           | Inr None \<Rightarrow> Inr (r\<lparr>acquirer := getProp a (js ''acquirer'')\<rparr>)
           | Inr (Some v) \<Rightarrow> Inr (r\<lparr>acquirer := getProp a (js ''acquirer''), amount := Some v\<rparr>)))"

definition directAmount :: "json \<Rightarrow> json option" where
  "directAmount d =
     (if truthy (getProp d (js ''amount'')) then stripIfString (getProp d (js ''amount'')) else None)"

definition standardizeAcquisition :: "json \<Rightarrow> InvestmentData \<Rightarrow> jsError + InvestmentData" where
  "standardizeAcquisition d base =
     (let r0 = base\<lparr>company := orEmpty (getProp d (js ''company''))\<rparr> in
      case getProp d (js ''acquisitions'') of
        Some (JArr acqs) \<Rightarrow> (case acqs of [] \<Rightarrow> Inr r0 | a0 # _ \<Rightarrow> fromAcquisition a0 r0)
      | Some (JObj kvs) \<Rightarrow> fromAcquisition (JObj kvs) r0
      | _ \<Rightarrow> Inr (r0\<lparr>acquirer := getProp d (js ''acquirer''), amount := directAmount d\<rparr>))"

definition standardizeInvestment :: "json \<Rightarrow> InvestmentData \<Rightarrow> InvestmentData" where
  "standardizeInvestment d base =
     base\<lparr>company := orEmpty (getProp d (js ''company'')),
           amount := directAmount d,
           round := (if truthy (getProp d (js ''round'')) then getProp d (js ''round'') else None),
           investors := (case getProp d (js ''investors'') of Some (JArr xs) \<Rightarrow> Some (JArr xs) | _ \<Rightarrow> None)\<rparr>"

definition addOptionalFields :: "json \<Rightarrow> InvestmentData \<Rightarrow> InvestmentData" where
  "addOptionalFields d r =
     r\<lparr>about := (if truthy (getProp d (js ''about'')) then getProp d (js ''about'') else None),
        valuation :=
          (if truthy (getProp d (js ''valuation'')) then stripIfString (getProp d (js ''valuation'')) else None),
        links :=
          (case getProp d (js ''links'') of
             Some (JArr ls) \<Rightarrow> if ls \<noteq> [] then Some (genAI_cleanLinks ls) else None
           | _ \<Rightarrow> None)\<rparr>"

definition standardizeInvestmentData ::
    "json \<Rightarrow> jstring \<Rightarrow> jstring \<Rightarrow> bool \<Rightarrow> jsError + InvestmentData" where
  "standardizeInvestmentData d rawTxt dt isRoundup =
     (case d of
        JNull \<Rightarrow> Inl TypeError
      | _ \<Rightarrow>
          (let ty =
                 (if isRoundup then Roundup
                  else if truthy (getProp d (js ''acquisitions'')) \<or> truthy (getProp d (js ''acquirer''))
                          \<or> str_includes (toLowerCase rawTxt) (js ''acquired'')
                          \<or> str_includes (toLowerCase rawTxt) (js ''acquisition'')
                       then Acquisition
                  else Investment);
               base = \<lparr>company = JStr [], amount = None, round = None, investors = None,
                       investorDetails = None, type = ty, date = dt, valuation = None,
                       links = None, rawText = rawTxt, isPartOfRoundup = None,
                       acquisitions = None, acquirer = None, about = None,
                       acquisitionsInRoundup = None\<rparr>
           in case (case ty of
                      Roundup \<Rightarrow> standardizeRoundup d base
                    | Acquisition \<Rightarrow> standardizeAcquisition d base
                    | Investment \<Rightarrow> Inr (standardizeInvestment d base)) of
                Inl e \<Rightarrow> Inl e
              | Inr r \<Rightarrow> Inr (addOptionalFields d r)))"

text \<open>The two pre-filters and the roundup test \<open>/Top\s+\d+|Best\s+Rounds|Notable\s+Rounds|This\s+Week/i\<close>
  of the AI engine.\<close>

definition genAI_prefilter :: "jstring \<Rightarrow> bool" where
  "genAI_prefilter txt =
     (str_includes txt (js ''Round'') \<or> str_includes txt (js ''raised'')
      \<or> str_includes txt (js ''acquired'') \<or> str_includes txt (js ''Funding'')
      \<or> str_includes txt (js ''$'') \<or> str_includes txt (js ''investment''))"

definition ws :: re where
  "ws = Cls False [CSpace]"

definition digit :: re where
  "digit = Cls False [CDigit]"

definition genAI_roundupRe :: re where
  "genAI_roundupRe =
     Alt (Seq (Str (js ''Top'')) (Seq (Plus ws) (Plus digit)))
      (Alt (Seq (Str (js ''Best'')) (Seq (Plus ws) (Str (js ''Rounds''))))
        (Alt (Seq (Str (js ''Notable'')) (Seq (Plus ws) (Str (js ''Rounds''))))
             (Seq (Str (js ''This'')) (Seq (Plus ws) (Str (js ''Week''))))))"

text \<open>
  The body of the inner \<open>try\<close> of \<open>extractInvestmentWithGemini\<close>, on the text the service
  answered. \<open>parse\<close> is \<open>JSON.parse\<close> (\<open>None\<close> when it raises a SyntaxError).
\<close>

definition processResponse ::
    "(jstring \<Rightarrow> json option) \<Rightarrow> jstring \<Rightarrow> jstring \<Rightarrow> jstring \<Rightarrow> bool
      \<Rightarrow> jsError + InvestmentData option" where
  "processResponse parse response rawTxt dt isRoundup =
     (let jsonStart = indexOf response (js ''{'');
          jsonEnd = lastIndexOf response (js ''}'') + 1
      in if jsonStart < 0 \<or> jsonEnd \<le> jsonStart then Inr None
         else (case parse (substring response jsonStart jsonEnd) of
                 None \<Rightarrow> Inl SyntaxError
               | Some d \<Rightarrow>
                   (case standardizeInvestmentData d rawTxt dt isRoundup of
                      Inl e \<Rightarrow> Inl e
                    | Inr r \<Rightarrow> Inr (Some r))))"

text \<open>\<open>try { ... } catch (err) { console.error(...); return null; }\<close>\<close>

definition catchReturnNull :: "jsError + 'a option \<Rightarrow> jsError + 'a option" where
  "catchReturnNull x = (case x of Inl e \<Rightarrow> Inr None | Inr v \<Rightarrow> Inr v)"

text \<open>
  \<open>extractInvestmentWithGemini\<close>. The calls of the generation service are an effect:
  \<open>callGeminiAPI i\<close> is the outcome of the call number \<open>i\<close> that \<open>retry\<close> makes for this
  message (the prompt, built from the text, goes to the service and is not modelled),
  \<open>random\<close> the values of \<open>Math.random()\<close>.
\<close>

definition extractInvestmentWithGemini ::
    "(jstring \<Rightarrow> json option) \<Rightarrow> (nat \<Rightarrow> thrown + jstring) \<Rightarrow> (nat \<Rightarrow> real) \<Rightarrow> TelegramMessage
      \<Rightarrow> jsError + InvestmentData option" where
  "extractInvestmentWithGemini parse callGeminiAPI random m =
     (if \<not> genAI_prefilter (msgText m) then Inr None
      else
        (let isRoundup = test True genAI_roundupRe (msgText m) in
         catchReturnNull
           (case fst (retryWithDefaults callGeminiAPI random) of
              Inl e \<Rightarrow> Inl Rejected
            | Inr response \<Rightarrow>
                catchReturnNull (processResponse parse response (msgText m) (msgDate m) isRoundup))))"

text \<open>The test of \<open>extractInvestmentsWithAI\<close> before it pushes a result.\<close>

definition genAI_accepted :: "InvestmentData \<Rightarrow> bool" where
  "genAI_accepted r =
     (case company r of JStr s \<Rightarrow> length s > 0 | JArr xs \<Rightarrow> length xs > 0 | _ \<Rightarrow> False)"

text \<open>
  \<open>extractInvestmentsWithAI\<close>: the messages in order (the batches of five and the delays
  between them change no result); message number \<open>i\<close> has its own service outcomes
  \<open>api i\<close> and random values \<open>random i\<close>. An error thrown for a message skips it.
\<close>

primrec extractAIFrom ::
    "(jstring \<Rightarrow> json option) \<Rightarrow> (nat \<Rightarrow> nat \<Rightarrow> thrown + jstring) \<Rightarrow> (nat \<Rightarrow> nat \<Rightarrow> real) \<Rightarrow> nat
      \<Rightarrow> TelegramMessage list \<Rightarrow> InvestmentData list" where
  "extractAIFrom parse api random i [] = []"
| "extractAIFrom parse api random i (m # ms) =
     (case extractInvestmentWithGemini parse (api i) (random i) m of
        Inr (Some r) \<Rightarrow>
          if genAI_accepted r then r # extractAIFrom parse api random (i + 1) ms
          else extractAIFrom parse api random (i + 1) ms
      | _ \<Rightarrow> extractAIFrom parse api random (i + 1) ms)"

definition extractInvestmentsWithAI ::
    "(jstring \<Rightarrow> json option) \<Rightarrow> (nat \<Rightarrow> nat \<Rightarrow> thrown + jstring) \<Rightarrow> (nat \<Rightarrow> nat \<Rightarrow> real)
      \<Rightarrow> TelegramMessage list \<Rightarrow> InvestmentData list" where
  "extractInvestmentsWithAI parse api random ms = extractAIFrom parse api random 0 ms"


subsection \<open>Parsing the answer of the service\<close>

lemma startsWith_single: "startsWith (x # xs) [c] = (x = c)"
  by (simp add: startsWith_def)

lemma indexOfFrom_absent: "c \<notin> set s \<Longrightarrow> indexOfFrom s [c] i = - 1"
  by (induction s arbitrary: i) (auto simp: startsWith_single)

lemma indexOfFrom_first:
  "c \<notin> set pre \<Longrightarrow> indexOfFrom (pre @ c # post) [c] i = int (i + length pre)"
  by (induction pre arbitrary: i) (auto simp: startsWith_single)

lemma lastIndexOfFrom_absent: "c \<notin> set s \<Longrightarrow> lastIndexOfFrom s [c] i best = best"
  by (induction s arbitrary: i best) (auto simp: startsWith_single)

lemma lastIndexOfFrom_last:
  "c \<notin> set post \<Longrightarrow> lastIndexOfFrom (pre @ c # post) [c] i best = int (i + length pre)"
  by (induction pre arbitrary: i best) (auto simp: startsWith_single lastIndexOfFrom_absent)

lemma lastIndexOfFrom_bound:
  "best < int (i + length s) \<Longrightarrow> lastIndexOfFrom s [c] i best < int (i + length s)"
proof (induction s arbitrary: i best)
  case Nil
  then show ?case by simp
next
  case (Cons x xs)
  have "lastIndexOfFrom xs [c] (i + 1) (if startsWith (x # xs) [c] then int i else best)
          < int ((i + 1) + length xs)"
    using Cons.prems by (intro Cons.IH) auto
  then show ?case by simp
qed

lemma lastIndexOfFrom_append_absent:
  "c \<notin> set post \<Longrightarrow> lastIndexOfFrom (pre @ post) [c] i best = lastIndexOfFrom pre [c] i best"
  by (induction pre arbitrary: i best) (auto simp: startsWith_single lastIndexOfFrom_absent)

lemma indexOf_absent: "c \<notin> set s \<Longrightarrow> indexOf s [c] = - 1"
  by (simp add: indexOf_def indexOfFrom_absent)

lemma indexOf_first: "c \<notin> set pre \<Longrightarrow> indexOf (pre @ c # post) [c] = int (length pre)"
  by (simp add: indexOf_def indexOfFrom_first)

lemma lastIndexOf_last: "c \<notin> set post \<Longrightarrow> lastIndexOf (pre @ c # post) [c] = int (length pre)"
  by (simp add: lastIndexOf_def lastIndexOfFrom_last)

lemma lastIndexOf_before:
  "c \<notin> set post \<Longrightarrow> lastIndexOf (pre @ post) [c] < int (length pre)"
  using lastIndexOfFrom_bound [of "- 1" 0 pre c]
  by (simp add: lastIndexOf_def lastIndexOfFrom_append_absent)

lemma substring_middle:
  "substring (pre @ mid @ post) (int (length pre)) (int (length pre + length mid)) = mid"
proof -
  let ?n = "int (length (pre @ mid @ post))"
  have a: "min (max (int (length pre)) 0) ?n = int (length pre)" by simp
  have b: "min (max (int (length pre + length mid)) 0) ?n = int (length pre + length mid)" by simp
  have lo: "min (int (length pre)) (int (length pre + length mid)) = int (length pre)" by simp
  have hi: "max (int (length pre)) (int (length pre + length mid)) = int (length pre + length mid)"
    by simp
  have "substring (pre @ mid @ post) (int (length pre)) (int (length pre + length mid))
          = take (nat (int (length pre + length mid) - int (length pre)))
              (drop (nat (int (length pre))) (pre @ mid @ post))"
    unfolding substring_def Let_def a b lo hi ..
  also have "\<dots> = mid" by simp
  finally show ?thesis .
qed

lemma js_brace_open: "js ''{'' = [123]"
  by (simp add: js_def)

lemma js_brace_close: "js ''}'' = [125]"
  by (simp add: js_def)

text \<open>What the engine returns once it has cut the text \<open>jsonString\<close> out of the answer:
  the parsed and normalised record, or \<open>null\<close> when \<open>JSON.parse\<close> or the normalisation
  raises (the \<open>catch\<close> of the inner \<open>try\<close> returns \<open>null\<close>).\<close>

definition normalized :: "(jstring \<Rightarrow> json option) \<Rightarrow> jstring \<Rightarrow> jstring \<Rightarrow> jstring \<Rightarrow> bool
      \<Rightarrow> InvestmentData option" where
  "normalized parse jsonString rawTxt dt isRoundup =
     (case parse jsonString of
        None \<Rightarrow> None
      | Some d \<Rightarrow> (case standardizeInvestmentData d rawTxt dt isRoundup of
                     Inl e \<Rightarrow> None
                   | Inr r \<Rightarrow> Some r))"

lemma processResponse_no_open:
  "123 \<notin> set response \<Longrightarrow> processResponse parse response rawTxt dt isR = Inr None"
  by (simp add: processResponse_def js_brace_open indexOf_absent)

lemma processResponse_close_before_open:
  assumes "123 \<notin> set pre" "125 \<notin> set post"
  shows "processResponse parse (pre @ 123 # post) rawTxt dt isR = Inr None"
proof -
  have i: "indexOf (pre @ 123 # post) [123] = int (length pre)"
    using assms(1) by (rule indexOf_first)
  have "lastIndexOf (pre @ 123 # post) [125] < int (length pre)"
    using lastIndexOf_before [of 125 "123 # post" pre] assms(2) by simp
  then show ?thesis
    by (simp add: processResponse_def js_brace_open js_brace_close i Let_def)
qed

lemma processResponse_at:
  assumes "indexOf response (js ''{'') = a" "lastIndexOf response (js ''}'') = b"
    and "0 \<le> a" "a < b + 1" "substring response a (b + 1) = str"
  shows "catchReturnNull (processResponse parse response rawTxt dt isR)
           = Inr (normalized parse str rawTxt dt isR)"
  using assms
  by (simp add: processResponse_def Let_def catchReturnNull_def normalized_def
      split: option.splits sum.splits)

lemma processResponse_braces:
  assumes "123 \<notin> set pre" "125 \<notin> set post"
  shows "catchReturnNull (processResponse parse (pre @ 123 # mid @ 125 # post) rawTxt dt isR)
           = Inr (normalized parse (123 # mid @ [125]) rawTxt dt isR)"
proof -
  let ?resp = "pre @ 123 # mid @ 125 # post"
  have i: "indexOf ?resp (js ''{'') = int (length pre)"
    unfolding js_brace_open using assms(1) by (rule indexOf_first)
  have "lastIndexOf ((pre @ 123 # mid) @ 125 # post) [125] = int (length (pre @ 123 # mid))"
    using assms(2) by (rule lastIndexOf_last)
  then have j: "lastIndexOf ?resp (js ''}'') = int (length pre + length mid + 1)"
    by (simp add: js_brace_close)
  have "substring (pre @ (123 # mid @ [125]) @ post) (int (length pre))
          (int (length pre + length (123 # mid @ [125]))) = 123 # mid @ [125]"
    by (rule substring_middle)
  then have sub: "substring ?resp (int (length pre)) (int (length pre + length mid + 1) + 1)
                    = 123 # mid @ [125]"
    by (simp add: add.commute add.left_commute)
  show ?thesis
    by (rule processResponse_at [OF i j _ _ sub]) simp_all
qed

lemma catchReturnNull_Inr: "\<exists>v. catchReturnNull x = Inr v"
  by (cases x) (simp_all add: catchReturnNull_def)

lemma extractInvestmentWithGemini_total:
  "\<exists>res. extractInvestmentWithGemini parse api rnd m = Inr res"
  by (simp add: extractInvestmentWithGemini_def Let_def catchReturnNull_Inr)

lemma extractInvestmentWithGemini_response:
  assumes "genAI_prefilter (msgText m)" "fst (retryWithDefaults api rnd) = Inr response"
  shows "extractInvestmentWithGemini parse api rnd m
           = catchReturnNull (processResponse parse response (msgText m) (msgDate m)
                (test True genAI_roundupRe (msgText m)))"
  using assms catchReturnNull_Inr [of "processResponse parse response (msgText m) (msgDate m)
                (test True genAI_roundupRe (msgText m))"]
  by (auto simp: extractInvestmentWithGemini_def Let_def catchReturnNull_def)

subsection \<open>Sample answers of the service\<close>

text \<open>A JSON text is written with \<open>quoted\<close> for its strings (34 is the double quote).
  \<open>noJitter\<close> gives \<open>Math.random() = 0\<close> at every draw.\<close>

definition quoted :: "string \<Rightarrow> jstring" where
  "quoted s = [34] @ js s @ [34]"

definition noJitter :: "nat \<Rightarrow> real" where
  "noJitter i = 0"

definition fooMessage :: TelegramMessage where
  "fooMessage = \<lparr>msgId = js ''1'', msgDate = js ''2025-05-01T00:00:00.000Z'', senderId = js ''7'',
                  senderName = js ''news'', msgText = js ''Foo raised $5M''\<rparr>"

text \<open>The answer
  \<open>Sure! Here is the data: {"company":"Foo","amount":"$5M","round":"Seed","valuation":"$50M","links":["foo.com"]} Thanks\<close>,
  the value \<open>JSON.parse\<close> gives for its JSON text, and the record the engine returns.\<close>

definition fooJson :: jstring where
  "fooJson =
     js ''{'' @ quoted ''company'' @ js '':'' @ quoted ''Foo'' @ js '','' @ quoted ''amount'' @ js '':''
       @ quoted ''$5M'' @ js '','' @ quoted ''round'' @ js '':'' @ quoted ''Seed'' @ js '',''
       @ quoted ''valuation'' @ js '':'' @ quoted ''$50M'' @ js '','' @ quoted ''links'' @ js '':[''
       @ quoted ''foo.com'' @ js '']}''"

definition fooObject :: json where
  "fooObject =
     JObj [(js ''company'', JStr (js ''Foo'')), (js ''amount'', JStr (js ''$5M'')),
           (js ''round'', JStr (js ''Seed'')), (js ''valuation'', JStr (js ''$50M'')),
           (js ''links'', JArr [JStr (js ''foo.com'')])]"

definition fooResponse :: jstring where
  "fooResponse = js ''Sure! Here is the data: '' @ fooJson @ js '' Thanks''"

definition fooParse :: "jstring \<Rightarrow> json option" where
  "fooParse s = (if s = fooJson then Some fooObject else None)"

definition fooService :: "nat \<Rightarrow> thrown + jstring" where
  "fooService i = Inr fooResponse"

definition fooRecord :: InvestmentData where
  "fooRecord =
     \<lparr>company = JStr (js ''Foo''), amount = Some (JStr (js ''5M'')), round = Some (JStr (js ''Seed'')),
      investors = None, investorDetails = None, type = Investment,
      date = js ''2025-05-01T00:00:00.000Z'', valuation = Some (JStr (js ''50M'')),
      links = Some [js ''https://foo.com''], rawText = js ''Foo raised $5M'',
      isPartOfRoundup = None, acquisitions = None, acquirer = None, about = None,
      acquisitionsInRoundup = None\<rparr>"

text \<open>The answer \<open>Here you go: {"company":"Foo","acquisitions":{"amount":5}}\<close>: the amount
  of the acquisition is a number.\<close>

definition dropJson :: jstring where
  "dropJson =
     js ''{'' @ quoted ''company'' @ js '':'' @ quoted ''Foo'' @ js '','' @ quoted ''acquisitions''
       @ js '':{'' @ quoted ''amount'' @ js '':5}}''"

definition dropObject :: json where
  "dropObject =
     JObj [(js ''company'', JStr (js ''Foo'')), (js ''acquisitions'', JObj [(js ''amount'', JNum 5)])]"

definition dropResponse :: jstring where
  "dropResponse = js ''Here you go: '' @ dropJson"

definition dropParse :: "jstring \<Rightarrow> json option" where
  "dropParse s = (if s = dropJson then Some dropObject else None)"

definition dropService :: "nat \<Rightarrow> thrown + jstring" where
  "dropService i = Inr dropResponse"

lemma foo_prefilter: "genAI_prefilter (msgText fooMessage)"
  by (simp add: genAI_prefilter_def fooMessage_def js_def startsWith_def)

lemma foo_not_roundup: "test True genAI_roundupRe (msgText fooMessage) = False"
  by (simp add: genAI_roundupRe_def fooMessage_def ws_def digit_def engine_defs rm.simps)

lemma foo_link: "genAI_cleanLinks [JStr (js ''foo.com'')] = [js ''https://foo.com'']"
  by (simp add: genAI_cleanLinks_def genAI_keepLink_def addHttps_def bareAmountRe_def bareNameRe_def
      numChars_def engine_defs rm.simps inItem_ranges startsWith_def)

lemma foo_standardized:
  "standardizeInvestmentData fooObject (msgText fooMessage) (msgDate fooMessage)
     (test True genAI_roundupRe (msgText fooMessage)) = Inr fooRecord"
  unfolding foo_not_roundup
  by (simp add: standardizeInvestmentData_def standardizeInvestment_def addOptionalFields_def
      fooObject_def fooRecord_def fooMessage_def getProp_def truthy_def orEmpty_def directAmount_def
      stripIfString_def stripDollar_def foo_link [unfolded js_def, simplified] Let_def toLowerCase_def
      lowerUnit_def isUpperAZ_def js_def startsWith_def)

lemma drop_standardized:
  "standardizeInvestmentData dropObject (msgText fooMessage) (msgDate fooMessage)
     (test True genAI_roundupRe (msgText fooMessage)) = Inl TypeError"
  unfolding foo_not_roundup
  by (simp add: standardizeInvestmentData_def standardizeAcquisition_def fromAcquisition_def
      replaceDollarOf_def dropObject_def getProp_def truthy_def Let_def js_def)

subsection \<open>The claim about the answer\<close>

text \<open>
  C8, as stated: when the answer has a \<open>{\<close>, its last \<open>}\<close> is after the first \<open>{\<close> and
  the text between them parses, the engine normalises the parsed value and returns the
  result. It fails on the message \<open>Foo raised $5M\<close> with the answer
  \<open>Here you go: {"company":"Foo","acquisitions":{"amount":5}}\<close>: the text from the first
  \<open>{\<close> through the last \<open>}\<close> is the JSON text and it parses, but the normalisation calls
  \<open>replace\<close> on the number 5 and raises a TypeError, the inner \<open>catch\<close> returns \<open>null\<close>,
  and the message is dropped.
\<close>

theorem response_parsing_counterexample:
  "genAI_prefilter (msgText fooMessage)
   \<and> fst (retryWithDefaults dropService noJitter) = Inr dropResponse
   \<and> 0 \<le> indexOf dropResponse (js ''{'')
   \<and> indexOf dropResponse (js ''{'') < lastIndexOf dropResponse (js ''}'') + 1
   \<and> substring dropResponse (indexOf dropResponse (js ''{'')) (lastIndexOf dropResponse (js ''}'') + 1)
       = dropJson
   \<and> dropParse dropJson = Some dropObject
   \<and> standardizeInvestmentData dropObject (msgText fooMessage) (msgDate fooMessage)
        (test True genAI_roundupRe (msgText fooMessage)) = Inl TypeError
   \<and> extractInvestmentWithGemini dropParse dropService noJitter fooMessage = Inr None"
proof -
  have r: "fst (retryWithDefaults dropService noJitter) = Inr dropResponse"
    by (simp add: retryWithDefaults_def retry_def retry_loop.simps dropService_def)
  have i: "indexOf dropResponse (js ''{'') = 13"
    by (simp add: dropResponse_def dropJson_def quoted_def indexOf_def startsWith_def js_def)
  have j: "lastIndexOf dropResponse (js ''}'') = 57"
    by (simp add: dropResponse_def dropJson_def quoted_def lastIndexOf_def startsWith_def js_def)
  have sub: "substring dropResponse 13 (57 + 1) = dropJson"
    by (simp add: dropResponse_def dropJson_def quoted_def substring_def Let_def js_def)
  have p: "dropParse dropJson = Some dropObject" by (simp add: dropParse_def)
  have "extractInvestmentWithGemini dropParse dropService noJitter fooMessage
          = catchReturnNull (processResponse dropParse dropResponse (msgText fooMessage)
               (msgDate fooMessage) (test True genAI_roundupRe (msgText fooMessage)))"
    by (rule extractInvestmentWithGemini_response [OF foo_prefilter r])
  also have "\<dots> = Inr (normalized dropParse dropJson (msgText fooMessage) (msgDate fooMessage)
                         (test True genAI_roundupRe (msgText fooMessage)))"
    by (rule processResponse_at [OF i j _ _ sub]) simp_all
  also have "\<dots> = Inr None"
    by (simp add: normalized_def p drop_standardized)
  finally show ?thesis using foo_prefilter r i j sub p drop_standardized by simp
qed

text \<open>
  C8, amended. For a message that passes the pre-filter and an answer \<open>response\<close> of the
  service: the per-message function never raises; it returns \<open>null\<close> when the answer has
  no \<open>{\<close>, when no \<open>}\<close> follows the first \<open>{\<close> (the last \<open>}\<close>, if any, is before it), when
  the text from the first \<open>{\<close> through the last \<open>}\<close> does not parse, and when the
  normalisation of the parsed value raises (as it does on \<open>null\<close>, and on an acquisition
  whose \<open>amount\<close> is a truthy value that is not a string); otherwise it parses exactly
  that text and returns the record \<open>standardizeInvestmentData\<close> makes of the parsed value,
  the text and the date of the message.
\<close>

theorem response_parsing:
  assumes "genAI_prefilter (msgText m)" "fst (retryWithDefaults api rnd) = Inr response"
  shows "(\<exists>res. extractInvestmentWithGemini parse api rnd m = Inr res)
       \<and> (123 \<notin> set response \<longrightarrow> extractInvestmentWithGemini parse api rnd m = Inr None)
       \<and> (\<forall>pre post. response = pre @ 123 # post \<longrightarrow> 123 \<notin> set pre \<longrightarrow> 125 \<notin> set post \<longrightarrow>
             extractInvestmentWithGemini parse api rnd m = Inr None)
       \<and> (\<forall>pre mid post. response = pre @ 123 # mid @ 125 # post \<longrightarrow> 123 \<notin> set pre \<longrightarrow> 125 \<notin> set post \<longrightarrow>
             (parse (123 # mid @ [125]) = None \<longrightarrow>
                extractInvestmentWithGemini parse api rnd m = Inr None)
             \<and> (\<forall>d. parse (123 # mid @ [125]) = Some d \<longrightarrow>
                   (\<forall>e. standardizeInvestmentData d (msgText m) (msgDate m)
                           (test True genAI_roundupRe (msgText m)) = Inl e \<longrightarrow>
                        extractInvestmentWithGemini parse api rnd m = Inr None)
                   \<and> (\<forall>r. standardizeInvestmentData d (msgText m) (msgDate m)
                             (test True genAI_roundupRe (msgText m)) = Inr r \<longrightarrow>
                          extractInvestmentWithGemini parse api rnd m = Inr (Some r))))
       \<and> standardizeInvestmentData JNull (msgText m) (msgDate m)
            (test True genAI_roundupRe (msgText m)) = Inl TypeError"
proof -
  note e = extractInvestmentWithGemini_response [OF assms]
  have a: "\<exists>res. extractInvestmentWithGemini parse api rnd m = Inr res"
    by (rule extractInvestmentWithGemini_total)
  have b: "extractInvestmentWithGemini parse api rnd m = Inr None" if "123 \<notin> set response"
    using that by (simp add: e processResponse_no_open catchReturnNull_def)
  have c: "extractInvestmentWithGemini parse api rnd m = Inr None"
    if "response = pre @ 123 # post" "123 \<notin> set pre" "125 \<notin> set post" for pre post
    using that by (simp add: e processResponse_close_before_open catchReturnNull_def)
  have d: "extractInvestmentWithGemini parse api rnd m
               = Inr (normalized parse (123 # mid @ [125]) (msgText m) (msgDate m)
                        (test True genAI_roundupRe (msgText m)))"
    if "response = pre @ 123 # mid @ 125 # post" "123 \<notin> set pre" "125 \<notin> set post" for pre mid post
    using that by (simp add: e processResponse_braces)
  have f: "extractInvestmentWithGemini parse api rnd m = Inr None"
    if "response = pre @ 123 # mid @ 125 # post" "123 \<notin> set pre" "125 \<notin> set post"
       "parse (123 # mid @ [125]) = None" for pre mid post
    using d [OF that(1-3)] that(4) by (simp add: normalized_def)
  have g: "extractInvestmentWithGemini parse api rnd m = Inr None"
    if "response = pre @ 123 # mid @ 125 # post" "123 \<notin> set pre" "125 \<notin> set post"
       "parse (123 # mid @ [125]) = Some v"
       "standardizeInvestmentData v (msgText m) (msgDate m)
          (test True genAI_roundupRe (msgText m)) = Inl err" for pre mid post v err
    using d [OF that(1-3)] that(4,5) by (simp add: normalized_def)
  have h: "extractInvestmentWithGemini parse api rnd m = Inr (Some r)"
    if "response = pre @ 123 # mid @ 125 # post" "123 \<notin> set pre" "125 \<notin> set post"
       "parse (123 # mid @ [125]) = Some v"
       "standardizeInvestmentData v (msgText m) (msgDate m)
          (test True genAI_roundupRe (msgText m)) = Inr r" for pre mid post v r
    using d [OF that(1-3)] that(4,5) by (simp add: normalized_def)
  have n: "standardizeInvestmentData JNull (msgText m) (msgDate m)
             (test True genAI_roundupRe (msgText m)) = Inl TypeError"
    by (simp add: standardizeInvestmentData_def)
  show ?thesis
    by (intro conjI allI impI;
        (rule a | rule n | erule (4) g | erule (4) h | erule (3) f | erule (2) c | erule b))
qed

theorem response_parsing_witness:
  "genAI_prefilter (msgText fooMessage)
   \<and> fst (retryWithDefaults fooService noJitter) = Inr fooResponse
   \<and> fooParse fooJson = Some fooObject
   \<and> extractInvestmentWithGemini fooParse fooService noJitter fooMessage = Inr (Some fooRecord)"
proof -
  have r: "fst (retryWithDefaults fooService noJitter) = Inr fooResponse"
    by (simp add: retryWithDefaults_def retry_def retry_loop.simps fooService_def)
  have shape: "fooResponse = js ''Sure! Here is the data: '' @ 123 # (tl (butlast fooJson)) @ 125 # js '' Thanks''"
    by (simp add: fooResponse_def fooJson_def quoted_def js_def)
  have pre: "123 \<notin> set (js ''Sure! Here is the data: '')" by (simp add: js_def)
  have post: "125 \<notin> set (js '' Thanks'')" by (simp add: js_def)
  have mid: "123 # tl (butlast fooJson) @ [125] = fooJson" by (simp add: fooJson_def quoted_def js_def)
  have p: "fooParse (123 # tl (butlast fooJson) @ [125]) = Some fooObject"
    unfolding mid by (simp add: fooParse_def)
  have "extractInvestmentWithGemini fooParse fooService noJitter fooMessage = Inr (Some fooRecord)"
    using response_parsing [OF foo_prefilter r, of fooParse] shape pre post p foo_standardized
    by blast
  then show ?thesis using foo_prefilter r p mid by simp
qed

section \<open>Rule-based extraction engine (investmentParser.ts)\<close>

subsection \<open>Building blocks of the expressions\<close>

primrec seqs :: "re list \<Rightarrow> re" where
  "seqs [] = Eps"
| "seqs (r # rs) = Seq r (seqs rs)"

primrec alts :: "re \<Rightarrow> re list \<Rightarrow> re" where
  "alts r [] = r"
| "alts r (r' # rs) = Alt r (alts r' rs)"

text \<open>Words separated by \<open>\s+\<close>.\<close>

primrec wordsRe :: "jstring \<Rightarrow> jstring list \<Rightarrow> re" where
  "wordsRe w [] = Str w"
| "wordsRe w (w' # ws') = Seq (Str w) (Seq (Plus ws) (wordsRe w' ws'))"

definition notSpace :: re where
  "notSpace = Cls True [CSpace]"

definition alnum :: "citem list" where
  "alnum = [CRange 97 122, CRange 65 90, CRange 48 57]"

text \<open>The text of a group; an absent group (\<open>undefined\<close>) reads as empty. The source reads
  only groups that take part in every match of their expression, except group 3 of the
  acquisition expression of roundups, which it tests first.\<close>

definition groupText :: "MatchResult \<Rightarrow> nat \<Rightarrow> jstring" where
  "groupText m i = (case group m i of Some w \<Rightarrow> w | None \<Rightarrow> [])"

subsection \<open>Links\<close>

text \<open>
  \<open>/(https?:\/\/[^\s]+)|(\bwww\.[^\s]+)|([a-zA-Z0-9][-a-zA-Z0-9]{0,62}\.(?:com|io|org|net|finance|xyz|app|dev|eth|crypto|nft|fund)[^\s)*,;:!]?)/gi\<close>
\<close>

definition urlRegex :: re where
  "urlRegex =
     Alt (Grp 1 (seqs [Str (js ''http''), Opt (Lit 115), Str (js ''://''), Plus notSpace]))
      (Alt (Grp 2 (seqs [WordB, Str (js ''www''), Lit 46, Plus notSpace]))
           (Grp 3 (seqs [Cls False alnum, UpTo 62 (Cls False (CChar 45 # alnum)), Lit 46,
                         alts (Str (js ''com''))
                           [Str (js ''io''), Str (js ''org''), Str (js ''net''), Str (js ''finance''),
                            Str (js ''xyz''), Str (js ''app''), Str (js ''dev''), Str (js ''eth''),
                            Str (js ''crypto''), Str (js ''nft''), Str (js ''fund'')],
                         Opt (Cls True [CSpace, CChar 41, CChar 42, CChar 44, CChar 59, CChar 58,
                                        CChar 33])])))"

text \<open>\<open>/^\d+(\.\d+)?M?B?$/\<close>\<close>

definition plainNumberRe :: re where
  "plainNumberRe =
     seqs [Bol, Plus digit, Opt (Grp 1 (Seq (Lit 46) (Plus digit))), Opt (Lit 77), Opt (Lit 66), Eol]"

definition extractLinks :: "jstring \<Rightarrow> jstring list" where
  "extractLinks txt =
     map addHttps
       (filter (\<lambda>url. \<not> test False plainNumberRe url
                      \<and> \<not> (url = js ''T-Rex'' \<or> url = js ''others.'' \<or> url = js ''etc.''
                            \<or> url = js ''e.g.'')
                      \<and> str_includes url (js ''.'') \<and> \<not> str_includes url (js ''@''))
          (map matched (matchAll True urlRegex txt)))"

text \<open>The links of a \<open>Set\<close>, in the order of their first insertion.\<close>

definition addUnique :: "'a list \<Rightarrow> 'a \<Rightarrow> 'a list" where
  "addUnique xs x = (if x \<in> set xs then xs else xs @ [x])"

definition cleanLinks :: "jstring list \<Rightarrow> jstring list" where
  "cleanLinks ls =
     foldl addUnique []
       (map addHttps
          (filter (\<lambda>l. \<not> test False bareAmountRe l
                       \<and> l \<notin> set [js ''Turtle.Club'', js ''Boop.fun'', js ''T-Rex'']
                       \<and> (startsWith l (js ''http'') \<or> str_includes l (js ''.io'')
                            \<or> str_includes l (js ''.com'') \<or> str_includes l (js ''.org'')))
             ls))"

subsection \<open>Investor names\<close>

record InvestorEntry =
  investorName :: jstring
  investorDescription :: "jstring option"

text \<open>
  \<open>cleanInvestorName\<close>. The loop over the separators keeps the smallest index found so
  far and the length to skip after it (1 for the comma).
\<close>

definition pickSeparator :: "jstring \<Rightarrow> int \<times> nat \<Rightarrow> jstring \<Rightarrow> int \<times> nat" where
  "pickSeparator investor best separator =
     (let idx = indexOf investor separator
      in if idx \<noteq> - 1 \<and> (fst best = - 1 \<or> idx < fst best) then (idx, length separator) else best)"

definition cleanInvestorName :: "jstring \<Rightarrow> InvestorEntry" where
  "cleanInvestorName investor =
     (let commaIndex = indexOf investor (js '','');
          best = foldl (pickSeparator investor) (commaIndex, 1)
                   [js '' - '', js '' is '', js '' a '', js '' forms '', js '' builds '']
      in if fst best \<noteq> - 1
         then \<lparr>investorName = trim (substring investor 0 (fst best)),
               investorDescription = Some (trim (substringFrom investor (fst best + int (snd best))))\<rparr>
         else \<lparr>investorName = trim investor, investorDescription = None\<rparr>)"

subsection \<open>Roundups\<close>

text \<open>The six headline patterns of \<open>isWeeklyRoundup\<close>, all with the \<open>i\<close> flag.\<close>

definition roundupIndicators :: "re list" where
  "roundupIndicators =
     [seqs [Str (js ''Top''), Plus ws, Plus digit, Plus ws, Star Dot,
            wordsRe (js ''Rounds'') [js ''of'', js ''This'', js ''Week'']],
      wordsRe (js ''Best'') [js ''Rounds'', js ''Of'', js ''This'', js ''Week''],
      wordsRe (js ''Notable'') [js ''Rounds'', js ''of'', js ''This'', js ''Week''],
      seqs [wordsRe (js ''Funding'') [js ''Rounds'', js ''Of''], Plus ws, Star Dot, Str (js ''Week'')],
      seqs [wordsRe (js ''Rounds'') [js ''Of''], Plus ws, Star Dot, Str (js ''Week'')],
      wordsRe (js ''Best'') [js ''Funding'', js ''Rounds'', js ''Of'']]"

definition isWeeklyRoundup :: "jstring \<Rightarrow> bool" where
  "isWeeklyRoundup txt = list_ex (\<lambda>pattern. test True pattern txt) roundupIndicators"

text \<open>
  The line patterns. The source file holds the dash of the first three as the three
  characters U+00E2, U+20AC, U+201C, inside the character classes:
  \<open>/([^-...:$\n]+)\s*[-...:]\s*\$?([\d\.]+)M?B?/i\<close> (three times) and
  \<open>/([^\s]+)\s+\$?([\d\.]+)M?B?/i\<close>.
\<close>

definition dashes :: "citem list" where
  "dashes = [CChar 45, CChar 226, CChar 8364, CChar 8220, CChar 58]"

definition dashLinePattern :: re where
  "dashLinePattern =
     seqs [Grp 1 (Plus (Cls True (dashes @ [CChar 36, CChar 10]))), Star ws, Cls False dashes, Star ws,
           Opt (Lit 36), Grp 2 (Plus numChars), Opt (Lit 77), Opt (Lit 66)]"

definition spaceLinePattern :: re where
  "spaceLinePattern =
     seqs [Grp 1 (Plus notSpace), Plus ws, Opt (Lit 36), Grp 2 (Plus numChars), Opt (Lit 77), Opt (Lit 66)]"

definition patterns :: "re list" where
  "patterns = [dashLinePattern, dashLinePattern, dashLinePattern, spaceLinePattern]"

text \<open>\<open>/(\w+)\s+acquired\s+(\w+)(?:\s+for\s+\$?([\d\.]+)B?M?)?/gi\<close>\<close>

definition acquisitionRegex :: re where
  "acquisitionRegex =
     seqs [Grp 1 (Plus (Cls False [CWord])), Plus ws, Str (js ''acquired''), Plus ws,
           Grp 2 (Plus (Cls False [CWord])),
           Opt (seqs [Plus ws, Str (js ''for''), Plus ws, Opt (Lit 36), Grp 3 (Plus numChars),
                      Opt (Lit 66), Opt (Lit 77)])]"

text \<open>The suffix of an amount: \<open>B\<close> when the lower-cased text has a \<open>b\<close>, else \<open>M\<close>.\<close>

definition unitSuffix :: "jstring \<Rightarrow> jstring" where
  "unitSuffix s = (if str_includes (toLowerCase s) (js ''b'') then js ''B'' else js ''M'')"

definition roundupAcquisitionOf :: "MatchResult \<Rightarrow> AcquisitionEntry" where
  "roundupAcquisitionOf m =
     \<lparr>acqCompany = Some (JStr (trim (groupText m 2))),
      acqAcquirer = Some (JStr (trim (groupText m 1))),
      acqAmount = (case group m 3 of
                     None \<Rightarrow> None
                   | Some g \<Rightarrow> if g = [] then None else Some (JStr (g @ unitSuffix (matched m))))\<rparr>"

text \<open>The first pattern of the list that matches, with its match.\<close>

primrec firstMatch :: "re list \<Rightarrow> jstring \<Rightarrow> MatchResult option" where
  "firstMatch [] s = None"
| "firstMatch (pattern # ps) s =
     (case exec True pattern s of Some m \<Rightarrow> Some m | None \<Rightarrow> firstMatch ps s)"

text \<open>\<open>/^[^\w]+/\<close>, \<open>/\d+/\<close>, \<open>/\s+/\<close>, \<open>/^[A-Z][a-z]*$/\<close> and \<open>/\$\s?([\d\.]+)M?B?/i\<close>\<close>

definition leadingNonWord :: re where
  "leadingNonWord = Seq Bol (Plus (Cls True [CWord]))"

definition capitalized :: re where
  "capitalized = seqs [Bol, Cls False [CRange 65 90], Star (Cls False [CRange 97 122]), Eol]"

definition dollarAmount :: re where
  "dollarAmount = seqs [Lit 36, Opt ws, Grp 1 (Plus numChars), Opt (Lit 77), Opt (Lit 66)]"

text \<open>\<open>words.slice(0, 2).join(' ')\<close>\<close>

definition joinSpace :: "jstring list \<Rightarrow> jstring" where
  "joinSpace ws' = (case ws' of [] \<Rightarrow> [] | w # rest' \<Rightarrow> w @ concat (map (\<lambda>x. 32 # x) rest'))"

text \<open>
  The company and amount a line of a roundup contributes, before the test for a company
  already listed; \<open>None\<close> when the line is skipped or yields nothing.
\<close>

definition matchedLine :: "jstring \<Rightarrow> MatchResult \<Rightarrow> jstring \<times> jstring" where
  "matchedLine cleanLine m =
     (let dollarIndex = indexOf cleanLine (js ''$'');
          company0 = trim (groupText m 1);
          company1 = (if company0 = js ''T'' \<and> str_includes cleanLine (js ''T-Rex'')
                      then js ''T-Rex'' else company0);
          possibleFullName = trim (substring cleanLine 0 dollarIndex);
          company2 = (if dollarIndex > 0 \<and> length possibleFullName > length company1
                         \<and> startsWith possibleFullName company1
                      then possibleFullName else company1)
      in (company2, groupText m 2 @ unitSuffix cleanLine))"

definition generalLine :: "jstring \<Rightarrow> (jstring \<times> jstring) option" where
  "generalLine cleanLine =
     (if str_includes cleanLine (js ''$'') \<and> test False (Plus digit) cleanLine then
        (let dollarIndex = indexOf cleanLine (js ''$'') in
         if dollarIndex > 2 then
           (let possibleCompany = trim (substring cleanLine 0 dollarIndex);
                companyWords = splitRe False (Plus ws) possibleCompany;
                company0 =
                  (case companyWords of
                     [] \<Rightarrow> []
                   | w0 # _ \<Rightarrow>
                       if length companyWords \<ge> 2
                          \<and> (w0 = js ''Alt'' \<or> w0 = js ''T'' \<or> test False capitalized w0)
                       then joinSpace (take 2 companyWords)
                       else w0)
            in if company0 \<noteq> [] \<and> length company0 > 1 then
                 (case exec True dollarAmount cleanLine of
                    Some am \<Rightarrow> Some (company0, groupText am 1 @ unitSuffix cleanLine)
                  | None \<Rightarrow> None)
               else None)
         else None)
      else None)"

definition roundupLine :: "jstring \<Rightarrow> (jstring \<times> jstring) option" where
  "roundupLine line =
     (if length line < 5 \<or> str_includes line (js ''Round'') \<or> str_includes line (js ''Week'')
         \<or> str_includes line (js ''Total'')
      then None
      else
        (let cleanLine = trim (replaceRe False leadingNonWord [] line) in
         case firstMatch patterns cleanLine of
           Some m \<Rightarrow> Some (matchedLine cleanLine m)
         | None \<Rightarrow> generalLine cleanLine))"

text \<open>The loop over the lines: the two lists grow together, by a company not yet listed.\<close>

definition pushLine :: "jstring list \<times> jstring list \<Rightarrow> jstring \<Rightarrow> jstring list \<times> jstring list" where
  "pushLine acc line =
     (case roundupLine line of
        None \<Rightarrow> acc
      | Some (c, a) \<Rightarrow> if c \<in> set (fst acc) then acc else (fst acc @ [c], snd acc @ [a]))"

definition parseWeeklyRoundup :: "TelegramMessage \<Rightarrow> InvestmentData" where
  "parseWeeklyRoundup m =
     (let txt = msgText m;
          acqs = map roundupAcquisitionOf (matchAll True acquisitionRegex txt);
          (companies, amounts) = foldl pushLine ([], []) (splitChar 10 txt)
      in \<lparr>company = JArr (map JStr companies),
           amount = Some (JArr (map JStr amounts)),
           round = None,
           investors = Some (JArr []),
           investorDetails = None,
           type = Roundup,
           date = msgDate m,
           valuation = None,
           links = Some (cleanLinks (extractLinks txt)),
           rawText = txt,
           isPartOfRoundup = Some True,
           acquisitions = (if acqs \<noteq> [] then Some acqs else None),
           acquirer = None,
           about = None,
           acquisitionsInRoundup = None\<rparr>)"

subsection \<open>Single announcements\<close>

text \<open>
  The title patterns start with two zero-width spaces, which the source file holds as
  the characters U+00E2, U+20AC, U+2039, twice.
\<close>

definition titlePrefix :: jstring where
  "titlePrefix = [226, 8364, 8249, 226, 8364, 8249]"

text \<open>\<open>([^$\s]+(?:\.[^\s]+)?)\<close> and \<open>([A-Za-z\-]+(?:\s+[A-Za-z]+)?)\<close>\<close>

definition nameGroup :: re where
  "nameGroup = Grp 1 (Seq (Plus (Cls True [CChar 36, CSpace])) (Opt (Seq (Lit 46) (Plus notSpace))))"

definition roundWords :: "nat \<Rightarrow> re" where
  "roundWords i =
     Grp i (Seq (Plus (Cls False [CRange 65 90, CRange 97 122, CChar 45]))
                (Opt (Seq (Plus ws) (Plus (Cls False [CRange 65 90, CRange 97 122])))))"

definition titleWithAmount :: re where
  "titleWithAmount =
     seqs [Str titlePrefix, nameGroup, Plus ws, Opt (Lit 36), Grp 2 (Plus numChars), Opt (Lit 77),
           Plus ws, roundWords 3, Plus ws, Str (js ''Round'')]"

definition titleWithRound :: re where
  "titleWithRound = seqs [Str titlePrefix, nameGroup, Plus ws, roundWords 2, Plus ws, Str (js ''Round'')]"

text \<open>\<open>/About:\s*\n([^\n]+)/\<close> and \<open>/^([^\.]+\.[^\s]+|[^\s]+)\s+is\s+/i\<close>\<close>

definition aboutRe :: re where
  "aboutRe = seqs [Str (js ''About:''), Star ws, Lit 10, Grp 1 (Plus (Cls True [CChar 10]))]"

definition companyPattern :: re where
  "companyPattern =
     seqs [Bol,
           Grp 1 (Alt (seqs [Plus (Cls True [CChar 46]), Lit 46, Plus notSpace]) (Plus notSpace)),
           Plus ws, Str (js ''is''), Plus ws]"

text \<open>\<open>/has acquired\s+([^\s\n]+)/i\<close>, \<open>/([^\n]+)\s+acquired by:/i\<close> and
  \<open>/([^\s\n]+)\s+has acquired/i\<close>\<close>

definition hasAcquiredRe :: re where
  "hasAcquiredRe = seqs [Str (js ''has acquired''), Plus ws, Grp 1 (Plus (Cls True [CSpace, CChar 10]))]"

definition acquiredByRe :: re where
  "acquiredByRe = seqs [Grp 1 (Plus (Cls True [CChar 10])), Plus ws, Str (js ''acquired by:'')]"

definition beforeHasAcquiredRe :: re where
  "beforeHasAcquiredRe = seqs [Grp 1 (Plus (Cls True [CSpace, CChar 10])), Plus ws, Str (js ''has acquired'')]"

text \<open>\<open>text.split('\n')[0].trim()\<close>\<close>

definition firstLineOf :: "jstring \<Rightarrow> jstring" where
  "firstLineOf txt = trim (case splitChar 10 txt of [] \<Rightarrow> [] | l # _ \<Rightarrow> l)"

text \<open>The steps of \<open>extractCompanyName\<close>, each \<open>None\<close> when it does not return.\<close>

definition companyFromAbout :: "jstring \<Rightarrow> jstring option" where
  "companyFromAbout txt =
     (case exec False aboutRe txt of
        None \<Rightarrow> None
      | Some am \<Rightarrow>
          (let aboutText = groupText am 1 in
           case exec True companyPattern aboutText of
             Some cm \<Rightarrow> Some (trim (groupText cm 1))
           | None \<Rightarrow>
               (case splitRe False (Plus ws) aboutText of
                  [] \<Rightarrow> None
                | firstTerm # _ \<Rightarrow>
                    if firstTerm \<noteq> [] \<and> length firstTerm > 1 then Some (trim firstTerm) else None)))"

definition companyFromAcquisition :: "jstring \<Rightarrow> jstring option" where
  "companyFromAcquisition txt =
     (case exec True hasAcquiredRe txt of
        Some m \<Rightarrow> Some (trim (groupText m 1))
      | None \<Rightarrow>
          (case exec True acquiredByRe txt of
             Some m \<Rightarrow> Some (trim (groupText m 1))
           | None \<Rightarrow>
               (case exec True beforeHasAcquiredRe txt of
                  Some m \<Rightarrow> Some (trim (groupText m 1))
                | None \<Rightarrow> None)))"

definition companyFromFirstLine :: "jstring \<Rightarrow> jstring option" where
  "companyFromFirstLine firstLine =
     (if firstLine \<noteq> [] then
        (let cleanedFirstLine = trim (replaceRe False (Seq Bol (Str titlePrefix)) [] firstLine) in
         case exec False (Seq Bol nameGroup) cleanedFirstLine of
           Some m \<Rightarrow> if length (groupText m 1) > 1 then Some (groupText m 1) else None
         | None \<Rightarrow> None)
      else None)"

definition extractCompanyName :: "jstring \<Rightarrow> bool \<Rightarrow> jstring" where
  "extractCompanyName txt isAcquisition =
     (let firstLine = firstLineOf txt in
      case exec True titleWithAmount firstLine of
        Some m \<Rightarrow> trim (groupText m 1)
      | None \<Rightarrow>
          (case exec True titleWithRound firstLine of
             Some m \<Rightarrow> trim (groupText m 1)
           | None \<Rightarrow>
               (case companyFromAbout txt of
                  Some c \<Rightarrow> c
                | None \<Rightarrow>
                    (case (if isAcquisition then companyFromAcquisition txt else None) of
                       Some c \<Rightarrow> c
                     | None \<Rightarrow>
                         (case companyFromFirstLine firstLine of
                            Some c \<Rightarrow> c
                          | None \<Rightarrow> [])))))"

text \<open>\<open>extractRoundType\<close>: exact phrases of the first line, then patterns (with the \<open>i\<close>
  flag) over the whole text; the first hit wins.\<close>

definition firstLinePhrases :: "(jstring \<times> jstring) list" where
  "firstLinePhrases =
     [(js ''Angel Round'', js ''Angel Round''), (js ''Pre-Seed Round'', js ''Pre-Seed''),
      (js ''Seed Round'', js ''Seed''), (js ''Series A Round'', js ''Series A''),
      (js ''Series B Round'', js ''Series B''), (js ''Series C Round'', js ''Series C''),
      (js ''Strategic Round'', js ''Strategic''), (js ''Funding Round'', js ''Funding''),
      (js ''Pre-Series A Round'', js ''Pre-Series A''), (js ''Private Round'', js ''Private Round''),
      (js ''Private Token Sale'', js ''Token Sale''), (js ''Token Sale'', js ''Token Sale'')]"

definition roundTypeMatches :: "(re \<times> jstring) list" where
  "roundTypeMatches =
     [(wordsRe (js ''Pre-Seed'') [js ''Round''], js ''Pre-Seed''),
      (wordsRe (js ''Seed'') [js ''Round''], js ''Seed''),
      (wordsRe (js ''Series'') [js ''A'', js ''Round''], js ''Series A''),
      (wordsRe (js ''Series'') [js ''B'', js ''Round''], js ''Series B''),
      (wordsRe (js ''Series'') [js ''C'', js ''Round''], js ''Series C''),
      (wordsRe (js ''Strategic'') [js ''Round''], js ''Strategic''),
      (wordsRe (js ''Funding'') [js ''Round''], js ''Funding''),
      (wordsRe (js ''Extended'') [js ''Series'', js ''A''], js ''Series A''),
      (wordsRe (js ''Pre-Series'') [js ''A''], js ''Pre-Series A''),
      (wordsRe (js ''Angel'') [js ''Round''], js ''Angel Round''),
      (wordsRe (js ''Private'') [js ''Round''], js ''Private Round''),
      (wordsRe (js ''Private'') [js ''Sale''], js ''Private Sale''),
      (wordsRe (js ''Token'') [js ''Sale''], js ''Token Sale''),
      (wordsRe (js ''Series'') [js ''A''], js ''Series A''),
      (wordsRe (js ''Series'') [js ''B''], js ''Series B''),
      (wordsRe (js ''Series'') [js ''C''], js ''Series C'')]"

definition extractRoundType :: "jstring \<Rightarrow> jstring option" where
  "extractRoundType txt =
     (case find (\<lambda>(phrase, v). str_includes (firstLineOf txt) phrase) firstLinePhrases of
        Some (phrase, v) \<Rightarrow> Some v
      | None \<Rightarrow>
          (case find (\<lambda>(regex, v). test True regex txt) roundTypeMatches of
             Some (regex, v) \<Rightarrow> Some v
           | None \<Rightarrow> None))"

text \<open>
  \<open>extractFundingAmount\<close>, with \<open>/\$\s*([\d\.]+)\s*(M|B)/i\<close> and \<open>/\$\s*([\d\.]+)\s*K/i\<close>.
  \<open>kToM\<close> stands for the floating-point conversion \<open>(parseFloat(s) / 1000).toFixed(2)\<close>
  of the thousands, a parameter of the model. \<open>toUpperCase\<close> is applied to one of the
  letters \<open>M\<close>, \<open>B\<close>, \<open>m\<close>, \<open>b\<close> only.
\<close>

definition millionsRe :: re where
  "millionsRe = seqs [Lit 36, Star ws, Grp 1 (Plus numChars), Star ws, Grp 2 (Alt (Lit 77) (Lit 66))]"

definition thousandsRe :: re where
  "thousandsRe = seqs [Lit 36, Star ws, Grp 1 (Plus numChars), Star ws, Lit 75]"

definition toUpperCase :: "jstring \<Rightarrow> jstring" where
  "toUpperCase s = map (\<lambda>c. if isLowerAZ c then c - 32 else c) s"

definition extractFundingAmount :: "(jstring \<Rightarrow> jstring) \<Rightarrow> jstring \<Rightarrow> jstring" where
  "extractFundingAmount kToM txt =
     (let firstLine = firstLineOf txt in
      case exec True millionsRe firstLine of
        Some m \<Rightarrow> groupText m 1 @ toUpperCase (groupText m 2)
      | None \<Rightarrow>
          (case exec True thousandsRe firstLine of
             Some k \<Rightarrow> kToM (groupText k 1) @ js ''M''
           | None \<Rightarrow>
               (case exec True millionsRe txt of
                  Some m \<Rightarrow> groupText m 1 @ toUpperCase (groupText m 2)
                | None \<Rightarrow>
                    if str_includes (toLowerCase txt) (js ''undisclosed'') then js ''Undisclosed''
                    else js ''Undisclosed'')))"

text \<open>The investors: \<open>/Investor[s]?:/\<close>, \<open>/\n\n|.../\<close> (the second alternative is an emoji,
  held in the source file as U+00F0, U+0178, U+2018, U+2030), \<open>/,|\sand\s|\n/\<close>,
  \<open>/\(Lead\)/g\<close> and \<open>/Acquired by:/i\<close>.\<close>

definition investorHeading :: re where
  "investorHeading = seqs [Str (js ''Investor''), Opt (Cls False [CChar 115]), Lit 58]"

definition sectionEnd :: re where
  "sectionEnd = Alt (Str [10, 10]) (Str [240, 376, 8216, 8240])"

definition listSeparator :: re where
  "listSeparator = Alt (Lit 44) (Alt (seqs [ws, Str (js ''and''), ws]) (Lit 10))"

text \<open>\<open>txt.split(heading)[1]?.split(sectionEnd)[0]\<close>\<close>

definition sectionAfter :: "bool \<Rightarrow> re \<Rightarrow> jstring \<Rightarrow> jstring option" where
  "sectionAfter ci heading txt =
     (case splitRe ci heading txt of
        _ # part # _ \<Rightarrow> (case splitRe False sectionEnd part of [] \<Rightarrow> None | sec # _ \<Rightarrow> Some sec)
      | _ \<Rightarrow> None)"

definition investorEntriesOf :: "jstring \<Rightarrow> bool \<Rightarrow> InvestorEntry list" where
  "investorEntriesOf txt isAcquisition =
     (if str_includes txt (js ''Investor:'') \<or> str_includes txt (js ''Investors:'') then
        (case sectionAfter False investorHeading txt of
           Some investorSection \<Rightarrow>
             if investorSection \<noteq> [] then
               map cleanInvestorName
                 (filter (\<lambda>i. i \<noteq> [] \<and> length i > 1)
                    (map (\<lambda>i. trim (replaceAllRe False (Str (js ''(Lead)'')) [] i))
                       (splitRe False listSeparator investorSection)))
             else []
         | None \<Rightarrow> [])
      else if isAcquisition then
        (case sectionAfter True (Str (js ''Acquired by:'')) txt of
           Some acquiredBySection \<Rightarrow>
             if acquiredBySection \<noteq> [] then [cleanInvestorName (trim acquiredBySection)] else []
         | None \<Rightarrow> [])
      else [])"

text \<open>\<open>investorDetails[entry.name] = entry.description\<close> for the entries with a non-empty
  description: a later entry of the same name overwrites the description in place.\<close>

primrec setProperty :: "jstring \<Rightarrow> jstring \<Rightarrow> (jstring \<times> jstring) list \<Rightarrow> (jstring \<times> jstring) list" where
  "setProperty k v [] = [(k, v)]"
| "setProperty k v (kv # kvs) = (if fst kv = k then (k, v) # kvs else kv # setProperty k v kvs)"

definition investorDetailsOf :: "InvestorEntry list \<Rightarrow> (jstring \<times> jstring) list" where
  "investorDetailsOf entries =
     foldl (\<lambda>acc e. case investorDescription e of
                       Some d \<Rightarrow> if d \<noteq> [] then setProperty (investorName e) d acc else acc
                     | None \<Rightarrow> acc) [] entries"

text \<open>\<open>/Valuation:\s+\$?([\d\.]+)M/i\<close>\<close>

definition valuationRe :: re where
  "valuationRe = seqs [Str (js ''Valuation:''), Plus ws, Opt (Lit 36), Grp 1 (Plus numChars), Lit 77]"

definition extractValuation :: "jstring \<Rightarrow> jstring option" where
  "extractValuation txt =
     (case exec True valuationRe txt of
        Some m \<Rightarrow> Some (js ''$'' @ groupText m 1 @ js ''M'')
      | None \<Rightarrow> None)"

text \<open>The pre-filter of \<open>parseInvestmentData\<close> and its test for a monthly roundup.\<close>

definition prefilter :: "jstring \<Rightarrow> bool" where
  "prefilter txt =
     (str_includes txt (js ''Round'') \<or> str_includes txt (js ''acquired'')
      \<or> str_includes txt (js ''Funding'') \<or> str_includes txt (js ''$''))"

definition isMonthlyRoundup :: "jstring \<Rightarrow> bool" where
  "isMonthlyRoundup txt =
     (str_includes txt (js ''Funding Rounds Of'')
      \<and> (str_includes txt (js ''April'') \<or> str_includes txt (js ''May'') \<or> str_includes txt (js ''June'')))"

definition parseSingle :: "(jstring \<Rightarrow> jstring) \<Rightarrow> TelegramMessage \<Rightarrow> InvestmentData option" where
  "parseSingle kToM m =
     (let txt = msgText m;
          isAcquisition = (str_includes txt (js ''acquired'') \<or> str_includes txt (js ''acquisition''));
          company0 = extractCompanyName txt isAcquisition
      in if company0 = [] then None
         else
           (let company1 = (if company0 = js ''Alt'' \<and> str_includes txt (js ''Alt DRX'')
                            then js ''Alt DRX'' else company0);
                round0 = extractRoundType txt;
                round1 = (if company1 = js ''Alt DRX'' \<and> str_includes txt (js ''Pre-Series A'')
                          then Some (js ''Pre-Series A'') else round0);
                investorEntries = investorEntriesOf txt isAcquisition;
                details = investorDetailsOf investorEntries;
                lnks = cleanLinks (extractLinks txt)
            in Some \<lparr>company = JStr company1,
                     amount = Some (JStr (extractFundingAmount kToM txt)),
                     round = map_option JStr round1,
                     investors = Some (JArr (map (\<lambda>e. JStr (investorName e)) investorEntries)),
                     investorDetails = (if details \<noteq> [] then Some details else None),
                     type = (if isAcquisition then Acquisition else Investment),
                     date = msgDate m,
                     valuation = map_option JStr (extractValuation txt),
                     links = (if lnks \<noteq> [] then Some lnks else None),
                     rawText = txt,
                     isPartOfRoundup = None,
                     acquisitions = None,
                     acquirer = None,
                     about = None,
                     acquisitionsInRoundup = None\<rparr>))"

definition parseInvestmentData :: "(jstring \<Rightarrow> jstring) \<Rightarrow> TelegramMessage \<Rightarrow> InvestmentData option" where
  "parseInvestmentData kToM m =
     (if \<not> prefilter (msgText m) then None
      else if isWeeklyRoundup (msgText m) then Some (parseWeeklyRoundup m)
      else if isMonthlyRoundup (msgText m) then Some (parseWeeklyRoundup m)
      else parseSingle kToM m)"

text \<open>
  The test of \<open>extractInvestmentData\<close> before it pushes a result: a non-empty string or
  a non-empty array. (Its \<open>try\<close> has nothing to catch: \<open>parseInvestmentData\<close> raises
  nothing on a message whose text is a string.)
\<close>

definition accepted :: "InvestmentData \<Rightarrow> bool" where
  "accepted r = (case company r of JStr s \<Rightarrow> s \<noteq> [] | JArr xs \<Rightarrow> length xs > 0 | _ \<Rightarrow> False)"

definition extractInvestmentData :: "(jstring \<Rightarrow> jstring) \<Rightarrow> TelegramMessage list \<Rightarrow> InvestmentData list" where
  "extractInvestmentData kToM messages =
     concat (map (\<lambda>m. case parseInvestmentData kToM m of
                         Some r \<Rightarrow> if accepted r then [r] else []
                       | None \<Rightarrow> []) messages)"

subsection \<open>A sample announcement\<close>

lemmas re_eval = api_defs engine_defs rm.simps inItem_ranges ws_def digit_def numChars_def notSpace_def
  alnum_def groupText_def firstLineOf_def trim_def startsWith_def

definition acmeText :: jstring where
  "acmeText = js ''Acme Seed Round'' @ [10] @ js ''Valuation: $5M''"

definition acmeMessage :: TelegramMessage where
  "acmeMessage = \<lparr>msgId = js ''1'', msgDate = js ''2025-05-01T00:00:00.000Z'', senderId = js ''7'',
                   senderName = js ''news'', msgText = acmeText\<rparr>"

lemma acme_prefilter: "prefilter acmeText"
  by (simp add: prefilter_def acmeText_def js_def startsWith_def)

lemma acme_not_weekly: "\<not> isWeeklyRoundup acmeText"
  by (simp add: isWeeklyRoundup_def roundupIndicators_def acmeText_def re_eval)

lemma acme_not_monthly: "\<not> isMonthlyRoundup acmeText"
  by (simp add: isMonthlyRoundup_def acmeText_def js_def startsWith_def)

lemma acme_not_acquisition:
  "\<not> (str_includes acmeText (js ''acquired'') \<or> str_includes acmeText (js ''acquisition''))"
  by (simp add: acmeText_def js_def startsWith_def)

lemma acme_company: "extractCompanyName acmeText False = js ''Acme''"
  by (simp add: extractCompanyName_def companyFromAbout_def companyFromFirstLine_def
      titleWithAmount_def titleWithRound_def aboutRe_def nameGroup_def roundWords_def titlePrefix_def
      acmeText_def re_eval)

lemma acme_amount: "extractFundingAmount kToM acmeText = js ''5M''"
  by (simp add: extractFundingAmount_def millionsRe_def thousandsRe_def toUpperCase_def
      acmeText_def re_eval)

lemma acme_valuation: "extractValuation acmeText = Some (js ''$5M'')"
  by (simp add: extractValuation_def valuationRe_def acmeText_def re_eval)

subsection \<open>The shape of the records of the rule-based engine\<close>

lemma parseInvestmentData_cases:
  "parseInvestmentData kToM m = Some r \<Longrightarrow> r = parseWeeklyRoundup m \<or> parseSingle kToM m = Some r"
  by (auto simp: parseInvestmentData_def split: if_splits)

lemma parseSingle_fields:
  assumes "parseSingle kToM m = Some r"
  shows "\<exists>c. company r = JStr c \<and> c \<noteq> []"
    and "amount r = Some (JStr (extractFundingAmount kToM (msgText m)))"
    and "valuation r = map_option JStr (extractValuation (msgText m))"
    and "type r \<noteq> Roundup"
    and "acquisitions r = None"
    and "acquisitionsInRoundup r = None"
proof -
  let ?isAcq = "str_includes (msgText m) (js ''acquired'') \<or> str_includes (msgText m) (js ''acquisition'')"
  let ?c0 = "extractCompanyName (msgText m) ?isAcq"
  have ne: "?c0 \<noteq> []"
    using assms by (auto simp: parseSingle_def Let_def)
  have r: "Some r = parseSingle kToM m" using assms by simp
  have alt: "js ''Alt DRX'' \<noteq> []" by (simp add: js_def)
  show "\<exists>c. company r = JStr c \<and> c \<noteq> []"
  proof (cases "?c0 = js ''Alt'' \<and> str_includes (msgText m) (js ''Alt DRX'')")
    case True
    then have "company r = JStr (js ''Alt DRX'')"
      using r ne unfolding parseSingle_def Let_def by simp
    then show ?thesis using alt by blast
  next
    case False
    then have "company r = JStr ?c0"
      using r ne unfolding parseSingle_def Let_def by auto
    then show ?thesis using ne by blast
  qed
  show "amount r = Some (JStr (extractFundingAmount kToM (msgText m)))"
    using r ne unfolding parseSingle_def Let_def by simp
  show "valuation r = map_option JStr (extractValuation (msgText m))"
    using r ne unfolding parseSingle_def Let_def by simp
  show "type r \<noteq> Roundup"
    using r ne unfolding parseSingle_def Let_def by simp
  show "acquisitions r = None"
    using r ne unfolding parseSingle_def Let_def by simp
  show "acquisitionsInRoundup r = None"
    using r ne unfolding parseSingle_def Let_def by simp
qed

lemma foldl_pushLine_lengths:
  "length (fst acc) = length (snd acc)
    \<Longrightarrow> length (fst (foldl pushLine acc ls)) = length (snd (foldl pushLine acc ls))"
proof (induction ls arbitrary: acc)
  case Nil
  then show ?case by simp
next
  case (Cons l ls)
  have "length (fst (pushLine acc l)) = length (snd (pushLine acc l))"
    using Cons.prems by (auto simp: pushLine_def split: option.splits)
  then show ?case using Cons.IH by simp
qed

lemma parseWeeklyRoundup_fields:
  shows "type (parseWeeklyRoundup m) = Roundup"
    and "\<exists>cs ams. company (parseWeeklyRoundup m) = JArr (map JStr cs)
            \<and> amount (parseWeeklyRoundup m) = Some (JArr (map JStr ams))
            \<and> length cs = length ams
            \<and> (cs, ams) = foldl pushLine ([], []) (splitChar 10 (msgText m))"
    and "valuation (parseWeeklyRoundup m) = None"
    and "acquisitionsInRoundup (parseWeeklyRoundup m) = None"
proof -
  obtain cs ams where f: "foldl pushLine ([], []) (splitChar 10 (msgText m)) = (cs, ams)"
    by (cases "foldl pushLine ([], []) (splitChar 10 (msgText m))")
  have "length cs = length ams"
    using foldl_pushLine_lengths [of "([], [])" "splitChar 10 (msgText m)"] f by simp
  then show "\<exists>cs ams. company (parseWeeklyRoundup m) = JArr (map JStr cs)
            \<and> amount (parseWeeklyRoundup m) = Some (JArr (map JStr ams))
            \<and> length cs = length ams
            \<and> (cs, ams) = foldl pushLine ([], []) (splitChar 10 (msgText m))"
    using f by (simp add: parseWeeklyRoundup_def Let_def)
  show "type (parseWeeklyRoundup m) = Roundup"
    by (simp add: parseWeeklyRoundup_def Let_def split: prod.splits)
  show "valuation (parseWeeklyRoundup m) = None"
    by (simp add: parseWeeklyRoundup_def Let_def split: prod.splits)
  show "acquisitionsInRoundup (parseWeeklyRoundup m) = None"
    by (simp add: parseWeeklyRoundup_def Let_def split: prod.splits)
qed

lemma extractInvestmentData_iff:
  "r \<in> set (extractInvestmentData kToM ms)
    \<longleftrightarrow> (\<exists>m \<in> set ms. parseInvestmentData kToM m = Some r \<and> accepted r)"
proof -
  have one: "r \<in> set (case parseInvestmentData kToM m of
                         Some r \<Rightarrow> if accepted r then [r] else []
                       | None \<Rightarrow> [])
             \<longleftrightarrow> parseInvestmentData kToM m = Some r \<and> accepted r" for m
    by (cases "parseInvestmentData kToM m") auto
  show ?thesis
    unfolding extractInvestmentData_def set_concat set_map using one by blast
qed

lemma extractAIFrom_accepted:
  "r \<in> set (extractAIFrom parse api rnd i ms) \<Longrightarrow>
     genAI_accepted r
     \<and> (\<exists>j m. m \<in> set ms \<and> extractInvestmentWithGemini parse (api j) (rnd j) m = Inr (Some r))"
proof (induction ms arbitrary: i)
  case Nil
  then show ?case by simp
next
  case (Cons m ms)
  let ?res = "extractInvestmentWithGemini parse (api i) (rnd i) m"
  have tail: "genAI_accepted r
     \<and> (\<exists>j m'. m' \<in> set (m # ms) \<and> extractInvestmentWithGemini parse (api j) (rnd j) m' = Inr (Some r))"
    if "r \<in> set (extractAIFrom parse api rnd (i + 1) ms)"
  proof -
    from Cons.IH [OF that] obtain j m' where "genAI_accepted r" "m' \<in> set ms"
      "extractInvestmentWithGemini parse (api j) (rnd j) m' = Inr (Some r)" by blast
    then show ?thesis by (intro conjI exI [of _ j] exI [of _ m']) simp_all
  qed
  show ?case
  proof (cases "\<exists>r'. ?res = Inr (Some r') \<and> genAI_accepted r'")
    case True
    then obtain r' where r': "?res = Inr (Some r')" "genAI_accepted r'" by blast
    then have "r = r' \<or> r \<in> set (extractAIFrom parse api rnd (i + 1) ms)"
      using Cons.prems by simp
    then show ?thesis
    proof
      assume "r = r'"
      then show ?thesis using r' by (intro conjI exI [of _ i] exI [of _ m]) simp_all
    next
      assume "r \<in> set (extractAIFrom parse api rnd (i + 1) ms)"
      then show ?thesis by (rule tail)
    qed
  next
    case False
    then have "extractAIFrom parse api rnd i (m # ms) = extractAIFrom parse api rnd (i + 1) ms"
      by (cases ?res) (auto split: option.splits)
    then show ?thesis using Cons.prems tail by simp
  qed
qed

subsection \<open>Emitted records have a company\<close>

text \<open>The property in the words of the specification: the company is a non-empty string or
  a non-empty list.\<close>

definition nonEmptyCompany :: "InvestmentData \<Rightarrow> bool" where
  "nonEmptyCompany r =
     ((\<exists>s. company r = JStr s \<and> length s \<noteq> 0) \<or> (\<exists>xs. company r = JArr xs \<and> xs \<noteq> []))"

text \<open>
  C9. Every record the batch extraction of either engine emits has a company that is a
  non-empty string or a non-empty list; in the rule-based engine a roundup has the list
  and any other record the string.
\<close>

theorem emitted_company_nonempty:
  "(\<forall>r \<in> set (extractInvestmentData kToM messages).
       nonEmptyCompany r
       \<and> (type r = Roundup \<longrightarrow> (\<exists>cs. company r = JArr (map JStr cs) \<and> cs \<noteq> []))
       \<and> (type r \<noteq> Roundup \<longrightarrow> (\<exists>c. company r = JStr c \<and> c \<noteq> [])))
   \<and> (\<forall>r \<in> set (extractInvestmentsWithAI parse api random messages). nonEmptyCompany r)"
proof (intro conjI ballI)
  fix r assume "r \<in> set (extractInvestmentData kToM messages)"
  then obtain m where p: "parseInvestmentData kToM m = Some r" and a: "accepted r"
    unfolding extractInvestmentData_iff by blast
  show "nonEmptyCompany r"
    using a by (auto simp: accepted_def nonEmptyCompany_def split: json.splits)
  from parseInvestmentData_cases [OF p]
  show "type r = Roundup \<longrightarrow> (\<exists>cs. company r = JArr (map JStr cs) \<and> cs \<noteq> [])"
  proof
    assume w: "r = parseWeeklyRoundup m"
    from parseWeeklyRoundup_fields(2) [of m] obtain cs where "company r = JArr (map JStr cs)"
      using w by blast
    then show ?thesis using a by (auto simp: accepted_def)
  next
    assume "parseSingle kToM m = Some r"
    then show ?thesis using parseSingle_fields(4) by blast
  qed
  from parseInvestmentData_cases [OF p]
  show "type r \<noteq> Roundup \<longrightarrow> (\<exists>c. company r = JStr c \<and> c \<noteq> [])"
  proof
    assume "r = parseWeeklyRoundup m"
    then show ?thesis using parseWeeklyRoundup_fields(1) by simp
  next
    assume "parseSingle kToM m = Some r"
    then show ?thesis using parseSingle_fields(1) by blast
  qed
next
  fix r assume "r \<in> set (extractInvestmentsWithAI parse api random messages)"
  then have "genAI_accepted r"
    using extractAIFrom_accepted [of r parse api random 0 messages]
    by (simp add: extractInvestmentsWithAI_def)
  then show "nonEmptyCompany r"
    by (auto simp: genAI_accepted_def nonEmptyCompany_def split: json.splits)
qed

lemma acme_parse:
  "\<exists>r. parseInvestmentData kToM acmeMessage = Some r \<and> company r = JStr (js ''Acme'')
       \<and> type r = Investment
       \<and> amount r = Some (JStr (js ''5M'')) \<and> valuation r = Some (JStr (js ''$5M''))"
proof -
  have t: "msgText acmeMessage = acmeText" by (simp add: acmeMessage_def)
  have na: "(str_includes acmeText (js ''acquired'') \<or> str_includes acmeText (js ''acquisition'')) = False"
    using acme_not_acquisition by simp
  have "\<exists>r. parseSingle kToM acmeMessage = Some r \<and> company r = JStr (js ''Acme'') \<and> type r = Investment"
    unfolding parseSingle_def t Let_def na acme_company by (simp add: js_def)
  then obtain r where r: "parseSingle kToM acmeMessage = Some r" "company r = JStr (js ''Acme'')"
      "type r = Investment" by blast
  have "parseInvestmentData kToM acmeMessage = Some r"
    using r(1) acme_prefilter acme_not_weekly acme_not_monthly by (simp add: parseInvestmentData_def t)
  moreover have "amount r = Some (JStr (js ''5M''))"
    using parseSingle_fields(2) [OF r(1)] by (simp add: t acme_amount)
  moreover have "valuation r = Some (JStr (js ''$5M''))"
    using parseSingle_fields(3) [OF r(1)] by (simp add: t acme_valuation)
  ultimately show ?thesis using r by blast
qed

lemma acme_emitted:
  "\<exists>r. extractInvestmentData kToM [acmeMessage] = [r] \<and> company r = JStr (js ''Acme'')
       \<and> type r = Investment
       \<and> amount r = Some (JStr (js ''5M'')) \<and> valuation r = Some (JStr (js ''$5M''))"
proof -
  from acme_parse [of kToM] obtain r where r: "parseInvestmentData kToM acmeMessage = Some r"
    "company r = JStr (js ''Acme'')" "type r = Investment" "amount r = Some (JStr (js ''5M''))"
    "valuation r = Some (JStr (js ''$5M''))" by blast
  have "accepted r" using r(2) by (simp add: accepted_def js_def)
  then have "extractInvestmentData kToM [acmeMessage] = [r]"
    using r(1) by (simp add: extractInvestmentData_def)
  then show ?thesis using r by blast
qed

theorem emitted_company_nonempty_witness:
  "extractInvestmentData (\<lambda>s. js ''0.00'') [acmeMessage] \<noteq> []
   \<and> nonEmptyCompany (hd (extractInvestmentData (\<lambda>s. js ''0.00'') [acmeMessage]))
   \<and> company (hd (extractInvestmentData (\<lambda>s. js ''0.00'') [acmeMessage])) = JStr (js ''Acme'')"
proof -
  from acme_emitted [of "\<lambda>s. js ''0.00''"] obtain r
    where r: "extractInvestmentData (\<lambda>s. js ''0.00'') [acmeMessage] = [r]" "company r = JStr (js ''Acme'')"
    by blast
  have "r \<in> set (extractInvestmentData (\<lambda>s. js ''0.00'') [acmeMessage])" using r(1) by simp
  then have "nonEmptyCompany r"
    using emitted_company_nonempty [of "\<lambda>s. js ''0.00''" "[acmeMessage]"] by blast
  then show ?thesis using r by simp
qed

text \<open>
  C4 at a message whose only funding word is \<open>raised\<close>: the pre-filter of
  \<open>parseInvestmentData\<close> looks for \<open>Round\<close>, \<open>acquired\<close>, \<open>Funding\<close> and \<open>$\<close> only and
  rejects the message, while the pre-filter of the AI engine, which also looks for
  \<open>raised\<close>, lets it pass.
\<close>

theorem prefilter_rejects_raised:
  "\<not> prefilter (js ''Acme raised 5 million'')
   \<and> (\<forall>kToM. parseInvestmentData kToM
          \<lparr>msgId = js ''2'', msgDate = js ''2025-05-01T00:00:00.000Z'', senderId = js ''7'',
           senderName = js ''news'', msgText = js ''Acme raised 5 million''\<rparr> = None)
   \<and> str_includes (js ''Acme raised 5 million'') (js ''raised'')
   \<and> genAI_prefilter (js ''Acme raised 5 million'')"
  by (simp add: prefilter_def parseInvestmentData_def genAI_prefilter_def js_def startsWith_def)

subsection \<open>Groups that every match sets\<close>

definition capKeys :: "mstate \<Rightarrow> nat set" where
  "capKeys s = fst ` set (caps s)"

lemma capKeys_clearCaps: "i \<notin> set (groupsOf a) \<Longrightarrow> i \<in> capKeys s \<Longrightarrow> i \<in> capKeys (clearCaps a s)"
  by (force simp: capKeys_def clearCaps_def)

lemma capKeys_setCap: "capKeys (setCap j s s1) = insert j (capKeys s1)"
  by (force simp: capKeys_def setCap_def)

lemma capKeys_step1: "s' \<in> set (step1 ok s) \<Longrightarrow> capKeys s' = capKeys s"
  using step1_rest [of s' ok s] by (auto simp: capKeys_def)

lemma capKeys_matchStr: "s' \<in> set (matchStr ci w s) \<Longrightarrow> capKeys s' = capKeys s"
  using matchStr_rest [of s' ci w s] by (auto simp: capKeys_def)

lemma rm_keeps:
  "s' \<in> set (rm ci r s) \<Longrightarrow> i \<notin> set (groupsOf r) \<Longrightarrow> i \<in> capKeys s \<Longrightarrow> i \<in> capKeys s'"
proof (induction ci r s arbitrary: s' rule: rm.induct)
  case (1 ci c s)
  then show ?case by (simp add: rm_atoms capKeys_step1)
next
  case (2 ci s)
  then show ?case by (simp add: rm_atoms capKeys_step1)
next
  case (3 ci neg items s)
  then show ?case by (simp add: rm_atoms capKeys_step1)
next
  case (4 ci w s)
  then show ?case by (simp add: rm_atoms capKeys_matchStr)
next
  case (5 ci s)
  then show ?case by (simp add: rm_atoms)
next
  case (6 ci a b s)
  from "6.prems"(1) obtain s1 where s1: "s1 \<in> set (rm ci a s)" and s': "s' \<in> set (rm ci b s1)"
    unfolding rm_Seq_iff by blast
  have "i \<in> capKeys s1" using "6.IH"(1) [OF s1] "6.prems"(2,3) by simp
  then show ?case using "6.IH"(2) [OF s1 s'] "6.prems"(2) by simp
next
  case (7 ci a b s)
  from "7.prems"(1) have "s' \<in> set (rm ci a s) \<or> s' \<in> set (rm ci b s)"
    unfolding rm_Alt_iff .
  then show ?case using "7.IH" "7.prems"(2,3) by auto
next
  case (8 ci a s)
  from "8.prems"(1) have "s' = s \<or> s' \<in> set (rm ci a (clearCaps a s))"
    unfolding rm_Opt_iff by blast
  then show ?case
  proof
    assume "s' = s"
    then show ?thesis using "8.prems"(3) by simp
  next
    assume "s' \<in> set (rm ci a (clearCaps a s))"
    from "8.IH" [OF this] show ?thesis
      using "8.prems"(2,3) by (simp add: capKeys_clearCaps)
  qed
next
  case (9 ci a s)
  from "9.prems"(1) have "s' = s \<or> (\<exists>s1 \<in> set (rm ci a (clearCaps a s)).
                 length (rest s1) < length (rest s) \<and> s' \<in> set (rm ci (Star a) s1))"
    by (subst (asm) rm_Star_iff)
  then show ?case
  proof
    assume "s' = s"
    then show ?thesis using "9.prems"(3) by simp
  next
    assume "\<exists>s1 \<in> set (rm ci a (clearCaps a s)).
                 length (rest s1) < length (rest s) \<and> s' \<in> set (rm ci (Star a) s1)"
    then obtain s1 where 2: "s1 \<in> set (rm ci a (clearCaps a s))" "length (rest s1) < length (rest s)"
        "s' \<in> set (rm ci (Star a) s1)" by blast
    have "i \<in> capKeys s1"
      using "9.IH"(1) [OF 2(1)] "9.prems"(2,3) by (simp add: capKeys_clearCaps)
    then show ?thesis using "9.IH"(2) [OF 2(1) 2(2) 2(3)] "9.prems"(2) by simp
  qed
next
  case (10 ci j a s)
  from "10.prems"(1) obtain s1 where s1: "s1 \<in> set (rm ci a s)" and e: "s' = setCap j s s1"
    unfolding rm_Grp_iff by blast
  have "i \<in> capKeys s1" using "10.IH" [OF s1] "10.prems"(2,3) by simp
  then show ?case using e by (simp add: capKeys_setCap)
next
  case (11 ci s)
  then show ?case by (auto simp: rm_atoms split: if_splits)
next
  case (12 ci s)
  then show ?case by (auto simp: rm_atoms split: if_splits)
next
  case (13 ci s)
  then show ?case by (auto simp: rm_atoms Let_def split: if_splits)
next
  case (14 ci n a s)
  from "14.prems"(1) have "s' = s \<or> (n \<noteq> 0 \<and> (\<exists>s1 \<in> set (rm ci a (clearCaps a s)).
                 length (rest s1) < length (rest s) \<and> s' \<in> set (rm ci (UpTo (n - 1) a) s1)))"
    by (subst (asm) rm_UpTo_iff)
  then show ?case
  proof
    assume "s' = s"
    then show ?thesis using "14.prems"(3) by simp
  next
    assume "n \<noteq> 0 \<and> (\<exists>s1 \<in> set (rm ci a (clearCaps a s)).
                 length (rest s1) < length (rest s) \<and> s' \<in> set (rm ci (UpTo (n - 1) a) s1))"
    then obtain s1 where 2: "n \<noteq> 0" "s1 \<in> set (rm ci a (clearCaps a s))"
        "length (rest s1) < length (rest s)" "s' \<in> set (rm ci (UpTo (n - 1) a) s1)" by blast
    have "i \<in> capKeys s1"
      using "14.IH"(1) [OF 2(1) 2(2)] "14.prems"(2,3) by (simp add: capKeys_clearCaps)
    then show ?thesis using "14.IH"(2) [OF 2(1) 2(2) 2(3) 2(4)] "14.prems"(2) by simp
  qed
qed

text \<open>A group is mandatory in an expression when every match passes through it and
  nothing after it clears it.\<close>

fun mandatory :: "nat \<Rightarrow> re \<Rightarrow> bool" where
  "mandatory i (Grp j a) = (i = j \<or> mandatory i a)"
| "mandatory i (Seq a b) = ((mandatory i a \<and> i \<notin> set (groupsOf b)) \<or> mandatory i b)"
| "mandatory i (Alt a b) = (mandatory i a \<and> mandatory i b)"
| "mandatory i _ = False"

lemma rm_sets: "s' \<in> set (rm ci r s) \<Longrightarrow> mandatory i r \<Longrightarrow> i \<in> capKeys s'"
proof (induction r arbitrary: s s')
  case (Seq a b)
  from Seq.prems(1) obtain s1 where s1: "s1 \<in> set (rm ci a s)" and s': "s' \<in> set (rm ci b s1)"
    unfolding rm_Seq_iff by blast
  from Seq.prems(2) consider "mandatory i b" | "mandatory i a" "i \<notin> set (groupsOf b)" by auto
  then show ?case
  proof cases
    case 1
    then show ?thesis using Seq.IH(2) [OF s'] by simp
  next
    case 2
    have "i \<in> capKeys s1" using Seq.IH(1) [OF s1 2(1)] .
    then show ?thesis using rm_keeps [OF s' 2(2)] by simp
  qed
next
  case (Alt a b)
  from Alt.prems(1) have "s' \<in> set (rm ci a s) \<or> s' \<in> set (rm ci b s)"
    unfolding rm_Alt_iff .
  then show ?case using Alt.IH Alt.prems(2) by auto
next
  case (Grp j a)
  from Grp.prems(1) obtain s1 where s1: "s1 \<in> set (rm ci a s)" and e: "s' = setCap j s s1"
    unfolding rm_Grp_iff by blast
  show ?case
  proof (cases "i = j")
    case True
    then show ?thesis using e by (simp add: capKeys_setCap)
  next
    case False
    then have "mandatory i a" using Grp.prems(2) by simp
    then have "i \<in> capKeys s1" using Grp.IH [OF s1] by simp
    then show ?thesis using e by (simp add: capKeys_setCap)
  qed
qed simp_all

lemma matchAt_sets:
  assumes "matchAt ci r p s = Some (mt, g)" "mandatory i r"
  shows "\<exists>w. map_of g i = Some w"
proof -
  from assms(1) obtain s' ss where rs: "rm ci r \<lparr>prev = p, rest = s, caps = []\<rparr> = s' # ss"
    and g: "g = caps s'"
    by (auto simp: matchAt_def split: list.splits)
  have "s' \<in> set (rm ci r \<lparr>prev = p, rest = s, caps = []\<rparr>)" using rs by simp
  from rm_sets [OF this assms(2)] have "i \<in> fst ` set g" using g by (simp add: capKeys_def)
  then show ?thesis by (cases "map_of g i") (auto simp: map_of_eq_None_iff)
qed

lemma scanFrom_sets:
  "scanFrom ci r p s k = Some m \<Longrightarrow> mandatory i r \<Longrightarrow> \<exists>w. group m i = Some w"
proof (induction s arbitrary: p k)
  case Nil
  show ?case
  proof (cases "matchAt ci r p []")
    case None
    then show ?thesis using Nil by simp
  next
    case (Some mg)
    then show ?thesis using Nil matchAt_sets [of ci r p "[]" "fst mg" "snd mg" i]
      by (cases mg) (auto simp: group_def)
  qed
next
  case (Cons x xs)
  show ?case
  proof (cases "matchAt ci r p (x # xs)")
    case None
    then show ?thesis using Cons by simp
  next
    case (Some mg)
    then show ?thesis using Cons.prems matchAt_sets [of ci r p "x # xs" "fst mg" "snd mg" i]
      by (cases mg) (auto simp: group_def)
  qed
qed

text \<open>The text of a mandatory group of the first match has the property of its group.\<close>

lemma exec_groupText:
  assumes "exec ci r s = Some m" "mandatory i r" "grpOK ci Q r"
  shows "Q i (groupText m i)"
proof -
  from scanFrom_sets [of ci r None s 0 m i] assms(1,2) obtain w where w: "group m i = Some w"
    by (auto simp: exec_def)
  from exec_group [OF assms(1) assms(3) w] show ?thesis using w by (simp add: groupText_def)
qed

text \<open>The text of any group of a match, when the empty text has the property too.\<close>

lemma capsOK_groupText:
  assumes "capsOK Q (groups m)" "Q i []"
  shows "Q i (groupText m i)"
proof (cases "group m i")
  case None
  then show ?thesis using assms(2) by (simp add: groupText_def)
next
  case (Some w)
  then have "(i, w) \<in> set (groups m)" by (simp add: group_def map_of_SomeD)
  then show ?thesis using assms(1) Some by (auto simp: capsOK_def groupText_def)
qed

lemma exec_capsOK: "exec ci r s = Some m \<Longrightarrow> grpOK ci Q r \<Longrightarrow> capsOK Q (groups m)"
  using scanFrom_caps [of ci r None s 0 m Q] by (simp add: exec_def)


lemma mandatory_Plus [simp]: "mandatory i (Plus r) = (mandatory i r \<and> i \<notin> set (groupsOf r) \<or> False)"
  by (simp add: Plus_def)

lemma groupsOf_Plus [simp]: "groupsOf (Plus r) = groupsOf r @ groupsOf r"
  by (simp add: Plus_def)

lemma grpOK_Plus [simp]: "grpOK ci Q (Plus r) = grpOK ci Q r"
  by (simp add: Plus_def)

subsection \<open>Numbers and units in the source's patterns\<close>

definition isNumChar :: "nat \<Rightarrow> bool" where
  "isNumChar c = (isDigit c \<or> c = 46)"

definition numberText :: "jstring \<Rightarrow> bool" where
  "numberText w = (w \<noteq> [] \<and> (\<forall>c \<in> set w. isNumChar c))"

lemma canonicalize_46: "canonicalize 46 = canonicalize c \<longleftrightarrow> c = 46"
  by (auto simp: canonicalize_def isLowerAZ_def split: if_splits)

lemma inClass_numChars: "inClass ci False [CDigit, CChar 46] c = isNumChar c"
  by (cases ci) (auto simp: inClass_def isNumChar_def canonicalize_46)

lemma rm_Plus_numChars:
  "s' \<in> set (rm ci (Plus numChars) s) \<Longrightarrow> numberText (consumed s s')"
  using rm_Plus_Cls [of s' ci False "[CDigit, CChar 46]" s]
  by (simp add: numChars_def numberText_def inClass_numChars)

lemma grpOK_numChars [simp]: "grpOK ci Q numChars"
  by (simp add: numChars_def)


text \<open>The letter of \<open>(M|B)\<close> under the \<open>i\<close> flag.\<close>

lemma rm_Lit_consumed:
  assumes "s' \<in> set (rm ci (Lit c) s)"
  shows "\<exists>x. consumed s s' = [x] \<and> inItem ci (CChar c) x"
proof -
  from assms have "s' \<in> set (step1 (inItem ci (CChar c)) s)" by (simp add: rm_atoms)
  from step1_rest [OF this] obtain x where "rest s = x # rest s'" "inItem ci (CChar c) x" by blast
  then show ?thesis by (auto simp: consumed_def)
qed

definition unitLetter :: "jstring \<Rightarrow> bool" where
  "unitLetter w = (w = [77] \<or> w = [66] \<or> w = [109] \<or> w = [98])"

lemma rm_unit:
  assumes "s' \<in> set (rm True (Alt (Lit 77) (Lit 66)) s)"
  shows "unitLetter (consumed s s')"
proof -
  from assms have "s' \<in> set (rm True (Lit 77) s) \<or> s' \<in> set (rm True (Lit 66) s)"
    unfolding rm_Alt_iff .
  then obtain x where x: "consumed s s' = [x]" "canonicalize 77 = canonicalize x \<or> canonicalize 66 = canonicalize x"
    using rm_Lit_consumed [of s' True 77 s] rm_Lit_consumed [of s' True 66 s] by auto
  then have "x = 77 \<or> x = 66 \<or> x = 109 \<or> x = 98"
    by (auto simp: canonicalize_def isLowerAZ_def split: if_splits)
  then show ?thesis using x(1) by (auto simp: unitLetter_def)
qed

lemma toUpperCase_unit: "unitLetter w \<Longrightarrow> toUpperCase w = [77] \<or> toUpperCase w = [66]"
  by (auto simp: unitLetter_def toUpperCase_def isLowerAZ_def)

text \<open>The groups of \<open>/\$\s*([\d\.]+)\s*(M|B)/i\<close>, \<open>/\$\s*([\d\.]+)\s*K/i\<close> and
  \<open>/Valuation:\s+\$?([\d\.]+)M/i\<close>.\<close>

definition millionsQ :: "nat \<Rightarrow> jstring \<Rightarrow> bool" where
  "millionsQ i w = (if i = 1 then numberText w else if i = 2 then unitLetter w else True)"

definition firstNumberQ :: "nat \<Rightarrow> jstring \<Rightarrow> bool" where
  "firstNumberQ i w = (if i = 1 then numberText w else True)"

lemma millionsRe_groups:
  assumes "exec True millionsRe s = Some m"
  shows "numberText (groupText m 1)" and "unitLetter (groupText m 2)"
proof -
  have ok: "grpOK True millionsQ millionsRe"
    by (simp add: millionsRe_def millionsQ_def ws_def rm_Plus_numChars rm_unit)
  have m1: "mandatory 1 millionsRe" and m2: "mandatory 2 millionsRe"
    by (simp_all add: millionsRe_def ws_def numChars_def)
  show "numberText (groupText m 1)"
    using exec_groupText [OF assms m1 ok] by (simp add: millionsQ_def)
  show "unitLetter (groupText m 2)"
    using exec_groupText [OF assms m2 ok] by (simp add: millionsQ_def)
qed

lemma thousandsRe_groups:
  assumes "exec True thousandsRe s = Some m"
  shows "numberText (groupText m 1)"
proof -
  have ok: "grpOK True firstNumberQ thousandsRe"
    by (simp add: thousandsRe_def firstNumberQ_def ws_def rm_Plus_numChars)
  have m1: "mandatory 1 thousandsRe"
    by (simp add: thousandsRe_def ws_def numChars_def)
  show ?thesis using exec_groupText [OF assms m1 ok] by (simp add: firstNumberQ_def)
qed


text \<open>What \<open>extractFundingAmount\<close> and \<open>extractValuation\<close> return.\<close>

lemma extractFundingAmount_shape:
  "extractFundingAmount kToM txt = js ''Undisclosed''
   \<or> (\<exists>ds u. extractFundingAmount kToM txt = ds @ [u] \<and> numberText ds \<and> (u = 77 \<or> u = 66))
   \<or> (\<exists>ds. extractFundingAmount kToM txt = kToM ds @ js ''M'' \<and> numberText ds)"
proof -
  let ?fl = "firstLineOf txt"
  have shape: "\<exists>ds u. groupText m 1 @ toUpperCase (groupText m 2) = ds @ [u] \<and> numberText ds
                  \<and> (u = 77 \<or> u = 66)"
    if "exec True millionsRe s = Some m" for s m
    using millionsRe_groups [OF that] toUpperCase_unit [of "groupText m 2"] by auto
  show ?thesis
  proof (cases "exec True millionsRe ?fl")
    case (Some m)
    then show ?thesis using shape [OF Some] by (simp add: extractFundingAmount_def Let_def)
  next
    case None
    note n1 = this
    show ?thesis
    proof (cases "exec True thousandsRe ?fl")
      case (Some k)
      then show ?thesis
        using n1 thousandsRe_groups [OF Some] by (auto simp: extractFundingAmount_def Let_def)
    next
      case None
      note n2 = this
      show ?thesis
      proof (cases "exec True millionsRe txt")
        case (Some m)
        then show ?thesis using n1 n2 shape [OF Some] by (simp add: extractFundingAmount_def Let_def)
      next
        case None
        then show ?thesis using n1 n2 by (simp add: extractFundingAmount_def Let_def)
      qed
    qed
  qed
qed


subsection \<open>The monetary strings of a record\<close>

text \<open>
  The strings a record holds in \<open>amount\<close> (a string, or for a roundup the strings of the
  list), in the \<open>amount\<close> of its nested acquisitions and in \<open>valuation\<close>. The AI engine
  copies values of other types as the model answered them; they are not strings and are
  not listed.
\<close>

definition strOf :: "json option \<Rightarrow> jstring list" where
  "strOf v = (case v of Some (JStr s) \<Rightarrow> [s] | _ \<Rightarrow> [])"


definition acqStrings :: "AcquisitionEntry list option \<Rightarrow> jstring list" where
  "acqStrings es = (case es of None \<Rightarrow> [] | Some xs \<Rightarrow> concat (map (\<lambda>e. strOf (acqAmount e)) xs))"




lemma strOf_simps [simp]:
  "strOf None = []" "strOf (Some (JStr s)) = [s]"
  by (simp_all add: strOf_def)



lemma acqStrings_None [simp]: "acqStrings None = []"
  by (simp add: acqStrings_def)


subsection \<open>Amounts of the rule-based engine\<close>

definition amountShape :: "jstring \<Rightarrow> bool" where
  "amountShape a = (\<exists>ds u. a = ds @ [u] \<and> numberText ds \<and> (u = 77 \<or> u = 66))"
















subsection \<open>Where the records of the AI engine come from\<close>

lemma retryWithDefaults_first: "fst (retryWithDefaults (\<lambda>i. Inr resp) rnd) = Inr resp"
  by (simp add: retryWithDefaults_def retry_def retry_loop.simps)

text \<open>One message whose answer holds a JSON text that parses to \<open>d\<close>.\<close>

lemma ai_single:
  assumes "genAI_prefilter (msgText m)"
    and "\<And>j. api 0 j = Inr (pre @ 123 # mid @ 125 # post)"
    and "123 \<notin> set pre" "125 \<notin> set post"
    and "parse (123 # mid @ [125]) = Some d"
    and "standardizeInvestmentData d (msgText m) (msgDate m)
           (test True genAI_roundupRe (msgText m)) = Inr r"
    and "genAI_accepted r"
  shows "extractInvestmentsWithAI parse api rnd [m] = [r]"
proof -
  let ?resp = "pre @ 123 # mid @ 125 # post"
  let ?isR = "test True genAI_roundupRe (msgText m)"
  have api: "api 0 = (\<lambda>j. Inr ?resp)" using assms(2) by (simp add: fun_eq_iff)
  have "extractInvestmentWithGemini parse (api 0) (rnd 0) m
          = catchReturnNull (processResponse parse ?resp (msgText m) (msgDate m) ?isR)"
    unfolding api by (rule extractInvestmentWithGemini_response [OF assms(1) retryWithDefaults_first])
  also have "\<dots> = Inr (normalized parse (123 # mid @ [125]) (msgText m) (msgDate m) ?isR)"
    by (rule processResponse_braces [OF assms(3,4)])
  also have "\<dots> = Inr (Some r)" using assms(5,6) by (simp add: normalized_def)
  finally show ?thesis using assms(7) by (simp add: extractInvestmentsWithAI_def)
qed

lemma extractInvestmentWithGemini_origin:
  assumes "extractInvestmentWithGemini parse api rnd m = Inr (Some r)"
  shows "\<exists>s d. parse s = Some d
           \<and> standardizeInvestmentData d (msgText m) (msgDate m)
                (test True genAI_roundupRe (msgText m)) = Inr r"
  using assms
  by (auto simp: extractInvestmentWithGemini_def Let_def catchReturnNull_def processResponse_def
      split: if_splits sum.splits option.splits)

lemma ai_origin:
  assumes "r \<in> set (extractInvestmentsWithAI parse api rnd ms)"
  obtains m s d where "m \<in> set ms" "parse s = Some d"
    "standardizeInvestmentData d (msgText m) (msgDate m)
       (test True genAI_roundupRe (msgText m)) = Inr r"
proof -
  from assms have "r \<in> set (extractAIFrom parse api rnd 0 ms)"
    by (simp add: extractInvestmentsWithAI_def)
  from extractAIFrom_accepted [OF this] obtain j m where
    m: "m \<in> set ms" "extractInvestmentWithGemini parse (api j) (rnd j) m = Inr (Some r)" by blast
  from extractInvestmentWithGemini_origin [OF m(2)] obtain s d where
    "parse s = Some d"
    "standardizeInvestmentData d (msgText m) (msgDate m)
       (test True genAI_roundupRe (msgText m)) = Inr r"
    by (elim exE conjE)
  then show thesis using that m(1) by simp
qed

subsection \<open>The normalisation of the AI engine, field by field\<close>

lemma addOptionalFields_fields:
  "company (addOptionalFields d r) = company r"
  "amount (addOptionalFields d r) = amount r"
  "type (addOptionalFields d r) = type r"
  "acquisitions (addOptionalFields d r) = acquisitions r"
  "acquisitionsInRoundup (addOptionalFields d r) = acquisitionsInRoundup r"
  "valuation (addOptionalFields d r)
     = (if truthy (getProp d (js ''valuation'')) then stripIfString (getProp d (js ''valuation''))
        else None)"
  by (simp_all add: addOptionalFields_def)

lemma replaceDollarOf_Inr:
  "replaceDollarOf v = Inr a \<Longrightarrow>
     a = None \<or> (\<exists>s. v = Some (JStr s) \<and> truthy v \<and> a = Some (JStr (stripDollar s)))"
  by (auto simp: replaceDollarOf_def split: if_splits option.splits json.splits)



lemma standardizeRoundup_Inr:
  assumes "standardizeRoundup d base = Inr r"
  shows "type r = type base \<and> valuation r = valuation base \<and> acquisitions r = acquisitions base
     \<and> (amount r = amount base \<or> amount r = None
          \<or> (\<exists>cs ams. getProp d (js ''company'') = Some (JArr cs)
                \<and> getProp d (js ''amount'') = Some (JArr ams)
                \<and> company r = JArr cs \<and> amount r = Some (JArr (map standardizeAmountItem ams))))
     \<and> (acquisitionsInRoundup r = None
          \<or> (\<exists>acqs es. getProp d (js ''acquisitions'') = Some (JArr acqs)
                \<and> mapE roundupAcquisition acqs = Inr es \<and> acquisitionsInRoundup r = Some es))"
proof -
  define am where "am = (case getProp d (js ''amount'') of
                Some (JArr ams) \<Rightarrow>
                  if ams \<noteq> [] then Some (JArr (map standardizeAmountItem ams)) else None
              | _ \<Rightarrow> None)"
  define r1 where "r1 = (case getProp d (js ''company'') of
                Some (JArr cs) \<Rightarrow>
                  if cs \<noteq> [] then base\<lparr>company := JArr cs, amount := am\<rparr>
                  else base\<lparr>company := JStr (js ''Weekly Investment Roundup'')\<rparr>
              | _ \<Rightarrow> base\<lparr>company := JStr (js ''Weekly Investment Roundup'')\<rparr>)"
  define aqs where "aqs = (case getProp d (js ''acquisitions'') of
                Some (JArr acqs) \<Rightarrow>
                  if acqs \<noteq> [] then
                    (case mapE roundupAcquisition acqs of Inl e \<Rightarrow> Inl e | Inr es \<Rightarrow> Inr (Some es))
                  else Inr None
              | _ \<Rightarrow> Inr None)"
  have eq: "standardizeRoundup d base
              = (case aqs of
                   Inl e \<Rightarrow> Inl e
                 | Inr aq \<Rightarrow> Inr (r1\<lparr>acquisitionsInRoundup := aq, isPartOfRoundup := Some True\<rparr>))"
    unfolding standardizeRoundup_def Let_def am_def r1_def aqs_def ..
  obtain aq where aq: "aqs = Inr aq"
    and r: "r = r1\<lparr>acquisitionsInRoundup := aq, isPartOfRoundup := Some True\<rparr>"
    using assms unfolding eq by (cases aqs) auto
  have am: "am = None \<or> (\<exists>ams. getProp d (js ''amount'') = Some (JArr ams)
                              \<and> am = Some (JArr (map standardizeAmountItem ams)))"
    unfolding am_def by (auto split: option.splits json.splits)
  have p1: "type r1 = type base \<and> valuation r1 = valuation base
              \<and> acquisitions r1 = acquisitions base
              \<and> (amount r1 = amount base
                   \<or> (\<exists>cs. getProp d (js ''company'') = Some (JArr cs) \<and> company r1 = JArr cs
                             \<and> amount r1 = am))"
    unfolding r1_def by (auto split: option.splits json.splits)
  have p2: "aq = None \<or> (\<exists>acqs es. getProp d (js ''acquisitions'') = Some (JArr acqs)
                              \<and> mapE roundupAcquisition acqs = Inr es \<and> aq = Some es)"
    using aq unfolding aqs_def by (auto split: option.splits json.splits if_splits sum.splits)
  have f: "type r = type r1" "valuation r = valuation r1" "acquisitions r = acquisitions r1"
    "amount r = amount r1" "company r = company r1" "acquisitionsInRoundup r = aq"
    unfolding r by simp_all
  show ?thesis unfolding f using p1 p2 am by blast
qed

text \<open>The values the amount of an acquisition or an investment is taken from.\<close>

definition modelAmounts :: "json \<Rightarrow> json option list" where
  "modelAmounts d =
     getProp d (js ''amount'')
       # (case getProp d (js ''acquisitions'') of
            Some (JArr acqs) \<Rightarrow> (case acqs of [] \<Rightarrow> [] | a0 # _ \<Rightarrow> [getProp a0 (js ''amount'')])
          | Some (JObj kvs) \<Rightarrow> [getProp (JObj kvs) (js ''amount'')]
          | _ \<Rightarrow> [])"

lemma fromAcquisition_Inr:
  assumes "fromAcquisition a r0 = Inr r"
  shows "type r = type r0 \<and> valuation r = valuation r0 \<and> acquisitions r = acquisitions r0
     \<and> acquisitionsInRoundup r = acquisitionsInRoundup r0
     \<and> (amount r = amount r0
          \<or> (truthy (getProp a (js ''amount'')) \<and> amount r = stripIfString (getProp a (js ''amount''))))"
proof -
  from assms obtain v where v: "replaceDollarOf (getProp a (js ''amount'')) = Inr v"
    by (cases a) (auto simp: fromAcquisition_def split: sum.splits)
  from replaceDollarOf_Inr [OF v] show ?thesis
    using assms v by (cases a) (auto simp: fromAcquisition_def stripIfString_def split: option.splits)
qed

lemma directAmount_cases:
  "directAmount d = None
    \<or> (truthy (getProp d (js ''amount'')) \<and> directAmount d = stripIfString (getProp d (js ''amount'')))"
  by (simp add: directAmount_def)

lemma standardizeAcquisition_Inr:
  assumes "standardizeAcquisition d base = Inr r"
    and "amount base = None"
  shows "type r = type base \<and> valuation r = valuation base \<and> acquisitions r = acquisitions base
     \<and> acquisitionsInRoundup r = acquisitionsInRoundup base
     \<and> (amount r = None \<or> (\<exists>v \<in> set (modelAmounts d). truthy v \<and> amount r = stripIfString v))"
proof -
  let ?r0 = "base\<lparr>company := orEmpty (getProp d (js ''company''))\<rparr>"
  have r0: "type ?r0 = type base" "valuation ?r0 = valuation base" "acquisitions ?r0 = acquisitions base"
    "acquisitionsInRoundup ?r0 = acquisitionsInRoundup base" "amount ?r0 = None"
    using assms(2) by simp_all
  consider (empty) "getProp d (js ''acquisitions'') = Some (JArr [])" "r = ?r0"
    | (first) a0 rest' where "getProp d (js ''acquisitions'') = Some (JArr (a0 # rest'))"
        "fromAcquisition a0 ?r0 = Inr r"
    | (object) kvs where "getProp d (js ''acquisitions'') = Some (JObj kvs)"
        "fromAcquisition (JObj kvs) ?r0 = Inr r"
    | (direct) "r = ?r0\<lparr>acquirer := getProp d (js ''acquirer''), amount := directAmount d\<rparr>"
    using assms(1)
    by (auto simp: standardizeAcquisition_def Let_def split: option.splits json.splits list.splits)
  then show ?thesis
  proof cases
    case empty
    then show ?thesis using r0 by simp
  next
    case first
    from fromAcquisition_Inr [OF first(2)] show ?thesis
      using r0 first(1) by (auto simp: modelAmounts_def)
  next
    case object
    from fromAcquisition_Inr [OF object(2)] show ?thesis
      using r0 object(1) by (auto simp: modelAmounts_def)
  next
    case direct
    then show ?thesis
      using r0 directAmount_cases [of d] by (auto simp: modelAmounts_def)
  qed
qed

lemma standardizeInvestmentData_Inr:
  assumes "standardizeInvestmentData d rawTxt dt isR = Inr r"
  obtains base r0 where "r = addOptionalFields d r0" "amount base = None" "valuation base = None"
     "acquisitions base = None" "acquisitionsInRoundup base = None"
     "(type base = Roundup \<and> standardizeRoundup d base = Inr r0)
      \<or> (type base = Acquisition \<and> standardizeAcquisition d base = Inr r0)
      \<or> (type base = Investment \<and> r0 = standardizeInvestment d base)"
proof -
  define ty where "ty = (if isR then Roundup
              else if truthy (getProp d (js ''acquisitions'')) \<or> truthy (getProp d (js ''acquirer''))
                      \<or> str_includes (toLowerCase rawTxt) (js ''acquired'')
                      \<or> str_includes (toLowerCase rawTxt) (js ''acquisition'')
                   then Acquisition
              else Investment)"
  define base where "base = \<lparr>company = JStr [], amount = None, round = None, investors = None,
                 investorDetails = None, type = ty, date = dt, valuation = None,
                 links = None, rawText = rawTxt, isPartOfRoundup = None,
                 acquisitions = None, acquirer = None, about = None,
                 acquisitionsInRoundup = None\<rparr>"
  define body where "body = (case ty of
                  Roundup \<Rightarrow> standardizeRoundup d base
                | Acquisition \<Rightarrow> standardizeAcquisition d base
                | Investment \<Rightarrow> Inr (standardizeInvestment d base))"
  have nn: "d \<noteq> JNull" using assms by (auto simp: standardizeInvestmentData_def)
  have eq: "standardizeInvestmentData d rawTxt dt isR
              = (case body of Inl e \<Rightarrow> Inl e | Inr r \<Rightarrow> Inr (addOptionalFields d r))"
    using nn unfolding standardizeInvestmentData_def Let_def body_def base_def ty_def
    by (cases d) simp_all
  obtain r0 where r0: "body = Inr r0" "r = addOptionalFields d r0"
    using assms unfolding eq by (cases body) auto
  have b: "amount base = None" "valuation base = None" "acquisitions base = None"
    "acquisitionsInRoundup base = None" "type base = ty" by (simp_all add: base_def)
  have "(type base = Roundup \<and> standardizeRoundup d base = Inr r0)
      \<or> (type base = Acquisition \<and> standardizeAcquisition d base = Inr r0)
      \<or> (type base = Investment \<and> r0 = standardizeInvestment d base)"
    using r0(1) unfolding body_def b(5) by (cases ty) simp_all
  then show thesis using that [OF r0(2) b(1-4)] by blast
qed

text \<open>A roundup of the AI engine: the lists are the model's.\<close>

lemma ai_roundup_lists:
  assumes "standardizeInvestmentData d rawTxt dt isR = Inr r" "type r = Roundup"
  shows "amount r = None
     \<or> (\<exists>cs ams. getProp d (js ''company'') = Some (JArr cs)
           \<and> getProp d (js ''amount'') = Some (JArr ams)
           \<and> company r = JArr cs \<and> amount r = Some (JArr (map standardizeAmountItem ams)))"
proof -
  from assms(1) obtain base r0 where f: "r = addOptionalFields d r0" "amount base = None"
     "(type base = Roundup \<and> standardizeRoundup d base = Inr r0)
      \<or> (type base = Acquisition \<and> standardizeAcquisition d base = Inr r0)
      \<or> (type base = Investment \<and> r0 = standardizeInvestment d base)"
    by (rule standardizeInvestmentData_Inr)
  have t: "type r0 = Roundup" using assms(2) f(1) by (simp add: addOptionalFields_fields)
  from f(3) have "standardizeRoundup d base = Inr r0"
  proof (elim disjE conjE)
    assume "type base = Acquisition" "standardizeAcquisition d base = Inr r0"
    then show ?thesis using standardizeAcquisition_Inr [OF _ f(2), of d r0] t by simp
  next
    assume "type base = Investment" "r0 = standardizeInvestment d base"
    then show ?thesis using t by (simp add: standardizeInvestment_def)
  qed
  from standardizeRoundup_Inr [OF this] show ?thesis
    using f(1,2) by (auto simp: addOptionalFields_fields)
qed

text \<open>Any other record of the AI engine: the amount is a truthy value of the model, less
  its first \<open>$\<close> when it is a string.\<close>

lemma ai_amount_source:
  assumes "standardizeInvestmentData d rawTxt dt isR = Inr r" "type r \<noteq> Roundup"
  shows "amount r = None \<or> (\<exists>v \<in> set (modelAmounts d). truthy v \<and> amount r = stripIfString v)"
proof -
  from assms(1) obtain base r0 where f: "r = addOptionalFields d r0" "amount base = None"
     "(type base = Roundup \<and> standardizeRoundup d base = Inr r0)
      \<or> (type base = Acquisition \<and> standardizeAcquisition d base = Inr r0)
      \<or> (type base = Investment \<and> r0 = standardizeInvestment d base)"
    by (rule standardizeInvestmentData_Inr)
  have t: "type r0 \<noteq> Roundup" using assms(2) f(1) by (simp add: addOptionalFields_fields)
  have a: "amount r = amount r0" using f(1) by (simp add: addOptionalFields_fields)
  from f(3) show ?thesis
  proof (elim disjE conjE)
    assume "type base = Roundup" "standardizeRoundup d base = Inr r0"
    then show ?thesis using standardizeRoundup_Inr [of d base r0] t by simp
  next
    assume "type base = Acquisition" "standardizeAcquisition d base = Inr r0"
    then show ?thesis using standardizeAcquisition_Inr [OF _ f(2), of d r0] a by simp
  next
    assume "type base = Investment" "r0 = standardizeInvestment d base"
    then have "amount r = directAmount d" using a by (simp add: standardizeInvestment_def)
    then show ?thesis using directAmount_cases [of d] by (auto simp: modelAmounts_def)
  qed
qed

subsection \<open>The shape of a record of the AI engine\<close>


subsection \<open>Currency symbols in the AI engine\<close>













subsection \<open>More samples\<close>

text \<open>None of the sample messages has an amount in thousands, so the conversion of
  thousands is never applied to them; \<open>noThousands\<close> stands for it.\<close>

definition noThousands :: "jstring \<Rightarrow> jstring" where
  "noThousands s = js ''0.00''"

definition noJitters :: "nat \<Rightarrow> nat \<Rightarrow> real" where
  "noJitters i = noJitter"

definition fooServices :: "nat \<Rightarrow> nat \<Rightarrow> thrown + jstring" where
  "fooServices i = fooService"

text \<open>An announcement whose amount is followed by a full stop and a word in \<open>M\<close>.\<close>

definition dotText :: jstring where
  "dotText = js ''Acme Seed Round'' @ [10] @ js ''Raised $5. More soon.''"

definition dotMessage :: TelegramMessage where
  "dotMessage = \<lparr>msgId = js ''3'', msgDate = js ''2025-05-01T00:00:00.000Z'', senderId = js ''7'',
                  senderName = js ''news'', msgText = dotText\<rparr>"

text \<open>A weekly roundup of one line.\<close>

definition roundupText :: jstring where
  "roundupText = js ''Top 5 Rounds of This Week'' @ [10] @ js ''Acme - $5M''"

definition roundupMessage :: TelegramMessage where
  "roundupMessage = \<lparr>msgId = js ''4'', msgDate = js ''2025-05-01T00:00:00.000Z'', senderId = js ''7'',
                      senderName = js ''news'', msgText = roundupText\<rparr>"

text \<open>A roundup for the AI engine, answered with
  \<open>{"company":["Acme","Beta"],"amount":["$1M"]}\<close>.\<close>

definition topMessage :: TelegramMessage where
  "topMessage = \<lparr>msgId = js ''5'', msgDate = js ''2025-05-01T00:00:00.000Z'', senderId = js ''7'',
                  senderName = js ''news'', msgText = js ''Top 5 Rounds''\<rparr>"

definition twoJson :: jstring where
  "twoJson =
     js ''{'' @ quoted ''company'' @ js '':['' @ quoted ''Acme'' @ js '','' @ quoted ''Beta'' @ js ''],''
       @ quoted ''amount'' @ js '':['' @ quoted ''$1M'' @ js '']}''"

definition twoObject :: json where
  "twoObject =
     JObj [(js ''company'', JArr [JStr (js ''Acme''), JStr (js ''Beta'')]),
           (js ''amount'', JArr [JStr (js ''$1M'')])]"

definition twoParse :: "jstring \<Rightarrow> json option" where
  "twoParse s = (if s = twoJson then Some twoObject else None)"

definition twoServices :: "nat \<Rightarrow> nat \<Rightarrow> thrown + jstring" where
  "twoServices i j = Inr twoJson"

definition twoRecord :: InvestmentData where
  "twoRecord =
     \<lparr>company = JArr [JStr (js ''Acme''), JStr (js ''Beta'')], amount = Some (JArr [JStr (js ''1M'')]),
      round = None, investors = None, investorDetails = None, type = Roundup,
      date = js ''2025-05-01T00:00:00.000Z'', valuation = None, links = None,
      rawText = js ''Top 5 Rounds'', isPartOfRoundup = Some True, acquisitions = None,
      acquirer = None, about = None, acquisitionsInRoundup = None\<rparr>"

text \<open>The message \<open>Foo raised $5M\<close>, answered with \<open>{"company":"Foo","amount":"$5M-$10M"}\<close>.\<close>

definition rangeJson :: jstring where
  "rangeJson =
     js ''{'' @ quoted ''company'' @ js '':'' @ quoted ''Foo'' @ js '','' @ quoted ''amount'' @ js '':''
       @ quoted ''$5M-$10M'' @ js ''}''"

definition rangeObject :: json where
  "rangeObject = JObj [(js ''company'', JStr (js ''Foo'')), (js ''amount'', JStr (js ''$5M-$10M''))]"

definition rangeParse :: "jstring \<Rightarrow> json option" where
  "rangeParse s = (if s = rangeJson then Some rangeObject else None)"

definition rangeServices :: "nat \<Rightarrow> nat \<Rightarrow> thrown + jstring" where
  "rangeServices i j = Inr rangeJson"

definition rangeRecord :: InvestmentData where
  "rangeRecord =
     \<lparr>company = JStr (js ''Foo''), amount = Some (JStr (js ''5M-$10M'')), round = None,
      investors = None, investorDetails = None, type = Investment,
      date = js ''2025-05-01T00:00:00.000Z'', valuation = None, links = None,
      rawText = js ''Foo raised $5M'', isPartOfRoundup = None, acquisitions = None,
      acquirer = None, about = None, acquisitionsInRoundup = None\<rparr>"

subsection \<open>What the engines make of the samples\<close>

lemma single_emitted:
  assumes "prefilter (msgText m)" "\<not> isWeeklyRoundup (msgText m)" "\<not> isMonthlyRoundup (msgText m)"
    and "str_includes (msgText m) (js ''acquired'') = False"
    and "str_includes (msgText m) (js ''acquisition'') = False"
    and "extractCompanyName (msgText m) False = c" "c \<noteq> []" "c \<noteq> js ''Alt''"
  shows "\<exists>r. extractInvestmentData kToM [m] = [r] \<and> company r = JStr c \<and> type r = Investment
           \<and> amount r = Some (JStr (extractFundingAmount kToM (msgText m)))
           \<and> valuation r = map_option JStr (extractValuation (msgText m))"
proof -
  have "\<exists>r. parseSingle kToM m = Some r \<and> company r = JStr c \<and> type r = Investment"
    unfolding parseSingle_def Let_def assms(4,5) using assms(6,7,8) by simp
  then obtain r where r: "parseSingle kToM m = Some r" "company r = JStr c" "type r = Investment"
    by blast
  have p: "parseInvestmentData kToM m = Some r"
    using r(1) assms(1,2,3) by (simp add: parseInvestmentData_def)
  have "accepted r" using r(2) assms(7) by (simp add: accepted_def)
  then have "extractInvestmentData kToM [m] = [r]"
    using p by (simp add: extractInvestmentData_def)
  then show ?thesis using r(2,3) parseSingle_fields(2,3) [OF r(1)] by blast
qed

lemma dot_company: "extractCompanyName dotText False = js ''Acme''"
  by (simp add: extractCompanyName_def companyFromAbout_def companyFromFirstLine_def
      titleWithAmount_def titleWithRound_def aboutRe_def nameGroup_def roundWords_def titlePrefix_def
      dotText_def re_eval)

lemma dot_amount: "extractFundingAmount kToM dotText = js ''5.M''"
  by (simp add: extractFundingAmount_def millionsRe_def thousandsRe_def toUpperCase_def
      dotText_def re_eval)

lemma dot_emitted:
  "\<exists>r. extractInvestmentData kToM [dotMessage] = [r] \<and> type r = Investment
       \<and> amount r = Some (JStr (js ''5.M''))"
proof -
  have t: "msgText dotMessage = dotText" by (simp add: dotMessage_def)
  have 1: "prefilter (msgText dotMessage)"
    by (simp add: t prefilter_def dotText_def js_def startsWith_def)
  have 2: "\<not> isWeeklyRoundup (msgText dotMessage)"
    by (simp add: t isWeeklyRoundup_def roundupIndicators_def dotText_def re_eval)
  have 3: "\<not> isMonthlyRoundup (msgText dotMessage)"
    by (simp add: t isMonthlyRoundup_def dotText_def js_def startsWith_def)
  have 4: "str_includes (msgText dotMessage) (js ''acquired'') = False"
    by (simp add: t dotText_def js_def startsWith_def)
  have 5: "str_includes (msgText dotMessage) (js ''acquisition'') = False"
    by (simp add: t dotText_def js_def startsWith_def)
  have 6: "extractCompanyName (msgText dotMessage) False = js ''Acme''"
    by (simp add: t dot_company)
  have 7: "js ''Acme'' \<noteq> []" "js ''Acme'' \<noteq> js ''Alt''" by (simp_all add: js_def)
  from single_emitted [OF 1 2 3 4 5 6 7, of kToM] show ?thesis
    by (auto simp: t dot_amount)
qed

lemma roundup_lines:
  "splitChar 10 roundupText = [js ''Top 5 Rounds of This Week'', js ''Acme - $5M'']"
  by (simp add: roundupText_def js_def)

lemma roundup_header_line: "roundupLine (js ''Top 5 Rounds of This Week'') = None"
  by (simp add: roundupLine_def js_def startsWith_def)

lemma roundup_acme_line: "roundupLine (js ''Acme - $5M'') = Some (js ''Acme -'', js ''5M'')"
  by (simp add: roundupLine_def matchedLine_def patterns_def dashLinePattern_def dashes_def
      leadingNonWord_def unitSuffix_def toLowerCase_def lowerUnit_def indexOf_def substring_def
      Let_def re_eval)

lemma roundup_emitted:
  "extractInvestmentData kToM [roundupMessage] = [parseWeeklyRoundup roundupMessage]"
proof -
  have t: "msgText roundupMessage = roundupText" by (simp add: roundupMessage_def)
  have 1: "prefilter roundupText"
    by (simp add: prefilter_def roundupText_def js_def startsWith_def)
  have 2: "isWeeklyRoundup roundupText"
    by (simp add: isWeeklyRoundup_def roundupIndicators_def roundupText_def re_eval)
  have p: "parseInvestmentData kToM roundupMessage = Some (parseWeeklyRoundup roundupMessage)"
    using 1 2 by (simp add: parseInvestmentData_def t)
  have "foldl pushLine ([], []) (splitChar 10 roundupText) = ([js ''Acme -''], [js ''5M''])"
    by (simp add: roundup_lines pushLine_def roundup_header_line roundup_acme_line)
  then have "company (parseWeeklyRoundup roundupMessage) = JArr [JStr (js ''Acme -'')]"
    using parseWeeklyRoundup_fields(2) [of roundupMessage] by (auto simp: t)
  then have "accepted (parseWeeklyRoundup roundupMessage)" by (simp add: accepted_def)
  then show ?thesis using p by (simp add: extractInvestmentData_def)
qed

lemma top_prefilter: "genAI_prefilter (msgText topMessage)"
  by (simp add: genAI_prefilter_def topMessage_def js_def startsWith_def)

lemma top_is_roundup: "test True genAI_roundupRe (msgText topMessage) = True"
  by (simp add: genAI_roundupRe_def topMessage_def ws_def digit_def engine_defs rm.simps)

lemma two_standardized:
  "standardizeInvestmentData twoObject (msgText topMessage) (msgDate topMessage)
     (test True genAI_roundupRe (msgText topMessage)) = Inr twoRecord"
  unfolding top_is_roundup
  by (simp add: standardizeInvestmentData_def standardizeRoundup_def addOptionalFields_def
      standardizeAmountItem_def stripDollar_def trim_def isSpace_def
      twoObject_def twoRecord_def topMessage_def getProp_def truthy_def Let_def js_def)

lemma two_emitted: "extractInvestmentsWithAI twoParse twoServices noJitters [topMessage] = [twoRecord]"
proof -
  have api: "twoServices 0 j = Inr ([] @ 123 # tl (butlast twoJson) @ 125 # [])" for j
    by (simp add: twoServices_def twoJson_def quoted_def js_def)
  have mid: "123 # tl (butlast twoJson) @ [125] = twoJson" by (simp add: twoJson_def quoted_def js_def)
  have p: "twoParse (123 # tl (butlast twoJson) @ [125]) = Some twoObject"
    unfolding mid by (simp add: twoParse_def)
  have acc: "genAI_accepted twoRecord" by (simp add: genAI_accepted_def twoRecord_def)
  show ?thesis
    by (rule ai_single [where api = twoServices and pre = "[]" and mid = "tl (butlast twoJson)"
          and post = "[]" and parse = twoParse, OF top_prefilter api _ _ p two_standardized acc])
      simp_all
qed

lemma range_standardized:
  "standardizeInvestmentData rangeObject (msgText fooMessage) (msgDate fooMessage)
     (test True genAI_roundupRe (msgText fooMessage)) = Inr rangeRecord"
  unfolding foo_not_roundup
  by (simp add: standardizeInvestmentData_def standardizeInvestment_def addOptionalFields_def
      rangeObject_def rangeRecord_def fooMessage_def getProp_def truthy_def orEmpty_def directAmount_def
      stripIfString_def stripDollar_def Let_def toLowerCase_def
      lowerUnit_def isUpperAZ_def js_def startsWith_def)

lemma range_emitted:
  "extractInvestmentsWithAI rangeParse rangeServices noJitters [fooMessage] = [rangeRecord]"
proof -
  have api: "rangeServices 0 j = Inr ([] @ 123 # tl (butlast rangeJson) @ 125 # [])" for j
    by (simp add: rangeServices_def rangeJson_def quoted_def js_def)
  have mid: "123 # tl (butlast rangeJson) @ [125] = rangeJson"
    by (simp add: rangeJson_def quoted_def js_def)
  have p: "rangeParse (123 # tl (butlast rangeJson) @ [125]) = Some rangeObject"
    unfolding mid by (simp add: rangeParse_def)
  have acc: "genAI_accepted rangeRecord" by (simp add: genAI_accepted_def rangeRecord_def js_def)
  show ?thesis
    by (rule ai_single [where api = rangeServices and pre = "[]" and mid = "tl (butlast rangeJson)"
          and post = "[]" and parse = rangeParse, OF foo_prefilter api _ _ p range_standardized acc])
      simp_all
qed

lemma foo_emitted:
  "extractInvestmentsWithAI fooParse fooServices noJitters [fooMessage] = [fooRecord]"
proof -
  have api: "fooServices 0 j
               = Inr (js ''Sure! Here is the data: '' @ 123 # tl (butlast fooJson) @ 125 # js '' Thanks'')" for j
    by (simp add: fooServices_def fooService_def fooResponse_def fooJson_def quoted_def js_def)
  have mid: "123 # tl (butlast fooJson) @ [125] = fooJson" by (simp add: fooJson_def quoted_def js_def)
  have p: "fooParse (123 # tl (butlast fooJson) @ [125]) = Some fooObject"
    unfolding mid by (simp add: fooParse_def)
  have acc: "genAI_accepted fooRecord" by (simp add: genAI_accepted_def fooRecord_def js_def)
  show ?thesis
    by (rule ai_single [where api = fooServices and pre = "js ''Sure! Here is the data: ''"
          and mid = "tl (butlast fooJson)" and post = "js '' Thanks''" and parse = fooParse,
          OF foo_prefilter api _ _ p foo_standardized acc])
      (simp_all add: js_def)
qed

lemma fooParse_Some: "fooParse s = Some d \<Longrightarrow> d = fooObject"
  by (simp add: fooParse_def split: if_splits)

lemma twoParse_Some: "twoParse s = Some d \<Longrightarrow> d = twoObject"
  by (simp add: twoParse_def split: if_splits)

subsection \<open>Roundup lists (C2)\<close>

text \<open>The property in the words of the specification: when the record carries an
  \<open>amount\<close>, \<open>company\<close> and \<open>amount\<close> are lists of equal length.\<close>

definition equalLengthLists :: "json \<Rightarrow> json \<Rightarrow> bool" where
  "equalLengthLists c a =
     (case c of JArr cs \<Rightarrow> (case a of JArr ams \<Rightarrow> length cs = length ams | _ \<Rightarrow> False) | _ \<Rightarrow> False)"

definition roundupListsAgree :: "InvestmentData \<Rightarrow> bool" where
  "roundupListsAgree r = (case amount r of None \<Rightarrow> True | Some a \<Rightarrow> equalLengthLists (company r) a)"

text \<open>
  C2, as stated, for the AI engine. It fails on the message \<open>Top 5 Rounds\<close> answered with
  \<open>{"company":["Acme","Beta"],"amount":["$1M"]}\<close>: the engine emits a roundup with two
  companies and one amount.
\<close>

theorem roundup_lists_counterexample:
  "map type (extractInvestmentsWithAI twoParse twoServices noJitters [topMessage]) = [Roundup]
   \<and> map company (extractInvestmentsWithAI twoParse twoServices noJitters [topMessage])
       = [JArr [JStr (js ''Acme''), JStr (js ''Beta'')]]
   \<and> map amount (extractInvestmentsWithAI twoParse twoServices noJitters [topMessage])
       = [Some (JArr [JStr (js ''1M'')])]
   \<and> map roundupListsAgree (extractInvestmentsWithAI twoParse twoServices noJitters [topMessage])
       = [False]"
  by (simp add: two_emitted twoRecord_def roundupListsAgree_def equalLengthLists_def)

text \<open>
  C2, amended. Every roundup the rule-based engine emits has a list of companies and a
  list of amounts of equal length. Every roundup the AI engine emits with an \<open>amount\<close>
  has the model's \<open>company\<close> array as its company and one amount for each entry of the
  model's \<open>amount\<close> array (a string trimmed and without its first \<open>$\<close>, any other value
  as it is); the engine does not compare the two arrays, so the lists have equal length
  exactly when the arrays of the model's answer have.
\<close>

theorem roundup_lists:
  "(\<forall>r \<in> set (extractInvestmentData kToM messages).
       type r = Roundup \<longrightarrow>
         (\<exists>cs ams. company r = JArr (map JStr cs) \<and> amount r = Some (JArr (map JStr ams))
             \<and> length cs = length ams)
         \<and> roundupListsAgree r)
   \<and> (\<forall>r \<in> set (extractInvestmentsWithAI parse api random messages).
         type r = Roundup \<longrightarrow>
           amount r = None
           \<or> (\<exists>d cs ams. (\<exists>s. parse s = Some d)
                 \<and> getProp d (js ''company'') = Some (JArr cs)
                 \<and> getProp d (js ''amount'') = Some (JArr ams)
                 \<and> company r = JArr cs
                 \<and> amount r = Some (JArr (map standardizeAmountItem ams))
                 \<and> roundupListsAgree r = (length cs = length ams)))"
proof (intro conjI ballI impI)
  fix r assume r: "r \<in> set (extractInvestmentData kToM messages)" and t: "type r = Roundup"
  from r obtain m where m: "parseInvestmentData kToM m = Some r"
    unfolding extractInvestmentData_iff by blast
  from parseInvestmentData_cases [OF m] have "r = parseWeeklyRoundup m"
    using parseSingle_fields(4) t by blast
  with parseWeeklyRoundup_fields(2) [of m]
  show ex: "\<exists>cs ams. company r = JArr (map JStr cs) \<and> amount r = Some (JArr (map JStr ams))
             \<and> length cs = length ams" by auto
  then show "roundupListsAgree r"
    by (auto simp: roundupListsAgree_def equalLengthLists_def)
next
  fix r assume r: "r \<in> set (extractInvestmentsWithAI parse api random messages)"
    and t: "type r = Roundup"
  from r obtain m s d where dm: "m \<in> set messages" and d: "parse s = Some d"
      "standardizeInvestmentData d (msgText m) (msgDate m)
         (test True genAI_roundupRe (msgText m)) = Inr r" by (rule ai_origin)
  from ai_roundup_lists [OF d(2) t]
  show "amount r = None
           \<or> (\<exists>d cs ams. (\<exists>s. parse s = Some d)
                 \<and> getProp d (js ''company'') = Some (JArr cs)
                 \<and> getProp d (js ''amount'') = Some (JArr ams)
                 \<and> company r = JArr cs
                 \<and> amount r = Some (JArr (map standardizeAmountItem ams))
                 \<and> roundupListsAgree r = (length cs = length ams))"
  proof (elim disjE exE conjE)
    assume "amount r = None"
    then show ?thesis by (rule disjI1)
  next
    fix cs ams
    assume 2: "getProp d (js ''company'') = Some (JArr cs)"
      "getProp d (js ''amount'') = Some (JArr ams)" "company r = JArr cs"
      "amount r = Some (JArr (map standardizeAmountItem ams))"
    have agree: "roundupListsAgree r = (length cs = length ams)"
      using 2(3,4) by (simp add: roundupListsAgree_def equalLengthLists_def)
    have "\<exists>d cs ams. (\<exists>s. parse s = Some d)
                 \<and> getProp d (js ''company'') = Some (JArr cs)
                 \<and> getProp d (js ''amount'') = Some (JArr ams)
                 \<and> company r = JArr cs
                 \<and> amount r = Some (JArr (map standardizeAmountItem ams))
                 \<and> roundupListsAgree r = (length cs = length ams)"
      using d(1) 2 agree by (intro exI conjI) assumption+
    then show ?thesis by (rule disjI2)
  qed
qed

theorem roundup_lists_witness:
  "extractInvestmentData noThousands [roundupMessage] \<noteq> []
   \<and> list_all (\<lambda>r. type r = Roundup \<and> roundupListsAgree r)
        (extractInvestmentData noThousands [roundupMessage])
   \<and> extractInvestmentsWithAI twoParse twoServices noJitters [topMessage] = [twoRecord]
   \<and> type twoRecord = Roundup
   \<and> (\<exists>cs ams. getProp twoObject (js ''company'') = Some (JArr cs)
         \<and> getProp twoObject (js ''amount'') = Some (JArr ams)
         \<and> company twoRecord = JArr cs
         \<and> amount twoRecord = Some (JArr (map standardizeAmountItem ams))
         \<and> roundupListsAgree twoRecord = (length cs = length ams))"
proof -
  let ?r = "parseWeeklyRoundup roundupMessage"
  have t: "type ?r = Roundup" by (rule parseWeeklyRoundup_fields(1))
  have "?r \<in> set (extractInvestmentData noThousands [roundupMessage])"
    by (simp add: roundup_emitted)
  with roundup_lists [of noThousands "[roundupMessage]" twoParse twoServices noJitters] t
  have a: "roundupListsAgree ?r" by blast
  have t2: "type twoRecord = Roundup" and am: "amount twoRecord \<noteq> None"
    by (simp_all add: twoRecord_def)
  have "twoRecord \<in> set (extractInvestmentsWithAI twoParse twoServices noJitters [topMessage])"
    by (simp add: two_emitted)
  from roundup_lists [of noThousands "[topMessage]" twoParse twoServices noJitters,
      THEN conjunct2, THEN bspec, OF this, THEN mp, OF t2] am
  have "\<exists>d cs ams. (\<exists>s. twoParse s = Some d)
                 \<and> getProp d (js ''company'') = Some (JArr cs)
                 \<and> getProp d (js ''amount'') = Some (JArr ams)
                 \<and> company twoRecord = JArr cs
                 \<and> amount twoRecord = Some (JArr (map standardizeAmountItem ams))
                 \<and> roundupListsAgree twoRecord = (length cs = length ams)" by simp
  then have b: "\<exists>cs ams. getProp twoObject (js ''company'') = Some (JArr cs)
         \<and> getProp twoObject (js ''amount'') = Some (JArr ams)
         \<and> company twoRecord = JArr cs
         \<and> amount twoRecord = Some (JArr (map standardizeAmountItem ams))
         \<and> roundupListsAgree twoRecord = (length cs = length ams)"
    using twoParse_Some by metis
  show ?thesis using a b t t2 by (simp add: roundup_emitted two_emitted)
qed

subsection \<open>Currency symbols (C1)\<close>




subsection \<open>The format of an amount (C3)\<close>

text \<open>The property in the words of the specification: the amount matches
  \<open>^[0-9]+(\.[0-9]+)?[MB]$\<close> or is the string \<open>Undisclosed\<close>.\<close>

definition amountPattern :: re where
  "amountPattern =
     seqs [Bol, Plus (Cls False [CRange 48 57]),
           Opt (Grp 1 (Seq (Lit 46) (Plus (Cls False [CRange 48 57])))),
           Cls False [CChar 77, CChar 66], Eol]"

definition wellFormedAmount :: "json option \<Rightarrow> bool" where
  "wellFormedAmount v =
     (case v of Some (JStr s) \<Rightarrow> test False amountPattern s \<or> s = js ''Undisclosed'' | _ \<Rightarrow> False)"

text \<open>
  C3, as stated. It fails in both engines. The rule-based engine takes the digits and
  dots after \<open>$\<close> and the next \<open>M\<close> or \<open>B\<close>, of either case, after optional white space:
  the announcement \<open>Acme Seed Round\<close> with the line \<open>Raised $5. More soon.\<close> is emitted as
  an investment with the amount \<open>5.M\<close>. The AI engine keeps the amount the model
  answered: \<open>{"company":"Foo","amount":"$5M-$10M"}\<close> is emitted as an investment with the
  amount \<open>5M-$10M\<close>.
\<close>

theorem amount_format_counterexample:
  "map type (extractInvestmentData noThousands [dotMessage]) = [Investment]
   \<and> map amount (extractInvestmentData noThousands [dotMessage]) = [Some (JStr (js ''5.M''))]
   \<and> \<not> wellFormedAmount (Some (JStr (js ''5.M'')))
   \<and> map type (extractInvestmentsWithAI rangeParse rangeServices noJitters [fooMessage]) = [Investment]
   \<and> map amount (extractInvestmentsWithAI rangeParse rangeServices noJitters [fooMessage])
       = [Some (JStr (js ''5M-$10M''))]
   \<and> \<not> wellFormedAmount (Some (JStr (js ''5M-$10M'')))"
proof -
  from dot_emitted [of noThousands] obtain r where
    "extractInvestmentData noThousands [dotMessage] = [r]" "type r = Investment"
    "amount r = Some (JStr (js ''5.M''))" by blast
  then have a: "map type (extractInvestmentData noThousands [dotMessage]) = [Investment]"
    "map amount (extractInvestmentData noThousands [dotMessage]) = [Some (JStr (js ''5.M''))]"
    by simp_all
  have b: "\<not> wellFormedAmount (Some (JStr (js ''5.M'')))"
    by (simp add: wellFormedAmount_def amountPattern_def re_eval)
  have c: "\<not> wellFormedAmount (Some (JStr (js ''5M-$10M'')))"
    by (simp add: wellFormedAmount_def amountPattern_def re_eval)
  have d: "map type (extractInvestmentsWithAI rangeParse rangeServices noJitters [fooMessage]) = [Investment]"
    "map amount (extractInvestmentsWithAI rangeParse rangeServices noJitters [fooMessage])
       = [Some (JStr (js ''5M-$10M''))]"
    by (simp_all add: range_emitted rangeRecord_def)
  show ?thesis using a b c d by simp
qed

text \<open>
  C3, amended. Every record the rule-based engine emits that is not a roundup has an
  amount that is \<open>Undisclosed\<close>, or a non-empty run of digits and dots followed by \<open>M\<close> or
  \<open>B\<close>, or the converted thousands followed by \<open>M\<close>. In every record the AI engine emits
  that is not a roundup, the amount is absent or is a truthy amount of the model's answer
  (of the answer itself or of its first or only acquisition), without its first \<open>$\<close> when
  it is a string; the engine does not check its format.
\<close>

theorem amount_format:
  "(\<forall>r \<in> set (extractInvestmentData kToM messages).
       type r \<noteq> Roundup \<longrightarrow>
         (\<exists>a. amount r = Some (JStr a)
            \<and> (a = js ''Undisclosed'' \<or> amountShape a
                 \<or> (\<exists>ds. a = kToM ds @ js ''M'' \<and> numberText ds))))
   \<and> (\<forall>r \<in> set (extractInvestmentsWithAI parse api random messages).
         type r \<noteq> Roundup \<longrightarrow>
           amount r = None
           \<or> (\<exists>d v. (\<exists>s. parse s = Some d) \<and> v \<in> set (modelAmounts d) \<and> truthy v
                 \<and> amount r = stripIfString v))"
proof (intro conjI ballI impI)
  fix r assume r: "r \<in> set (extractInvestmentData kToM messages)" and t: "type r \<noteq> Roundup"
  from r obtain m where m: "parseInvestmentData kToM m = Some r"
    unfolding extractInvestmentData_iff by blast
  from parseInvestmentData_cases [OF m] t have p: "parseSingle kToM m = Some r"
    using parseWeeklyRoundup_fields(1) by blast
  have a: "amount r = Some (JStr (extractFundingAmount kToM (msgText m)))"
    by (rule parseSingle_fields(2) [OF p])
  from extractFundingAmount_shape [of kToM "msgText m"]
  show "\<exists>a. amount r = Some (JStr a)
            \<and> (a = js ''Undisclosed'' \<or> amountShape a
                 \<or> (\<exists>ds. a = kToM ds @ js ''M'' \<and> numberText ds))"
    unfolding a amountShape_def by blast
next
  fix r assume r: "r \<in> set (extractInvestmentsWithAI parse api random messages)"
    and t: "type r \<noteq> Roundup"
  from r obtain m s d where dm: "m \<in> set messages" and d: "parse s = Some d"
      "standardizeInvestmentData d (msgText m) (msgDate m)
         (test True genAI_roundupRe (msgText m)) = Inr r" by (rule ai_origin)
  from ai_amount_source [OF d(2) t] d(1)
  show "amount r = None
           \<or> (\<exists>d v. (\<exists>s. parse s = Some d) \<and> v \<in> set (modelAmounts d) \<and> truthy v
                 \<and> amount r = stripIfString v)" by blast
qed

theorem amount_format_witness:
  "extractInvestmentData noThousands [acmeMessage] \<noteq> []
   \<and> list_all (\<lambda>r. type r \<noteq> Roundup \<and> amount r = Some (JStr (js ''5M'')) \<and> amountShape (js ''5M''))
        (extractInvestmentData noThousands [acmeMessage])
   \<and> extractInvestmentsWithAI fooParse fooServices noJitters [fooMessage] = [fooRecord]
   \<and> type fooRecord \<noteq> Roundup
   \<and> (\<exists>v. v \<in> set (modelAmounts fooObject) \<and> truthy v \<and> amount fooRecord = stripIfString v)"
proof -
  from acme_emitted [of noThousands] obtain r where
    r: "extractInvestmentData noThousands [acmeMessage] = [r]" "type r = Investment"
       "amount r = Some (JStr (js ''5M''))" by blast
  have "r \<in> set (extractInvestmentData noThousands [acmeMessage])" using r(1) by simp
  with amount_format [of noThousands "[acmeMessage]" fooParse fooServices noJitters] r(2)
  have "\<exists>a. amount r = Some (JStr a)
            \<and> (a = js ''Undisclosed'' \<or> amountShape a
                 \<or> (\<exists>ds. a = noThousands ds @ js ''M'' \<and> numberText ds))" by auto
  then have "js ''5M'' = js ''Undisclosed'' \<or> amountShape (js ''5M'')
                 \<or> (\<exists>ds. js ''5M'' = noThousands ds @ js ''M'')"
    using r(3) by auto
  then have a: "amountShape (js ''5M'')" by (auto simp: js_def noThousands_def)
  have t: "type fooRecord \<noteq> Roundup" and am: "amount fooRecord \<noteq> None"
    by (simp_all add: fooRecord_def)
  have "fooRecord \<in> set (extractInvestmentsWithAI fooParse fooServices noJitters [fooMessage])"
    by (simp add: foo_emitted)
  from amount_format [of noThousands "[fooMessage]" fooParse fooServices noJitters,
      THEN conjunct2, THEN bspec, OF this, THEN mp, OF t] am
  have "\<exists>d v. (\<exists>s. fooParse s = Some d) \<and> v \<in> set (modelAmounts d) \<and> truthy v
                 \<and> amount fooRecord = stripIfString v" by simp
  then have b: "\<exists>v. v \<in> set (modelAmounts fooObject) \<and> truthy v \<and> amount fooRecord = stripIfString v"
    using fooParse_Some by blast
  show ?thesis using a b t r by (simp add: foo_emitted)
qed

end
